(* ===== verification/Kms_Prelude.thy ===== *)
theory Kms_Prelude
  imports Complex_Main "HOL-Library.AList" "HOL-Library.Char_ord" "HOL-Library.List_Lexorder"
    "HOL-Library.Word"
begin

text \<open>
  The library's base: programs that may raise (state passing with an exception or a value as
  the result), \<open>std::map\<close> as an association list with distinct keys, and decimal printing
  as \<open>std::to_string\<close> does it. Nothing here models a particular file of the server.
\<close>

named_theorems prog_simps "evaluation rules of the program combinators"

section \<open>Programs with state and exceptions\<close>

text \<open>
  A C++ function that reads and writes the state \<open>'s\<close>, may throw \<open>'e\<close> and returns \<open>'a\<close>.
  A throw keeps what was written before it.
\<close>

type_synonym ('s, 'e, 'a) prog = "'s \<Rightarrow> ('e + 'a) \<times> 's"

definition ret :: "'a \<Rightarrow> ('s, 'e, 'a) prog" where
  "ret x s = (Inr x, s)"

definition raise :: "'e \<Rightarrow> ('s, 'e, 'a) prog" where
  "raise e s = (Inl e, s)"

definition lift :: "'e + 'a \<Rightarrow> ('s, 'e, 'a) prog" where
  "lift r s = (r, s)"

definition andThen :: "('s, 'e, 'a) prog \<Rightarrow> ('a \<Rightarrow> ('s, 'e, 'b) prog) \<Rightarrow> ('s, 'e, 'b) prog" where
  "andThen m f s = (case m s of (Inl e, s') \<Rightarrow> (Inl e, s') | (Inr x, s') \<Rightarrow> f x s')"

text \<open>\<open>handle m h\<close> is \<open>try { m } catch\<close>: \<open>h\<close> decides on every exception.\<close>

definition handle :: "('s, 'e, 'a) prog \<Rightarrow> ('e \<Rightarrow> ('s, 'e, 'a) prog) \<Rightarrow> ('s, 'e, 'a) prog" where
  "handle m h s = (case m s of (Inl e, s') \<Rightarrow> h e s' | (Inr x, s') \<Rightarrow> (Inr x, s'))"

definition reads :: "('s \<Rightarrow> 'a) \<Rightarrow> ('s, 'e, 'a) prog" where
  "reads f s = (Inr (f s), s)"

lemma reads_run [simp, prog_simps]: "reads f s = (Inr (f s), s)"
  by (simp add: reads_def)

lemma ret_run [simp, prog_simps]: "ret x s = (Inr x, s)"
  by (simp add: ret_def)

lemma raise_run [simp, prog_simps]: "raise e s = (Inl e, s)"
  by (simp add: raise_def)

lemma lift_run [simp, prog_simps]: "lift r s = (r, s)"
  by (simp add: lift_def)

lemma andThen_Inl [simp, prog_simps]: "m s = (Inl e, s') \<Longrightarrow> andThen m f s = (Inl e, s')"
  by (simp add: andThen_def)

lemma andThen_Inr [simp, prog_simps]: "m s = (Inr x, s') \<Longrightarrow> andThen m f s = f x s'"
  by (simp add: andThen_def)

lemma handle_Inl [simp, prog_simps]: "m s = (Inl e, s') \<Longrightarrow> handle m h s = h e s'"
  by (simp add: handle_def)

lemma handle_Inr [simp, prog_simps]: "m s = (Inr x, s') \<Longrightarrow> handle m h s = (Inr x, s')"
  by (simp add: handle_def)

lemma andThen_InrE:
  assumes "andThen m f s = (Inr y, t)"
  obtains x s' where "m s = (Inr x, s')" and "f x s' = (Inr y, t)"
  using assms by (auto simp: andThen_def split: prod.splits sum.splits)

lemma andThen_cong_run: "m s = n s \<Longrightarrow> (\<And>x t. f x t = g x t) \<Longrightarrow> andThen m f s = andThen n g s"
  by (auto simp: andThen_def split: prod.splits sum.splits)

lemma andThen_assoc: "andThen (andThen m f) g = andThen m (\<lambda>x. andThen (f x) g)"
  by (rule ext) (auto simp: andThen_def split: prod.splits sum.splits)

lemma handle_raise: "handle m raise = m"
  by (rule ext) (auto simp: handle_def split: prod.splits sum.splits)

text \<open>Running a program on a component of the state.\<close>

definition zoom :: "('s \<Rightarrow> 'c) \<Rightarrow> ('c \<Rightarrow> 's \<Rightarrow> 's) \<Rightarrow> ('c, 'e, 'a) prog \<Rightarrow> ('s, 'e, 'a) prog" where
  "zoom rd wr m s = (case m (rd s) of (r, c) \<Rightarrow> (r, wr c s))"

lemma zoom_run [simp, prog_simps]: "m (rd s) = (r, c) \<Longrightarrow> zoom rd wr m s = (r, wr c s)"
  by (simp add: zoom_def)

section \<open>Weakest preconditions\<close>

text \<open>
  \<open>wp m Q X\<close> holds of a state from which \<open>m\<close> ends in \<open>Q\<close> with its value, or in \<open>X\<close> with
  the exception it throws. The rules compute it along the program.
\<close>

named_theorems wp_simps "weakest preconditions of the program combinators"

definition wp ::
  "('s, 'e, 'a) prog \<Rightarrow> ('a \<Rightarrow> 's \<Rightarrow> bool) \<Rightarrow> ('e \<Rightarrow> 's \<Rightarrow> bool) \<Rightarrow> 's \<Rightarrow> bool" where
  "wp m Q X s \<longleftrightarrow> (case m s of (Inl e, t) \<Rightarrow> X e t | (Inr x, t) \<Rightarrow> Q x t)"

lemma wp_ret [wp_simps]: "wp (ret x) Q X s \<longleftrightarrow> Q x s"
  by (simp add: wp_def)

lemma wp_Pair [wp_simps]:
  "wp (Pair r) Q X s \<longleftrightarrow> (case r of Inl e \<Rightarrow> X e s | Inr x \<Rightarrow> Q x s)"
  by (simp add: wp_def)

lemma wp_raise [wp_simps]: "wp (raise e) Q X s \<longleftrightarrow> X e s"
  by (simp add: wp_def)

lemma wp_lift [wp_simps]: "wp (lift r) Q X s \<longleftrightarrow> (case r of Inl e \<Rightarrow> X e s | Inr x \<Rightarrow> Q x s)"
  by (simp add: wp_def)

lemma wp_andThen [wp_simps]: "wp (andThen m f) Q X s \<longleftrightarrow> wp m (\<lambda>x. wp (f x) Q X) X s"
  by (simp add: wp_def andThen_def split: prod.splits sum.splits)

lemma wp_handle [wp_simps]: "wp (handle m h) Q X s \<longleftrightarrow> wp m Q (\<lambda>e. wp (h e) Q X) s"
  by (simp add: wp_def handle_def split: prod.splits sum.splits)

lemma wp_zoom [wp_simps]:
  "wp (zoom rd wr m) Q X s \<longleftrightarrow> wp m (\<lambda>x c. Q x (wr c s)) (\<lambda>e c. X e (wr c s)) (rd s)"
  by (simp add: wp_def zoom_def split: prod.splits sum.splits)

lemma wp_if [wp_simps]: "wp (if b then m else n) Q X s \<longleftrightarrow> (if b then wp m Q X s else wp n Q X s)"
  by simp

lemma wp_reads [wp_simps]: "wp (reads f) Q X s \<longleftrightarrow> Q (f s) s"
  by (simp add: wp_def)

lemma wp_case_option [wp_simps]:
  "wp (case p of None \<Rightarrow> m | Some x \<Rightarrow> f x) Q X s \<longleftrightarrow>
     (case p of None \<Rightarrow> wp m Q X s | Some x \<Rightarrow> wp (f x) Q X s)"
  by (simp split: option.split)

lemma wp_case_prod [wp_simps]:
  "wp (case p of (x, y) \<Rightarrow> f x y) Q X s \<longleftrightarrow> (case p of (x, y) \<Rightarrow> wp (f x y) Q X s)"
  by (simp split: prod.split)

lemma wp_all: "(\<And>x t. Q x t) \<Longrightarrow> (\<And>e t. X e t) \<Longrightarrow> wp m Q X s"
  by (simp add: wp_def split: prod.splits sum.splits)

lemma wp_mono: "wp m Q X s \<Longrightarrow> (\<And>x t. Q x t \<Longrightarrow> Q' x t) \<Longrightarrow> (\<And>e t. X e t \<Longrightarrow> X' e t) \<Longrightarrow> wp m Q' X' s"
  by (simp add: wp_def split: prod.splits sum.splits)

lemma wp_Inr: "wp m Q X s \<Longrightarrow> m s = (Inr x, t) \<Longrightarrow> Q x t"
  by (simp add: wp_def)

lemma wp_Inl: "wp m Q X s \<Longrightarrow> m s = (Inl e, t) \<Longrightarrow> X e t"
  by (simp add: wp_def)

lemma wp_run: "m s = (r, t) \<Longrightarrow> wp m Q X s \<longleftrightarrow> (case r of Inl e \<Rightarrow> X e t | Inr x \<Rightarrow> Q x t)"
  by (simp add: wp_def)

section \<open>\<open>std::map\<close>\<close>

text \<open>
  A map is an association list with distinct keys: \<open>map_of\<close> is \<open>find\<close>, \<open>AList.update\<close> is
  \<open>m[k] = v\<close>, \<open>AList.delete\<close> is \<open>erase (k)\<close>.
\<close>

definition wf_map :: "('k \<times> 'v) list \<Rightarrow> bool" where
  "wf_map m \<longleftrightarrow> distinct (map fst m)"

lemma wf_map_Nil [simp, intro]: "wf_map []"
  by (simp add: wf_map_def)

lemma wf_map_update [simp, intro]: "wf_map m \<Longrightarrow> wf_map (AList.update k v m)"
  by (simp add: wf_map_def distinct_update)

lemma wf_map_delete [simp, intro]: "wf_map m \<Longrightarrow> wf_map (AList.delete k m)"
  by (simp add: wf_map_def distinct_delete)

lemma map_of_update [simp]: "map_of (AList.update k v m) = (map_of m)(k \<mapsto> v)"
  by (simp add: update_conv')

lemma map_of_delete [simp]: "map_of (AList.delete k m) = (map_of m)(k := None)"
  by (simp add: delete_conv')

lemma wf_map_lookup: "wf_map m \<Longrightarrow> (k, v) \<in> set m \<longleftrightarrow> map_of m k = Some v"
  by (auto simp: wf_map_def dest: map_of_SomeD)

lemma set_alist_update: "set (AList.update k v m) \<subseteq> insert (k, v) (set m)"
  by (induction m) auto

lemma set_alist_delete: "set (AList.delete k m) \<subseteq> set m"
  by (auto simp: AList.delete_eq)

lemma alist_update_not_Nil [simp]: "AList.update k v m \<noteq> []"
  by (cases m) auto

lemma delete_Nil_lookup:
  assumes "AList.delete k m = []" and "k' \<noteq> k"
  shows "map_of m k' = None"
proof -
  have "(map_of m)(k := None) = map_of []" using assms(1) map_of_delete [of k m] by simp
  then have "((map_of m)(k := None)) k' = None" by simp
  then show ?thesis using assms(2) by simp
qed

lemma delete_Nil_lookup_Some:
  "AList.delete k m = [] \<Longrightarrow> map_of m k' = Some v \<Longrightarrow> k' = k"
  by (metis delete_Nil_lookup option.distinct(1))

section \<open>Decimal and hexadecimal digits\<close>

definition digit_char :: "nat \<Rightarrow> char" where
  "digit_char d = ''0123456789ABCDEF'' ! d"

text \<open>Digits of a number in a base, most significant first; \<open>std::to_string\<close> is base ten.\<close>

function digits_in :: "nat \<Rightarrow> nat \<Rightarrow> string" where
  "digits_in b n =
     (if b < 2 \<or> n < b then [digit_char n] else digits_in b (n div b) @ [digit_char (n mod b)])"
  by pat_completeness auto
termination
  by (relation "measure snd") auto

declare digits_in.simps [simp del]

abbreviation to_string_nat :: "nat \<Rightarrow> string" where
  "to_string_nat n \<equiv> digits_in 10 n"

definition to_string_int :: "int \<Rightarrow> string" where
  "to_string_int i = (if i < 0 then CHR ''-'' # to_string_nat (nat (- i)) else to_string_nat (nat i))"

lemma less16_cases:
  "(d::nat) < 16 \<Longrightarrow> d \<in> {0, 1, 2, 3, 4, 5, 6, 7, 8, 9, 10, 11, 12, 13, 14, 15}"
  by (simp add: numeral_eq_Suc less_Suc_eq)

lemma digit_char_inj: "c < 16 \<Longrightarrow> d < 16 \<Longrightarrow> digit_char c = digit_char d \<longleftrightarrow> c = d"
  by (drule less16_cases, drule less16_cases) (auto simp: digit_char_def)

lemma digits_in_small: "n < b \<Longrightarrow> digits_in b n = [digit_char n]"
  by (simp add: digits_in.simps [of b n])

lemma digits_in_step:
  "2 \<le> b \<Longrightarrow> b \<le> n \<Longrightarrow> digits_in b n = digits_in b (n div b) @ [digit_char (n mod b)]"
  by (simp add: digits_in.simps [of b n])

lemma digits_in_nonempty [simp]: "digits_in b n \<noteq> []"
  by (subst digits_in.simps) simp

end
