(* ===== verification/Session_Registry.thy ===== *)
theory Session_Registry
  imports Kms_Prelude
begin

text \<open>
  What the websocket transport keeps of its clients, as an interface: which connection a session
  has and which session a connection has. Sessions move between connections and connections
  between sessions; the laws say that the two views stay inverse to each other and what a
  registration and a removal change. Proved from them: after any history the answer is that of
  the last event that concerns it.
\<close>

locale session_registry =
  fixes assoc :: "'st \<Rightarrow> string \<Rightarrow> nat \<Rightarrow> 'st"
    and drop_conn :: "'st \<Rightarrow> nat \<Rightarrow> 'st"
    and conn_of :: "'st \<Rightarrow> string \<Rightarrow> nat option"
    and sess_of :: "'st \<Rightarrow> nat \<Rightarrow> string option"
    and ok :: "'st \<Rightarrow> bool"
    and live :: "'st \<Rightarrow> nat \<Rightarrow> bool"
  assumes ok_assoc: "ok st \<Longrightarrow> live st h \<Longrightarrow> ok (assoc st s h)"
    and ok_drop: "ok st \<Longrightarrow> ok (drop_conn st h)"
    and inverse: "ok st \<Longrightarrow> conn_of st s = Some h \<longleftrightarrow> sess_of st h = Some s"
    and live_assoc: "live (assoc st s h) h' \<longleftrightarrow> live st h'"
    and live_drop: "live (drop_conn st h) h' \<longleftrightarrow> live st h'"
    and sess_assoc: "ok st \<Longrightarrow> live st h \<Longrightarrow> sess_of (assoc st s h) h' =
      (if h' = h then Some s else if sess_of st h' = Some s then None else sess_of st h')"
    and sess_drop: "ok st \<Longrightarrow> sess_of (drop_conn st h) h' = (if h' = h then None else sess_of st h')"
begin

lemma conn_assoc:
  assumes "ok st" and "live st h"
  shows "conn_of (assoc st s h) s' =
    (if s' = s then Some h else if conn_of st s' = Some h then None else conn_of st s')"
proof -
  have "conn_of (assoc st s h) s' = Some h' \<longleftrightarrow>
      (if s' = s then Some h else if conn_of st s' = Some h then None else conn_of st s') = Some h'" for h'
    using inverse [OF ok_assoc [OF assms], of s s' h'] inverse [OF assms(1), of s' h']
      inverse [OF assms(1), of s' h] sess_assoc [OF assms, of s h']
    by auto
  then show ?thesis by (metis option.exhaust)
qed

lemma conn_drop:
  assumes "ok st"
  shows "conn_of (drop_conn st h) s = (if conn_of st s = Some h then None else conn_of st s)"
proof -
  have "conn_of (drop_conn st h) s = Some h' \<longleftrightarrow>
      (if conn_of st s = Some h then None else conn_of st s) = Some h'" for h'
    using inverse [OF ok_drop [OF assms], of h s h'] inverse [OF assms, of s h']
      inverse [OF assms, of s h] sess_drop [OF assms, of h h']
    by auto
  then show ?thesis by (metis option.exhaust)
qed

text \<open>A session is reached on one connection, a connection serves one session.\<close>

lemma one_connection: "ok st \<Longrightarrow> conn_of st s = Some h \<Longrightarrow> conn_of st s' = Some h \<Longrightarrow> s = s'"
  using inverse by (metis option.inject)

text \<open>A history of registrations (a session on a connection) and removals (of a connection).\<close>

fun replay :: "'st \<Rightarrow> (string option \<times> nat) list \<Rightarrow> 'st" where
  "replay st [] = st"
| "replay st ((Some s, h) # es) = replay (assoc st s h) es"
| "replay st ((None, h) # es) = replay (drop_conn st h) es"

text \<open>The session a connection has after a history, read from the history alone.\<close>

fun last_session :: "string option \<Rightarrow> (string option \<times> nat) list \<Rightarrow> nat \<Rightarrow> string option" where
  "last_session r [] h' = r"
| "last_session r ((Some s, h) # es) h' =
     last_session (if h' = h then Some s else if r = Some s then None else r) es h'"
| "last_session r ((None, h) # es) h' = last_session (if h' = h then None else r) es h'"

definition all_live :: "'st \<Rightarrow> (string option \<times> nat) list \<Rightarrow> bool" where
  "all_live st es \<longleftrightarrow> (\<forall>s h. (Some s, h) \<in> set es \<longrightarrow> live st h)"

lemma ok_replay: "ok st \<Longrightarrow> all_live st es \<Longrightarrow> ok (replay st es)"
  by (induction st es rule: replay.induct) (auto simp: ok_assoc ok_drop all_live_def live_assoc live_drop)

lemma sess_replay:
  "ok st \<Longrightarrow> all_live st es \<Longrightarrow> sess_of (replay st es) h = last_session (sess_of st h) es h"
proof (induction st es rule: replay.induct)
  case (2 st s h' es)
  then have "ok (assoc st s h')" "all_live (assoc st s h') es" "live st h'"
    by (auto simp: ok_assoc all_live_def live_assoc)
  with 2 show ?case by (simp add: sess_assoc)
next
  case (3 st h' es)
  then have "ok (drop_conn st h')" "all_live (drop_conn st h') es"
    by (auto simp: ok_drop all_live_def live_drop)
  with 3 show ?case by (simp add: sess_drop)
qed simp

lemma replay_reaches:
  "ok st \<Longrightarrow> all_live st es \<Longrightarrow>
     conn_of (replay st es) s = Some h \<longleftrightarrow> last_session (sess_of st h) es h = Some s"
  using inverse [OF ok_replay] sess_replay by simp

end

end
