(* ===== verification/Json_Model.thy ===== *)
theory Json_Model
  imports Kms_Prelude
begin

text \<open>
  The values the server exchanges with its clients and the exceptions its functions throw.
  A \<open>Json::Value\<close> is the JSON tree; members of an object are kept in key order, as the map
  inside an object keeps them, so equal objects are equal lists. The reading functions of the
  JSON-RPC library (\<open>getValue\<close>, \<open>isConvertibleTo\<close>, the parser and the writer) are not part
  of the repository: they are fields of \<open>kms_env\<close> in \<open>Server_Env\<close>, a parameter of the
  definitions that call them.
\<close>

section \<open>Values\<close>

datatype json =
    JNull
  | JBool bool
  | JInt int
  | JReal rat
  | JString string
  | JArray "json list"
  | JObject "(string \<times> json) list"

fun isObject :: "json \<Rightarrow> bool" where
  "isObject (JObject _) = True"
| "isObject _ = False"

fun isArray :: "json \<Rightarrow> bool" where
  "isArray (JArray _) = True"
| "isArray _ = False"

text \<open>The member of an object, if there is one.\<close>

fun jmember :: "json \<Rightarrow> string \<Rightarrow> json option" where
  "jmember (JObject ms) k = map_of ms k"
| "jmember _ _ = None"

fun put_member :: "string \<Rightarrow> json \<Rightarrow> (string \<times> json) list \<Rightarrow> (string \<times> json) list" where
  "put_member k v [] = [(k, v)]"
| "put_member k v ((k', v') # ms) =
     (if k' = k then (k, v) # ms
      else if k < k' then (k, v) # (k', v') # ms
      else (k', v') # put_member k v ms)"

lemma map_of_put_member [simp]: "map_of (put_member k v ms) = (map_of ms)(k \<mapsto> v)"
  by (induction ms) (auto simp: fun_upd_twist)

lemma put_member_idem: "put_member k w (put_member k v ms) = put_member k w ms"
  by (induction ms) auto

section \<open>Exceptions\<close>

text \<open>
  Codes of the exceptions of the core library, by name, and of JSON-RPC. The model's values
  are those the server distinguishes; \<open>OtherKms\<close> and \<open>OtherRpc\<close> stand for all others.
\<close>

datatype kcode =
    NOT_ENOUGH_RESOURCES | MALFORMED_TRANSACTION | MEDIA_OBJECT_EVENT_NOT_SUPPORTED
  | MEDIA_OBJECT_NOT_FOUND | NOT_IMPLEMENTED | INVALID_SESSION | OtherKms int

datatype rcode = PARSE_ERROR | INVALID_PARAMS | OtherRpc int

datatype ecode = Rpc rcode | Kms kcode

datatype exn =
    CallException ecode string json \<comment> \<open>\<open>JsonRpc::CallException\<close>: code, message, data\<close>
  | KurentoException kcode string
  | CacheException string
  | PtreeError string
  | OutOfRange string
  | InvalidArgument string
  | BadFunctionCall
  | JsonLogicError \<comment> \<open>a \<open>Json::Value\<close> used at a type its operations do not admit\<close>
  | NullPointer \<comment> \<open>dereference of an empty \<open>shared_ptr\<close>\<close>
  | RuntimeError string
  | WebSocketError string
  | StackOverflow
  | FilesystemError string
  | ParseException string \<comment> \<open>a configuration file that cannot be read\<close>
  | Exit int \<comment> \<open>the process ends with this status\<close>
  | Undefined string \<comment> \<open>an operation the language leaves undefined\<close>
  | OtherException string

fun is_CallException :: "exn \<Rightarrow> bool" where
  "is_CallException (CallException _ _ _) = True"
| "is_CallException _ = False"

text \<open>\<open>catch (JsonRpc::CallException)\<close> and \<open>catch (...)\<close>.\<close>

definition catch_call :: "('s, exn, 'a) prog \<Rightarrow> ('s, exn, 'a) prog \<Rightarrow> ('s, exn, 'a) prog" where
  "catch_call m h = handle m (\<lambda>e. if is_CallException e then h else raise e)"

definition catch_all :: "('s, exn, 'a) prog \<Rightarrow> ('s, exn, 'a) prog \<Rightarrow> ('s, exn, 'a) prog" where
  "catch_all m h = handle m (\<lambda>_. h)"

lemma catch_call_run [simp, prog_simps]:
  "m s = (Inr x, t) \<Longrightarrow> catch_call m h s = (Inr x, t)"
  "m s = (Inl (CallException c g d), t) \<Longrightarrow> catch_call m h s = h t"
  by (simp_all add: catch_call_def)

lemma catch_call_other:
  "m s = (Inl e, t) \<Longrightarrow> \<not> is_CallException e \<Longrightarrow> catch_call m h s = (Inl e, t)"
  by (simp add: catch_call_def)

lemma catch_all_run [simp, prog_simps]:
  "m s = (Inr x, t) \<Longrightarrow> catch_all m h s = (Inr x, t)"
  "m s = (Inl e, t) \<Longrightarrow> catch_all m h s = h t"
  by (simp_all add: catch_all_def)

lemma wp_catch_call [wp_simps]:
  "wp (catch_call m h) Q X s \<longleftrightarrow>
     wp m Q (\<lambda>e t. if is_CallException e then wp h Q X t else X e t) s"
  by (simp add: wp_def catch_call_def handle_def split: prod.splits sum.splits)

lemma wp_catch_all [wp_simps]: "wp (catch_all m h) Q X s \<longleftrightarrow> wp m Q (\<lambda>_. wp h Q X) s"
  by (simp add: wp_def catch_all_def handle_def split: prod.splits sum.splits)

section \<open>Member access\<close>

text \<open>
  \<open>value[k]\<close> on a value that is written to: a missing member becomes null, a null value
  becomes an object, any other type is an error. \<open>value[k] = v\<close> stores; on a constant value
  \<open>value[k]\<close> only reads. \<open>isMember\<close> has the same domain.
\<close>

fun jget :: "json \<Rightarrow> string \<Rightarrow> exn + json" where
  "jget JNull k = Inr JNull"
| "jget (JObject ms) k = Inr (case map_of ms k of None \<Rightarrow> JNull | Some v \<Rightarrow> v)"
| "jget _ _ = Inl JsonLogicError"

fun jput :: "string \<Rightarrow> json \<Rightarrow> json \<Rightarrow> exn + json" where
  "jput k v JNull = Inr (JObject [(k, v)])"
| "jput k v (JObject ms) = Inr (JObject (put_member k v ms))"
| "jput k v _ = Inl JsonLogicError"

fun isMember :: "json \<Rightarrow> string \<Rightarrow> exn + bool" where
  "isMember JNull k = Inr False"
| "isMember (JObject ms) k = Inr (map_of ms k \<noteq> None)"
| "isMember _ _ = Inl JsonLogicError"

text \<open>
  \<open>value[i]\<close> on a value that is written to, at an integer index: a null value becomes an
  array, an array grows with nulls up to the index, a negative index is an error.
\<close>

fun elements :: "json \<Rightarrow> json list" where
  "elements (JArray vs) = vs"
| "elements _ = []"

definition grow :: "nat \<Rightarrow> json list \<Rightarrow> json list" where
  "grow i vs = vs @ replicate (Suc i - length vs) JNull"

fun jindex :: "json \<Rightarrow> int \<Rightarrow> exn + json" where
  "jindex JNull i = (if i < 0 then Inl JsonLogicError else Inr JNull)"
| "jindex (JArray vs) i =
     (if i < 0 then Inl JsonLogicError
      else if nat i < length vs then Inr (vs ! nat i) else Inr JNull)"
| "jindex _ _ = Inl JsonLogicError"

fun jput_index :: "nat \<Rightarrow> json \<Rightarrow> json \<Rightarrow> exn + json" where
  "jput_index i v JNull = Inr (JArray ((grow i [])[i := v]))"
| "jput_index i v (JArray vs) = Inr (JArray ((grow i vs)[i := v]))"
| "jput_index _ _ _ = Inl JsonLogicError"

lemma jput_jmember: "jput k v r = Inr r' \<Longrightarrow> jmember r' k' = (if k' = k then Some v else jmember r k')"
  by (cases r) auto

text \<open>On null and on objects, which replies are, the assignment is total.\<close>

definition jset :: "string \<Rightarrow> json \<Rightarrow> json \<Rightarrow> json" where
  "jset k v r = (case r of JObject ms \<Rightarrow> JObject (put_member k v ms) | _ \<Rightarrow> JObject [(k, v)])"

definition objectLike :: "json \<Rightarrow> bool" where
  "objectLike r \<longleftrightarrow> r = JNull \<or> isObject r"

lemma jput_objectLike [simp]: "objectLike r \<Longrightarrow> jput k v r = Inr (jset k v r)"
  by (cases r) (auto simp: objectLike_def jset_def)

lemma objectLike_jset [simp]: "objectLike (jset k v r)"
  by (cases r) (auto simp: objectLike_def jset_def)

lemma objectLike_JNull [simp]: "objectLike JNull"
  by (simp add: objectLike_def)

lemma jset_not_JNull [simp]: "jset k v r \<noteq> JNull" "JNull \<noteq> jset k v r"
  by (cases r; simp add: jset_def)+

lemma jmember_jset [simp]: "jmember (jset k v r) k' = (if k' = k then Some v else jmember r k')"
  by (cases r) (auto simp: jset_def)

lemma jset_jset [simp]: "jset k w (jset k v r) = jset k w r"
  by (cases r) (auto simp: jset_def put_member_idem)

lemma isObject_jset [simp]: "isObject (jset k v r)"
  by (cases r) (auto simp: jset_def)

lemma jput_Inl: "jput k v r = Inl e \<Longrightarrow> e = JsonLogicError"
  by (cases r) auto

lemma jput_isObject: "jput k v r = Inr r' \<Longrightarrow> isObject r'"
  by (cases r) auto

lemma jput_object [simp]: "isObject r \<Longrightarrow> \<exists>r'. jput k v r = Inr r'"
  by (cases r) auto

lemma jget_jmember: "jget r k = Inr v \<Longrightarrow> v = (case jmember r k of None \<Rightarrow> JNull | Some w \<Rightarrow> w)"
  by (cases r) auto

lemma length_grow: "length (grow i vs) = max (length vs) (Suc i)"
  by (simp add: grow_def)

lemma grow_snoc [simp]: "grow (length vs) vs = vs @ [JNull]"
  by (simp add: grow_def)

end
