(* ===== verification/WebSocket_Registrar.thy ===== *)
theory WebSocket_Registrar
  imports Json_Model
begin

text \<open>
  \<open>server/transport/websocket/WebSocketRegistrar.cpp\<close>: the thread that announces the server's
  address to a registrar, reconnecting with growing waits. What the websocket client library
  does during one turn of the loop is an \<open>attempt\<close>: whether a connection could be made, on which
  handle it opened if it did, and whether the registrar was told to finish meanwhile. What the
  loop does is a list of actions. Times are milliseconds.
\<close>

record registrar =
  rg_localAddress :: string
  rg_localPort :: nat
  rg_localSecurePort :: nat
  rg_path :: string
  rg_registrarAddress :: string
  rg_finished :: bool
  rg_secure :: bool
  rg_waitTime :: nat
  rg_connection :: "nat option"
  rg_joinable :: bool \<comment> \<open>the thread has been started and not joined\<close>

record attempt =
  at_created :: bool
  at_opened :: "nat option"
  at_finished :: bool

datatype registrar_action =
    Connecting bool \<comment> \<open>with TLS\<close>
  | Registering nat string
  | Waiting nat

definition DEFAULT_WAIT_TIME :: nat where
  "DEFAULT_WAIT_TIME = 100"

definition MAX_WAIT_TIME :: nat where
  "MAX_WAIT_TIME = 10 * 1000"

definition registrar_init :: "string \<Rightarrow> string \<Rightarrow> nat \<Rightarrow> nat \<Rightarrow> string \<Rightarrow> registrar" where
  "registrar_init registrarAddress localAddress localPort localSecurePort path =
     \<lparr>rg_localAddress = localAddress, rg_localPort = localPort, rg_localSecurePort = localSecurePort,
      rg_path = path, rg_registrarAddress = registrarAddress, rg_finished = False,
      rg_secure = False, rg_waitTime = 0, rg_connection = None, rg_joinable = False\<rparr>"

definition registrar_start :: "registrar \<Rightarrow> registrar" where
  "registrar_start r =
     (if rg_registrarAddress r = [] \<or> rg_localAddress r = [] then r
      else r\<lparr>rg_waitTime := DEFAULT_WAIT_TIME, rg_finished := False, rg_joinable := True\<rparr>)"

text \<open>
  \<open>stop\<close>, not called on the registrar's own thread. Errors of closing the connection are ignored.
  Joining a thread that is not joinable throws.
\<close>

definition registrar_stop :: "registrar \<Rightarrow> (exn + unit) \<times> registrar" where
  "registrar_stop r =
     (if rg_registrarAddress r = [] \<or> rg_localAddress r = [] then (Inr (), r)
      else
        let r1 = r\<lparr>rg_finished := True\<rparr>
        in if rg_joinable r1 then (Inr (), r1\<lparr>rg_joinable := False\<rparr>)
           else (Inl (OtherException ''std::system_error''), r1))"

definition registrar_destroy :: "registrar \<Rightarrow> (exn + unit) \<times> registrar" where
  "registrar_destroy r = (if \<not> rg_finished r then registrar_stop r else (Inr (), r))"

definition local_url :: "registrar \<Rightarrow> string" where
  "local_url r =
     (if 0 < rg_localSecurePort r then
        ''wss://'' @ rg_localAddress r @ '':'' @ to_string_nat (rg_localSecurePort r) @ ''/'' @ rg_path r
      else
        ''ws://'' @ rg_localAddress r @ '':'' @ to_string_nat (rg_localPort r) @ ''/'' @ rg_path r)"

definition register_request :: "registrar \<Rightarrow> json" where
  "register_request r =
     jset ''params'' (jset ''ws'' (JString (local_url r)) JNull)
       (jset ''method'' (JString ''register'') (jset ''jsonrpc'' (JString ''2.0'') JNull))"

text \<open>An open connection starts the waits afresh. An error of sending is only logged.\<close>

definition connectionOpen :: "(json \<Rightarrow> string) \<Rightarrow> registrar \<Rightarrow> nat \<Rightarrow> registrar \<times> registrar_action list" where
  "connectionOpen writeJson r hdl =
     (r\<lparr>rg_waitTime := DEFAULT_WAIT_TIME, rg_connection := Some hdl\<rparr>,
      [Registering hdl (writeJson (register_request r))])"

text \<open>A turn of the loop up to the check of \<open>finished\<close>.\<close>

definition registrar_attempt ::
  "(json \<Rightarrow> string) \<Rightarrow> registrar \<Rightarrow> attempt \<Rightarrow> registrar \<times> registrar_action list" where
  "registrar_attempt writeJson r a =
     (let tls = 3 \<le> length (rg_registrarAddress r) \<and> take 3 (rg_registrarAddress r) = ''wss'';
          (r1, acts) =
            (if at_created a then
               (case at_opened a of
                  None \<Rightarrow> (r\<lparr>rg_secure := tls\<rparr>, [])
                | Some hdl \<Rightarrow> connectionOpen writeJson (r\<lparr>rg_secure := tls\<rparr>) hdl)
             else (r, []))
      in (if at_finished a then r1\<lparr>rg_finished := True\<rparr> else r1, Connecting tls # acts))"

definition next_wait :: "nat \<Rightarrow> nat" where
  "next_wait w = (if w < MAX_WAIT_TIME div 2 then w * 2 else MAX_WAIT_TIME)"

fun registrar_loop ::
  "(json \<Rightarrow> string) \<Rightarrow> registrar \<Rightarrow> attempt list \<Rightarrow> registrar \<times> registrar_action list" where
  "registrar_loop writeJson r [] = (r, [])"
| "registrar_loop writeJson r (a # as) =
     (if rg_finished r then (r, [])
      else
        let (r1, acts) = registrar_attempt writeJson r a
        in if rg_finished r1 then (r1, acts)
           else
             let (r2, acts2) =
               registrar_loop writeJson (r1\<lparr>rg_waitTime := next_wait (rg_waitTime r1)\<rparr>) as
             in (r2, acts @ Waiting (rg_waitTime r1) # acts2))"

definition connectRegistrar ::
  "(json \<Rightarrow> string) \<Rightarrow> registrar \<Rightarrow> attempt list \<Rightarrow> registrar \<times> registrar_action list" where
  "connectRegistrar writeJson r as =
     (if rg_registrarAddress r = [] then (r, []) else registrar_loop writeJson r as)"

section \<open>Lemmas\<close>

text \<open>The \<open>k\<close>-th wait since a connection was open, in closed form.\<close>

definition backoff :: "nat \<Rightarrow> nat" where
  "backoff k = (if k \<le> 6 then 100 * 2 ^ k else 10000)"

lemma less7_cases: "(k::nat) \<le> 6 \<Longrightarrow> k \<in> {0, 1, 2, 3, 4, 5, 6}"
  by auto

lemma next_wait_backoff: "next_wait (backoff k) = backoff (Suc k)"
proof (cases "k \<le> 6")
  case True
  then show ?thesis
    using less7_cases [OF True] by (auto simp: next_wait_def backoff_def MAX_WAIT_TIME_def)
qed (simp add: next_wait_def backoff_def MAX_WAIT_TIME_def)

lemma backoff_bounds: "100 \<le> backoff k \<and> backoff k \<le> 10000"
proof (cases "k \<le> 6")
  case True
  then show ?thesis using less7_cases [OF True] by (auto simp: backoff_def)
qed (simp add: backoff_def)

text \<open>The waits a list of attempts leads to, counting the failures since the last open one.\<close>

fun waits_after :: "nat \<Rightarrow> attempt list \<Rightarrow> nat list" where
  "waits_after k [] = []"
| "waits_after k (a # as) =
     (if at_finished a then []
      else
        let k1 = (if at_created a \<and> at_opened a \<noteq> None then 0 else k)
        in backoff k1 # waits_after (Suc k1) as)"

definition waits :: "registrar_action list \<Rightarrow> nat list" where
  "waits acts = concat (map (\<lambda>a. case a of Waiting w \<Rightarrow> [w] | _ \<Rightarrow> []) acts)"

lemma waits_simps [simp]:
  "waits [] = []" "waits (Waiting w # acts) = w # waits acts"
  "waits (Connecting b # acts) = waits acts" "waits (Registering h m # acts) = waits acts"
  "waits (acts @ acts') = waits acts @ waits acts'"
  by (simp_all add: waits_def)

lemma waits_attempt: "waits (snd (registrar_attempt writeJson r a)) = []"
  by (auto simp: registrar_attempt_def connectionOpen_def Let_def split: option.split)

lemma registrar_attempt_wait:
  assumes "rg_waitTime r = backoff k"
  shows "rg_waitTime (fst (registrar_attempt writeJson r a)) =
    backoff (if at_created a \<and> at_opened a \<noteq> None then 0 else k)"
  using assms
  by (auto simp: registrar_attempt_def connectionOpen_def Let_def DEFAULT_WAIT_TIME_def backoff_def
      split: option.split)

lemma registrar_attempt_finished:
  "rg_finished (fst (registrar_attempt writeJson r a)) \<longleftrightarrow> rg_finished r \<or> at_finished a"
  by (auto simp: registrar_attempt_def connectionOpen_def Let_def split: option.split)

lemma waits_loop:
  "\<not> rg_finished r \<Longrightarrow> rg_waitTime r = backoff k \<Longrightarrow>
   waits (snd (registrar_loop writeJson r as)) = waits_after k as"
proof (induction as arbitrary: r k)
  case (Cons a as)
  obtain r1 acts where a: "registrar_attempt writeJson r a = (r1, acts)" by (cases "registrar_attempt writeJson r a")
  have "waits acts = []" using waits_attempt [of writeJson r a] a by simp
  moreover have "rg_waitTime r1 = backoff (if at_created a \<and> at_opened a \<noteq> None then 0 else k)"
    using registrar_attempt_wait [OF Cons.prems(2), of writeJson a] a by simp
  moreover have "rg_finished r1 \<longleftrightarrow> at_finished a"
    using registrar_attempt_finished [of writeJson r a] a Cons.prems(1) by simp
  ultimately show ?case
    using Cons.prems(1)
      Cons.IH [of "r1\<lparr>rg_waitTime := next_wait (rg_waitTime r1)\<rparr>" "Suc (if at_created a \<and> at_opened a \<noteq> None then 0 else k)"]
    by (auto simp: a next_wait_backoff Let_def split: prod.split)
qed simp

lemma waits_after_bounds: "w \<in> set (waits_after k as) \<Longrightarrow> 100 \<le> w \<and> w \<le> 10000"
  by (induction as arbitrary: k) (auto simp: Let_def backoff_bounds split: if_splits)

section \<open>Properties\<close>

text \<open>
  C35. The waits between attempts are the capped doubling of the constants: the \<open>k\<close>-th wait after
  a connection was open (or after the start) is \<open>100 * 2^k\<close> milliseconds up to 6400 and ten
  seconds from then on; an open connection starts them afresh, a request to finish ends them.
  So no wait is shorter than 100 milliseconds or longer than ten seconds.
\<close>

theorem registrar_backs_off:
  assumes "rg_registrarAddress r \<noteq> []" and "rg_localAddress r \<noteq> []"
  shows "waits (snd (connectRegistrar writeJson (registrar_start r) as)) = waits_after 0 as \<and>
    (\<forall>w \<in> set (waits_after 0 as). DEFAULT_WAIT_TIME \<le> w \<and> w \<le> MAX_WAIT_TIME)"
  using assms waits_loop [of "registrar_start r" 0 writeJson as] waits_after_bounds [of _ 0 as]
  by (auto simp: connectRegistrar_def registrar_start_def backoff_def DEFAULT_WAIT_TIME_def MAX_WAIT_TIME_def)

theorem registrar_backs_off_witness:
  "waits (snd (connectRegistrar (\<lambda>_. ''json'') (registrar_start (registrar_init ''ws://r'' ''me'' 8888 0 ''kurento''))
      [\<lparr>at_created = False, at_opened = None, at_finished = False\<rparr>,
       \<lparr>at_created = True, at_opened = None, at_finished = False\<rparr>,
       \<lparr>at_created = True, at_opened = Some 1, at_finished = False\<rparr>])) = [100, 200, 100]"
  using registrar_backs_off [of "registrar_init ''ws://r'' ''me'' 8888 0 ''kurento''" "\<lambda>_. ''json''"
      "[\<lparr>at_created = False, at_opened = None, at_finished = False\<rparr>,
        \<lparr>at_created = True, at_opened = None, at_finished = False\<rparr>,
        \<lparr>at_created = True, at_opened = Some 1, at_finished = False\<rparr>]"]
  by (simp add: registrar_init_def backoff_def Let_def)

text \<open>
  A registrar that was never started, and one that was stopped and is stopped again, throws
  when it joins its thread; the destructor does so in the first case.
\<close>

theorem registrar_stop_needs_start:
  assumes "rg_registrarAddress r \<noteq> []" and "rg_localAddress r \<noteq> []"
    and "\<not> rg_joinable r" and "\<not> rg_finished r"
  shows "fst (registrar_destroy r) = Inl (OtherException ''std::system_error'') \<and>
    fst (registrar_stop (registrar_start r)) = Inr () \<and>
    fst (registrar_stop (snd (registrar_stop (registrar_start r)))) = Inl (OtherException ''std::system_error'') \<and>
    fst (registrar_destroy (snd (registrar_stop (registrar_start r)))) = Inr ()"
  using assms by (simp add: registrar_destroy_def registrar_stop_def registrar_start_def)

theorem registrar_stop_needs_start_witness:
  "fst (registrar_destroy (registrar_init ''ws://r'' ''me'' 8888 0 ''kurento'')) =
      Inl (OtherException ''std::system_error'') \<and>
    fst (registrar_stop (registrar_start (registrar_init ''ws://r'' ''me'' 8888 0 ''kurento''))) = Inr () \<and>
    fst (registrar_stop (snd (registrar_stop (registrar_start (registrar_init ''ws://r'' ''me'' 8888 0 ''kurento''))))) =
      Inl (OtherException ''std::system_error'') \<and>
    fst (registrar_destroy (snd (registrar_stop (registrar_start (registrar_init ''ws://r'' ''me'' 8888 0 ''kurento''))))) =
      Inr ()"
  by (rule registrar_stop_needs_start) (simp_all add: registrar_init_def)

end
