(* ===== verification/Cache_Interface.thy ===== *)
theory Cache_Interface
  imports Json_Model
begin

text \<open>
  What the RPC layer relies on of a response cache: a lookup by session and request id that
  fails with a \<open>CacheException\<close> only, and an insertion that changes no other key.
\<close>

locale response_cache =
  fixes get :: "'c \<Rightarrow> string \<Rightarrow> string \<Rightarrow> exn + json"
    and add :: "'c \<Rightarrow> string \<Rightarrow> string \<Rightarrow> json \<Rightarrow> 'c"
    and ok :: "'c \<Rightarrow> bool"
  assumes get_add: "ok c \<Longrightarrow> get (add c s r v) s r = Inr v"
    and get_add_other:
      "ok c \<Longrightarrow> (s', r') \<noteq> (s, r) \<Longrightarrow> get (add c s r v) s' r' = Inr w \<longleftrightarrow> get c s' r' = Inr w"
    and ok_add: "ok c \<Longrightarrow> ok (add c s r v)"
    and get_error: "ok c \<Longrightarrow> get c s r = Inl e \<Longrightarrow> \<exists>m. e = CacheException m"
begin

lemma hit_or_miss:
  assumes "ok c"
  obtains (hit) v where "get c s r = Inr v" | (miss) m where "get c s r = Inl (CacheException m)"
  using get_error [OF assms] by (cases "get c s r") blast+

lemma add_keeps_hit:
  "ok c \<Longrightarrow> get c s r = Inr v \<Longrightarrow> (s', r') \<noteq> (s, r) \<Longrightarrow> get (add c s' r' w) s r = Inr v"
  using get_add_other [of c s r s' r' w v] by auto

lemma add_keeps_miss:
  assumes "ok c" and "get c s r = Inl e" and "(s', r') \<noteq> (s, r)"
  shows "\<exists>m. get (add c s' r' w) s r = Inl (CacheException m)"
proof (cases "get (add c s' r' w) s r")
  case (Inl e')
  then show ?thesis using get_error [OF ok_add [OF assms(1)]] by blast
next
  case (Inr v)
  then show ?thesis using get_add_other [of c s r s' r' w v] assms by auto
qed

text \<open>A run of insertions answers with the last one for a key, or as before.\<close>

lemma ok_add_all: "ok c \<Longrightarrow> ok (foldl (\<lambda>c (s, r, v). add c s r v) c xs)"
  by (induction xs arbitrary: c) (auto simp: ok_add)

lemma get_add_all:
  assumes "ok c"
  shows "get (foldl (\<lambda>c (s, r, v). add c s r v) c xs) s r = Inr w \<longleftrightarrow>
    (case map_of (map (\<lambda>(s, r, v). ((s, r), v)) (rev xs)) (s, r) of
       Some v \<Rightarrow> w = v
     | None \<Rightarrow> get c s r = Inr w)"
proof (induction xs rule: rev_induct)
  case (snoc x xs)
  obtain s' r' v where x: "x = (s', r', v)" by (cases x) auto
  note ok = ok_add_all [OF assms, of xs]
  show ?case
  proof (cases "(s', r') = (s, r)")
    case True
    then show ?thesis using get_add [OF ok] by (auto simp: x)
  next
    case False
    then show ?thesis using get_add_other [OF ok, of s r s' r' v w] snoc by (auto simp: x)
  qed
qed (simp add: assms)

end

end
