(* ===== verification/Request_Cache.thy ===== *)
theory Request_Cache
  imports Cache_Interface
begin

text \<open>
  \<open>server/RequestCache.cpp\<close> and \<open>server/CacheEntry.cpp\<close>: responses kept by session and
  request id, each in an entry of its own that a one-shot timer removes. The entries are
  objects on the heap (an address each, never reused), because the destructor of an entry and
  its timer refer to it; the timers and the clock belong to the GLib main loop, whose part in
  the model is that a timer does not fire before its deadline. A timer's callback has two
  halves, since the entry's lock is released between setting \<open>timedout\<close> and emitting the
  signal: \<open>timer_fired\<close> and \<open>timeout_emit\<close>.
\<close>

section \<open>State\<close>

record cache_entry =
  ce_session :: string
  ce_request :: string
  ce_response :: json
  ce_timedout :: bool
  ce_deadline :: nat

record request_cache =
  rc_timeout :: nat
  rc_cache :: "(string \<times> (string \<times> nat) list) list"
  rc_heap :: "nat \<Rightarrow> cache_entry option"
  rc_fresh :: nat
  rc_sources :: "(nat \<times> nat) list" \<comment> \<open>attached timers: entry and deadline\<close>
  rc_firing :: "(nat \<times> string \<times> string) list" \<comment> \<open>callbacks between their two halves\<close>
  rc_now :: nat

definition request_cache_init :: "nat \<Rightarrow> request_cache" where
  "request_cache_init timeout =
     \<lparr>rc_timeout = timeout, rc_cache = [], rc_heap = (\<lambda>_. None), rc_fresh = 0,
      rc_sources = [], rc_firing = [], rc_now = 0\<rparr>"

definition cache_ref :: "request_cache \<Rightarrow> string \<Rightarrow> string \<Rightarrow> nat option" where
  "cache_ref c sid rid = (case map_of (rc_cache c) sid of None \<Rightarrow> None | Some m \<Rightarrow> map_of m rid)"

section \<open>Operations\<close>

text \<open>The constructor of an entry attaches its timer to the main loop.\<close>

definition new_entry :: "request_cache \<Rightarrow> string \<Rightarrow> string \<Rightarrow> json \<Rightarrow> request_cache" where
  "new_entry c sid rid response =
     c\<lparr>rc_heap := (rc_heap c)(rc_fresh c \<mapsto>
          \<lparr>ce_session = sid, ce_request = rid, ce_response = response, ce_timedout = False,
           ce_deadline = rc_now c + rc_timeout c\<rparr>),
       rc_sources := (rc_fresh c, rc_now c + rc_timeout c) # rc_sources c,
       rc_fresh := Suc (rc_fresh c)\<rparr>"

text \<open>The destructor detaches the timer unless it has fired.\<close>

definition destroy_entry :: "request_cache \<Rightarrow> nat \<Rightarrow> request_cache" where
  "destroy_entry c a =
     (case rc_heap c a of
        None \<Rightarrow> c
      | Some e \<Rightarrow>
          c\<lparr>rc_heap := (rc_heap c)(a := None),
            rc_sources := (if \<not> ce_timedout e then AList.delete a (rc_sources c)
                           else rc_sources c)\<rparr>)"

definition inner_map :: "request_cache \<Rightarrow> string \<Rightarrow> (string \<times> nat) list" where
  "inner_map c sid = (case map_of (rc_cache c) sid of None \<Rightarrow> [] | Some m \<Rightarrow> m)"

text \<open>Assigning the new entry releases the one it replaces.\<close>

definition addResponse :: "request_cache \<Rightarrow> string \<Rightarrow> string \<Rightarrow> json \<Rightarrow> request_cache" where
  "addResponse c sid rid response =
     (let entry = rc_fresh c;
          c1 = new_entry c sid rid response;
          old = cache_ref c sid rid;
          c2 = c1\<lparr>rc_cache := AList.update sid (AList.update rid entry (inner_map c sid))
                                (rc_cache c1)\<rparr>
      in case old of None \<Rightarrow> c2 | Some b \<Rightarrow> destroy_entry c2 b)"

definition getCachedResponse :: "request_cache \<Rightarrow> string \<Rightarrow> string \<Rightarrow> exn + json" where
  "getCachedResponse c sid rid =
     (case map_of (rc_cache c) sid of
        None \<Rightarrow> Inl (CacheException ''Session not cached'')
      | Some requestCache \<Rightarrow>
          (case map_of requestCache rid of
             None \<Rightarrow> Inl (CacheException ''Request not cached'')
           | Some a \<Rightarrow>
               (case rc_heap c a of
                  None \<Rightarrow> Inl NullPointer
                | Some e \<Rightarrow> Inr (ce_response e))))"

text \<open>First half of the timer's callback. A timer whose entry is gone would be a fault.\<close>

definition timer_fired :: "request_cache \<Rightarrow> nat \<Rightarrow> exn + request_cache" where
  "timer_fired c a =
     (case rc_heap c a of
        None \<Rightarrow> Inl NullPointer
      | Some e \<Rightarrow>
          Inr (c\<lparr>rc_heap := (rc_heap c)(a \<mapsto> e\<lparr>ce_timedout := True\<rparr>),
                 rc_sources := AList.delete a (rc_sources c),
                 rc_firing := (a, ce_session e, ce_request e) # rc_firing c\<rparr>))"

text \<open>The slot \<open>addResponse\<close> connects to the signal.\<close>

definition erase_response :: "request_cache \<Rightarrow> string \<Rightarrow> string \<Rightarrow> request_cache" where
  "erase_response c sid rid =
     (case map_of (rc_cache c) sid of
        None \<Rightarrow> c
      | Some requestCache \<Rightarrow>
          (case map_of requestCache rid of
             None \<Rightarrow> c
           | Some b \<Rightarrow>
               (let m = AList.delete rid requestCache;
                    c1 = destroy_entry c b
                in if m = [] then c1\<lparr>rc_cache := AList.delete sid (rc_cache c1)\<rparr>
                   else c1\<lparr>rc_cache := AList.update sid m (rc_cache c1)\<rparr>)))"

text \<open>Second half: the entry emits its signal. It must still exist to do so.\<close>

definition timeout_emit :: "request_cache \<Rightarrow> nat \<times> string \<times> string \<Rightarrow> exn + request_cache" where
  "timeout_emit c f =
     (case f of (a, sid, rid) \<Rightarrow>
        (let c1 = c\<lparr>rc_firing := removeAll f (rc_firing c)\<rparr>
         in case rc_heap c a of
              None \<Rightarrow> Inl NullPointer
            | Some _ \<Rightarrow> Inr (erase_response c1 sid rid)))"

section \<open>Interleavings\<close>

text \<open>
  What the threads and the main loop can do, in any order. With \<open>guarded\<close> set, a response is
  added only where none is cached.
\<close>

inductive cache_step :: "bool \<Rightarrow> request_cache \<Rightarrow> request_cache \<Rightarrow> bool" for guarded where
  add: "guarded \<longrightarrow> cache_ref c sid rid = None \<Longrightarrow>
    cache_step guarded c (addResponse c sid rid v)"
| tick: "cache_step guarded c (c\<lparr>rc_now := rc_now c + d\<rparr>)"
| fire: "(a, d) \<in> set (rc_sources c) \<Longrightarrow> d \<le> rc_now c \<Longrightarrow> timer_fired c a = Inr c' \<Longrightarrow>
    cache_step guarded c c'"
| emit: "f \<in> set (rc_firing c) \<Longrightarrow> timeout_emit c f = Inr c' \<Longrightarrow> cache_step guarded c c'"

inductive cache_steps :: "bool \<Rightarrow> request_cache \<Rightarrow> request_cache \<Rightarrow> bool" for guarded where
  refl: "cache_steps guarded c c"
| step: "cache_steps guarded c c' \<Longrightarrow> cache_step guarded c' c'' \<Longrightarrow> cache_steps guarded c c''"

text \<open>
  The lookup of a thread and its adding may also be torn apart by the other threads: under the keys in
  \<open>torn\<close> a response is then added whatever has become of the lookup.
\<close>

inductive torn_step :: "(string \<times> string) set \<Rightarrow> request_cache \<Rightarrow> request_cache \<Rightarrow> bool" for torn where
  whole: "cache_step True c c' \<Longrightarrow> torn_step torn c c'"
| torn: "(sid, rid) \<in> torn \<Longrightarrow> torn_step torn c (addResponse c sid rid v)"

abbreviation torn_steps :: "(string \<times> string) set \<Rightarrow> request_cache \<Rightarrow> request_cache \<Rightarrow> bool" where
  "torn_steps torn \<equiv> (torn_step torn)\<^sup>*\<^sup>*"

text \<open>A step of the main loop that would touch a destroyed entry.\<close>

definition cache_fault :: "request_cache \<Rightarrow> bool" where
  "cache_fault c \<longleftrightarrow>
     (\<exists>(a, d) \<in> set (rc_sources c). d \<le> rc_now c \<and> timer_fired c a = Inl NullPointer) \<or>
     (\<exists>f \<in> set (rc_firing c). timeout_emit c f = Inl NullPointer)"

section \<open>What the operations do to the parts of the state\<close>

named_theorems cache_simps "projections of the request cache's operations"

lemma destroy_entry_simps [cache_simps]:
  "rc_timeout (destroy_entry c b) = rc_timeout c"
  "rc_cache (destroy_entry c b) = rc_cache c"
  "rc_heap (destroy_entry c b) = (rc_heap c)(b := None)"
  "rc_fresh (destroy_entry c b) = rc_fresh c"
  "rc_firing (destroy_entry c b) = rc_firing c"
  "rc_now (destroy_entry c b) = rc_now c"
  by (auto simp: destroy_entry_def split: option.splits)

lemma new_entry_simps [cache_simps]:
  "rc_timeout (new_entry c s r v) = rc_timeout c"
  "rc_cache (new_entry c s r v) = rc_cache c"
  "rc_heap (new_entry c s r v) = (rc_heap c)(rc_fresh c \<mapsto>
     \<lparr>ce_session = s, ce_request = r, ce_response = v, ce_timedout = False,
      ce_deadline = rc_now c + rc_timeout c\<rparr>)"
  "rc_fresh (new_entry c s r v) = Suc (rc_fresh c)"
  "rc_firing (new_entry c s r v) = rc_firing c"
  "rc_now (new_entry c s r v) = rc_now c"
  by (auto simp: new_entry_def)

lemma addResponse_simps [cache_simps]:
  "rc_timeout (addResponse c s r v) = rc_timeout c"
  "rc_cache (addResponse c s r v) =
     AList.update s (AList.update r (rc_fresh c) (inner_map c s)) (rc_cache c)"
  "rc_fresh (addResponse c s r v) = Suc (rc_fresh c)"
  "rc_firing (addResponse c s r v) = rc_firing c"
  "rc_now (addResponse c s r v) = rc_now c"
  by (auto simp: addResponse_def Let_def cache_simps split: option.splits)

lemma cache_ref_update [simp]:
  "cache_ref (c\<lparr>rc_firing := fs\<rparr>) s r = cache_ref c s r"
  "cache_ref (c\<lparr>rc_now := n\<rparr>) s r = cache_ref c s r"
  by (simp_all add: cache_ref_def)

lemma cache_ref_inner: "cache_ref c s r = map_of (inner_map c s) r"
  by (simp add: cache_ref_def inner_map_def split: option.splits)

lemma cache_ref_add [cache_simps]:
  "cache_ref (addResponse c s r v) s' r' =
     (if s' = s \<and> r' = r then Some (rc_fresh c) else cache_ref c s' r')"
  by (simp add: cache_ref_def cache_simps inner_map_def split: option.splits)

lemma erase_response_simps [cache_simps]:
  "rc_timeout (erase_response c s r) = rc_timeout c"
  "rc_fresh (erase_response c s r) = rc_fresh c"
  "rc_firing (erase_response c s r) = rc_firing c"
  "rc_now (erase_response c s r) = rc_now c"
  "rc_heap (erase_response c s r) a =
     (if cache_ref c s r = Some a then None else rc_heap c a)"
  by (auto simp: erase_response_def cache_ref_def Let_def cache_simps split: option.splits)

lemma cache_ref_erase [cache_simps]:
  "cache_ref (erase_response c s r) s' r' =
     (if s' = s \<and> r' = r then None else cache_ref c s' r')"
proof (cases "map_of (rc_cache c) s")
  case None
  then show ?thesis by (auto simp: erase_response_def cache_ref_def)
next
  case (Some m)
  then show ?thesis
    by (cases "AList.delete r m = []")
      (auto simp: erase_response_def cache_ref_def Let_def cache_simps delete_Nil_lookup
        split: option.splits dest: delete_Nil_lookup_Some)
qed

section \<open>Invariant\<close>

text \<open>
  The two-level map holds no empty inner map; references and entries agree, so an entry is
  reachable under its own ids only and none leaks; the attached timers are exactly those of
  the entries that have not timed out; an entry that has timed out has reached its deadline
  and its callback is in progress; a callback in progress has its entry's ids.
\<close>

definition entry_ids :: "request_cache \<Rightarrow> nat \<Rightarrow> (string \<times> string) option" where
  "entry_ids c a = map_option (\<lambda>e. (ce_session e, ce_request e)) (rc_heap c a)"

definition entry_deadline :: "request_cache \<Rightarrow> nat \<Rightarrow> nat option" where
  "entry_deadline c a =
     (case rc_heap c a of None \<Rightarrow> None | Some e \<Rightarrow> if ce_timedout e then None else Some (ce_deadline e))"

definition cache_shape :: "request_cache \<Rightarrow> bool" where
  "cache_shape c \<longleftrightarrow> wf_map (rc_cache c) \<and> (\<forall>(s, m) \<in> set (rc_cache c). m \<noteq> [])"

definition cache_linked :: "request_cache \<Rightarrow> bool" where
  "cache_linked c \<longleftrightarrow>
     (\<forall>s r a. cache_ref c s r = Some a \<longleftrightarrow> entry_ids c a = Some (s, r)) \<and>
     (\<forall>a \<ge> rc_fresh c. rc_heap c a = None)"

definition cache_timers :: "request_cache \<Rightarrow> bool" where
  "cache_timers c \<longleftrightarrow>
     wf_map (rc_sources c) \<and> (\<forall>a. map_of (rc_sources c) a = entry_deadline c a)"

definition cache_due :: "request_cache \<Rightarrow> bool" where
  "cache_due c \<longleftrightarrow>
     (\<forall>a e. rc_heap c a = Some e \<longrightarrow>
        ce_deadline e \<le> rc_now c + rc_timeout c \<and>
        (ce_timedout e \<longrightarrow>
           ce_deadline e \<le> rc_now c \<and> (a, ce_session e, ce_request e) \<in> set (rc_firing c)))"

definition cache_firing :: "request_cache \<Rightarrow> bool" where
  "cache_firing c \<longleftrightarrow>
     (\<forall>(a, s, r) \<in> set (rc_firing c). a < rc_fresh c \<and>
        (\<forall>e. rc_heap c a = Some e \<longrightarrow> ce_timedout e \<and> ce_session e = s \<and> ce_request e = r))"

definition cache_inv :: "request_cache \<Rightarrow> bool" where
  "cache_inv c \<longleftrightarrow>
     cache_shape c \<and> cache_linked c \<and> cache_timers c \<and> cache_due c \<and> cache_firing c"

text \<open>With guarded insertions no callback in progress has lost its entry, except under torn keys.\<close>

definition cache_live :: "(string \<times> string) set \<Rightarrow> request_cache \<Rightarrow> bool" where
  "cache_live torn c \<longleftrightarrow> (\<forall>(a, s, r) \<in> set (rc_firing c). (s, r) \<notin> torn \<longrightarrow> rc_heap c a \<noteq> None)"

lemma cache_invD:
  assumes "cache_inv c"
  shows "cache_shape c" "cache_linked c" "cache_timers c" "cache_due c" "cache_firing c"
  using assms by (simp_all add: cache_inv_def)

lemma cache_firingD:
  assumes "cache_firing c" and "(a, s, r) \<in> set (rc_firing c)"
  shows "a < rc_fresh c"
    and "rc_heap c a = Some e \<Longrightarrow> ce_timedout e \<and> ce_session e = s \<and> ce_request e = r"
  using assms unfolding cache_firing_def by auto

lemma cache_firingI:
  assumes "\<And>a s r. (a, s, r) \<in> set (rc_firing c) \<Longrightarrow> a < rc_fresh c"
    and "\<And>a s r e. (a, s, r) \<in> set (rc_firing c) \<Longrightarrow> rc_heap c a = Some e \<Longrightarrow>
      ce_timedout e \<and> ce_session e = s \<and> ce_request e = r"
  shows "cache_firing c"
  using assms unfolding cache_firing_def by blast

lemma cache_ref_iff: "cache_linked c \<Longrightarrow> cache_ref c s r = Some a \<longleftrightarrow> entry_ids c a = Some (s, r)"
  by (simp add: cache_linked_def)

lemma cache_linked_fresh: "cache_linked c \<Longrightarrow> rc_fresh c \<le> a \<Longrightarrow> rc_heap c a = None"
  by (simp add: cache_linked_def)

lemma cache_ref_heap:
  "cache_linked c \<Longrightarrow> cache_ref c s r = Some a \<Longrightarrow>
   \<exists>e. rc_heap c a = Some e \<and> ce_session e = s \<and> ce_request e = r"
  by (auto simp: cache_ref_iff entry_ids_def)

lemma heap_cache_ref:
  "cache_linked c \<Longrightarrow> rc_heap c a = Some e \<Longrightarrow> cache_ref c (ce_session e) (ce_request e) = Some a"
  by (simp add: cache_ref_iff entry_ids_def)

lemma heap_fresh: "cache_linked c \<Longrightarrow> rc_heap c a = Some e \<Longrightarrow> a < rc_fresh c"
  by (metis cache_linked_fresh leI option.distinct(1))

lemma cache_ref_fresh: "cache_linked c \<Longrightarrow> cache_ref c s r = Some a \<Longrightarrow> a < rc_fresh c"
  by (metis cache_ref_heap heap_fresh)

lemma rc_heap_add [cache_simps]:
  assumes "cache_linked c"
  shows "rc_heap (addResponse c s r v) a =
    (if a = rc_fresh c then
       Some \<lparr>ce_session = s, ce_request = r, ce_response = v, ce_timedout = False,
             ce_deadline = rc_now c + rc_timeout c\<rparr>
     else if cache_ref c s r = Some a then None else rc_heap c a)"
  using cache_ref_fresh [OF assms, of s r]
  by (auto simp: addResponse_def Let_def cache_simps split: option.splits)

text \<open>The observable content of the cache.\<close>

lemma getCachedResponse_ref:
  assumes "cache_linked c"
  shows "getCachedResponse c s r = Inr v \<longleftrightarrow>
    (\<exists>a e. cache_ref c s r = Some a \<and> rc_heap c a = Some e \<and> ce_response e = v)"
  using cache_ref_heap [OF assms, of s r]
  by (auto simp: getCachedResponse_def cache_ref_def split: option.splits)

lemma getCachedResponse_error:
  assumes "cache_linked c"
  shows "getCachedResponse c s r = Inl e \<Longrightarrow>
    cache_ref c s r = None \<and>
    (e = CacheException ''Session not cached'' \<or> e = CacheException ''Request not cached'')"
  using cache_ref_heap [OF assms, of s r]
  by (auto simp: getCachedResponse_def cache_ref_def split: option.splits)

section \<open>Every operation keeps the invariant\<close>

lemma entry_deadline_Some:
  "entry_deadline c a = Some d \<longleftrightarrow>
     (\<exists>e. rc_heap c a = Some e \<and> \<not> ce_timedout e \<and> ce_deadline e = d)"
  by (auto simp: entry_deadline_def split: option.splits)

lemma entry_deadline_cong: "rc_heap c a = rc_heap c' a \<Longrightarrow> entry_deadline c a = entry_deadline c' a"
  by (simp add: entry_deadline_def)

lemma entry_ids_cong: "rc_heap c a = rc_heap c' a \<Longrightarrow> entry_ids c a = entry_ids c' a"
  by (simp add: entry_ids_def)

lemma destroy_timers:
  assumes "wf_map (rc_sources c)" and "\<forall>a. map_of (rc_sources c) a = entry_deadline c a"
  shows "wf_map (rc_sources (destroy_entry c b)) \<and>
    (\<forall>a. map_of (rc_sources (destroy_entry c b)) a =
      (if a = b then None else entry_deadline c a))"
  using assms by (auto simp: destroy_entry_def entry_deadline_def split: option.splits)

lemma new_entry_timers:
  assumes "cache_linked c" and "cache_timers c"
  shows "wf_map (rc_sources (new_entry c s r v)) \<and>
    (\<forall>a. map_of (rc_sources (new_entry c s r v)) a = entry_deadline (new_entry c s r v) a)"
proof -
  have "map_of (rc_sources c) (rc_fresh c) = None"
    using assms cache_linked_fresh [of c "rc_fresh c"]
    by (simp add: cache_timers_def entry_deadline_def)
  then show ?thesis
    using assms(2)
    by (auto simp: new_entry_def cache_timers_def wf_map_def map_of_eq_None_iff entry_deadline_def)
qed

lemma cache_timers_add:
  assumes li: "cache_linked c" and ti: "cache_timers c"
  shows "cache_timers (addResponse c s r v)"
proof (cases "cache_ref c s r")
  case None
  then show ?thesis
    using new_entry_timers [OF assms, of s r v]
    by (simp add: addResponse_def Let_def cache_timers_def entry_deadline_def)
next
  case (Some b)
  let ?c = "(new_entry c s r v)\<lparr>rc_cache := AList.update s
    (AList.update r (rc_fresh c) (inner_map c s)) (rc_cache (new_entry c s r v))\<rparr>"
  have "wf_map (rc_sources (destroy_entry ?c b)) \<and>
    (\<forall>a. map_of (rc_sources (destroy_entry ?c b)) a = (if a = b then None else entry_deadline ?c a))"
    by (rule destroy_timers) (use new_entry_timers [OF assms, of s r v] in \<open>simp_all add: entry_deadline_def\<close>)
  moreover have "addResponse c s r v = destroy_entry ?c b"
    by (simp add: addResponse_def Let_def Some)
  ultimately show ?thesis
    by (simp add: cache_timers_def entry_deadline_def cache_simps)
qed

lemma cache_inv_add:
  assumes "cache_inv c"
  shows "cache_inv (addResponse c s r v)"
proof -
  note inv = cache_invD [OF assms]
  note li = inv(2)
  have 1: "cache_shape (addResponse c s r v)"
    using inv(1) alist_update_not_Nil [THEN not_sym]
    by (fastforce simp: cache_shape_def cache_simps dest!: set_alist_update [THEN subsetD])
  have ids: "entry_ids (addResponse c s r v) a =
      (if a = rc_fresh c then Some (s, r)
       else if cache_ref c s r = Some a then None else entry_ids c a)" for a
    by (simp add: entry_ids_def cache_simps li)
  have 2: "cache_linked (addResponse c s r v)"
    unfolding cache_linked_def ids
    using cache_ref_fresh [OF li] cache_linked_fresh [OF li]
    by (auto simp: cache_simps li cache_ref_iff [OF li] split: if_splits)
  have 4: "cache_due (addResponse c s r v)"
    using inv(4) unfolding cache_due_def by (auto simp: cache_simps li split: if_splits)
  have 5: "cache_firing (addResponse c s r v)"
    by (rule cache_firingI) (auto simp: cache_simps li dest: cache_firingD [OF inv(5)] split: if_splits)
  from 1 2 4 5 cache_timers_add [OF li inv(3)] show ?thesis by (simp add: cache_inv_def)
qed

lemma timer_fired_InrE:
  assumes "timer_fired c a = Inr c'"
  obtains e where "rc_heap c a = Some e"
    and "c' = c\<lparr>rc_heap := (rc_heap c)(a \<mapsto> e\<lparr>ce_timedout := True\<rparr>),
                rc_sources := AList.delete a (rc_sources c),
                rc_firing := (a, ce_session e, ce_request e) # rc_firing c\<rparr>"
  using assms by (auto simp: timer_fired_def split: option.splits)

lemma timeout_emit_InrE:
  assumes "timeout_emit c f = Inr c'"
  obtains a s r e where "f = (a, s, r)" and "rc_heap c a = Some e"
    and "c' = erase_response (c\<lparr>rc_firing := removeAll f (rc_firing c)\<rparr>) s r"
  using assms by (auto simp: timeout_emit_def Let_def split: option.splits prod.splits)

lemma cache_inv_fire:
  assumes "cache_inv c" and "(a, d) \<in> set (rc_sources c)" and "d \<le> rc_now c"
    and "timer_fired c a = Inr c'"
  shows "cache_inv c'"
proof -
  from assms(4) obtain e where e: "rc_heap c a = Some e"
    and c': "c' = c\<lparr>rc_heap := (rc_heap c)(a \<mapsto> e\<lparr>ce_timedout := True\<rparr>),
                rc_sources := AList.delete a (rc_sources c),
                rc_firing := (a, ce_session e, ce_request e) # rc_firing c\<rparr>"
    by (rule timer_fired_InrE)
  note inv = cache_invD [OF assms(1)]
  have ids: "cache_ref c' s r = cache_ref c s r" "entry_ids c' b = entry_ids c b" for s r b
    using e by (simp_all add: c' cache_ref_def entry_ids_def)
  have "entry_deadline c a = Some d"
    using assms(2) inv(3) by (auto simp: cache_timers_def wf_map_lookup)
  with e have d: "ce_deadline e = d" by (simp add: entry_deadline_Some)
  have 1: "cache_shape c'" using inv(1) by (simp add: cache_shape_def c')
  have 2: "cache_linked c'"
    using inv(2) heap_fresh [OF inv(2) e] unfolding cache_linked_def ids by (simp add: c')
  have 3: "cache_timers c'"
    using inv(3) unfolding cache_timers_def by (auto simp: c' entry_deadline_def)
  have 4: "cache_due c'"
    using inv(4) e assms(3) d unfolding cache_due_def by (auto simp: c')
  have 5: "cache_firing c'"
    using heap_fresh [OF inv(2) e] e
    by (intro cache_firingI) (auto simp: c' dest: cache_firingD [OF inv(5)] split: if_splits)
  from 1 2 3 4 5 show ?thesis by (simp add: cache_inv_def)
qed

lemma cache_shape_erase:
  assumes "cache_shape c"
  shows "cache_shape (erase_response c s r)"
  using assms
  by (fastforce simp: cache_shape_def erase_response_def Let_def cache_simps split: option.splits
      dest!: set_alist_update [THEN subsetD] set_alist_delete [THEN subsetD])

lemma cache_timers_erase:
  assumes "cache_timers c" and "cache_ref c s r = Some a"
  shows "wf_map (rc_sources (erase_response c s r)) \<and>
    (\<forall>b. map_of (rc_sources (erase_response c s r)) b = (if b = a then None else entry_deadline c b))"
  using assms destroy_timers [of c a]
  by (auto simp: erase_response_def cache_ref_def cache_timers_def Let_def split: option.splits)

lemma cache_inv_emit:
  assumes "cache_inv c" and "f \<in> set (rc_firing c)" and "timeout_emit c f = Inr c'"
  shows "cache_inv c'"
proof -
  from assms(3) obtain a s r e where f: "f = (a, s, r)" and e: "rc_heap c a = Some e"
    and c': "c' = erase_response (c\<lparr>rc_firing := removeAll f (rc_firing c)\<rparr>) s r"
    by (rule timeout_emit_InrE)
  define c1 where "c1 = c\<lparr>rc_firing := removeAll f (rc_firing c)\<rparr>"
  have c1: "rc_cache c1 = rc_cache c" "rc_heap c1 = rc_heap c" "rc_fresh c1 = rc_fresh c"
    "rc_sources c1 = rc_sources c" "rc_now c1 = rc_now c" "rc_timeout c1 = rc_timeout c"
    "rc_firing c1 = removeAll f (rc_firing c)"
    by (simp_all add: c1_def)
  have same: "cache_ref c1 s r = cache_ref c s r" "entry_deadline c1 b = entry_deadline c b" for s r b
    by (simp_all add: cache_ref_def entry_deadline_def c1)
  have c': "c' = erase_response c1 s r" by (simp add: c' c1_def)
  note inv = cache_invD [OF assms(1)]
  note li = inv(2)
  from cache_firingD(2) [OF inv(5) assms(2) [unfolded f] e]
  have sr: "ce_timedout e" "ce_session e = s" "ce_request e = r" by simp_all
  with heap_cache_ref [OF li e] have a: "cache_ref c s r = Some a" by simp
  have heap: "rc_heap c' b = (if b = a then None else rc_heap c b)" for b
    by (auto simp: c' cache_simps same a c1)
  have 1: "cache_shape c'"
    unfolding c' by (rule cache_shape_erase) (use inv(1) in \<open>simp add: cache_shape_def c1\<close>)
  have ref: "cache_ref c' s' r' = (if s' = s \<and> r' = r then None else cache_ref c s' r')" for s' r'
    by (simp add: c' cache_simps same)
  have ids: "entry_ids c' b = (if b = a then None else entry_ids c b)" for b
    by (simp add: entry_ids_def heap)
  have only: "entry_ids c b = Some (s', r') \<Longrightarrow> b = a \<longleftrightarrow> s' = s \<and> r' = r" for b s' r'
    using a cache_ref_iff [OF li] by (metis option.inject prod.inject)
  have 2: "cache_linked c'"
    unfolding cache_linked_def ref ids
    using cache_linked_fresh [OF li] only
    by (auto simp: heap cache_ref_iff [OF li]) (auto simp: c' cache_simps c1)
  have 3: "cache_timers c'"
    using cache_timers_erase [of c1 s r a] inv(3) a
    unfolding cache_timers_def
    by (auto simp: c' same c1 cache_timers_def) (auto simp: entry_deadline_def cache_simps same c1)
  have 4: "cache_due c'"
    using inv(4) sr heap_cache_ref [OF li] a unfolding cache_due_def
    by (auto simp: heap f) (auto simp: c' cache_simps c1 f)
  have 5: "cache_firing c'"
    by (rule cache_firingI)
      (auto simp: heap c' cache_simps c1 f dest: cache_firingD [OF inv(5)] split: if_splits)
  from 1 2 3 4 5 show ?thesis by (simp add: cache_inv_def)
qed

lemma getCachedResponse_add:
  assumes "cache_inv c"
  shows "getCachedResponse (addResponse c s r v) s r = Inr v"
  using cache_invD(2) [OF assms] cache_invD(2) [OF cache_inv_add [OF assms, of s r v]]
  by (simp add: getCachedResponse_ref cache_simps)

lemma getCachedResponse_add_other:
  assumes "cache_inv c" and "(s', r') \<noteq> (s, r)"
  shows "getCachedResponse (addResponse c s r v) s' r' = Inr w \<longleftrightarrow> getCachedResponse c s' r' = Inr w"
proof -
  note li = cache_invD(2) [OF assms(1)]
  have "b \<noteq> rc_fresh c \<and> cache_ref c s r \<noteq> Some b" if "cache_ref c s' r' = Some b" for b
    using that cache_ref_fresh [OF li that] assms(2) cache_ref_iff [OF li, of s r b]
      cache_ref_iff [OF li, of s' r' b] by auto
  then show ?thesis
    using li cache_invD(2) [OF cache_inv_add [OF assms(1), of s r v]] assms(2)
    by (auto simp: getCachedResponse_ref cache_simps)
qed

interpretation rc: response_cache getCachedResponse addResponse cache_inv
proof unfold_locales
  fix c s r e
  assume "cache_inv c" "getCachedResponse c s r = Inl e"
  then show "\<exists>m. e = CacheException m"
    using getCachedResponse_error [OF cache_invD(2)] by blast
qed (simp_all add: getCachedResponse_add getCachedResponse_add_other cache_inv_add)

section \<open>Steps\<close>

lemma cache_inv_init: "cache_inv (request_cache_init t)"
  by (auto simp: cache_inv_def cache_shape_def cache_linked_def cache_timers_def cache_due_def
      cache_firing_def request_cache_init_def cache_ref_def entry_ids_def entry_deadline_def)

lemma cache_inv_tick:
  assumes "cache_inv c"
  shows "cache_inv (c\<lparr>rc_now := rc_now c + d\<rparr>)"
proof -
  note inv = cache_invD [OF assms]
  have "cache_due (c\<lparr>rc_now := rc_now c + d\<rparr>)"
    using inv(4) unfolding cache_due_def by (auto intro: trans_le_add2 simp: add.commute add.left_commute)
  moreover have "cache_shape (c\<lparr>rc_now := rc_now c + d\<rparr>)" "cache_linked (c\<lparr>rc_now := rc_now c + d\<rparr>)"
    "cache_timers (c\<lparr>rc_now := rc_now c + d\<rparr>)" "cache_firing (c\<lparr>rc_now := rc_now c + d\<rparr>)"
    using inv by (simp_all add: cache_shape_def cache_linked_def cache_timers_def cache_firing_def
        cache_ref_def entry_ids_def entry_deadline_def)
  ultimately show ?thesis by (simp add: cache_inv_def)
qed

lemma cache_step_inv: "cache_step g c c' \<Longrightarrow> cache_inv c \<Longrightarrow> cache_inv c'"
proof (induction rule: cache_step.induct)
  case (add c s r v)
  then show ?case by (simp add: cache_inv_add)
next
  case (tick c d)
  then show ?case by (rule cache_inv_tick)
next
  case (fire a d c c')
  then show ?case using cache_inv_fire by blast
next
  case (emit f c c')
  then show ?case using cache_inv_emit by blast
qed

lemma cache_steps_inv: "cache_steps g c c' \<Longrightarrow> cache_inv c \<Longrightarrow> cache_inv c'"
  by (induction rule: cache_steps.induct) (auto intro: cache_step_inv)

lemma torn_step_inv: "torn_step torn c c' \<Longrightarrow> cache_inv c \<Longrightarrow> cache_inv c'"
  by (induction rule: torn_step.induct) (auto intro: cache_step_inv cache_inv_add)

lemma torn_steps_inv: "torn_steps torn c c' \<Longrightarrow> cache_inv c \<Longrightarrow> cache_inv c'"
  by (induction rule: rtranclp_induct) (auto intro: torn_step_inv)

lemma cache_live_add:
  assumes "cache_inv c" and "cache_live torn c" and "cache_ref c s r = None \<or> (s, r) \<in> torn"
  shows "cache_live torn (addResponse c s r v)"
proof -
  note inv = cache_invD [OF assms(1)]
  have "rc_heap (addResponse c s r v) b \<noteq> None"
    if "(b, s', r') \<in> set (rc_firing c)" "(s', r') \<notin> torn" for b s' r'
  proof -
    have "rc_heap c b \<noteq> None" using that assms(2) unfolding cache_live_def by blast
    then obtain e where e: "rc_heap c b = Some e" by blast
    then have "cache_ref c s' r' = Some b"
      using cache_firingD(2) [OF inv(5) that(1) e] heap_cache_ref [OF inv(2) e] by simp
    then have "cache_ref c s r \<noteq> Some b"
      using cache_ref_iff [OF inv(2), of s r b] cache_ref_iff [OF inv(2), of s' r' b] assms(3) that(2) by auto
    then show ?thesis using e heap_fresh [OF inv(2) e] by (simp add: cache_simps inv(2))
  qed
  then show ?thesis by (auto simp: cache_live_def cache_simps)
qed

lemma cache_live_step: "cache_step True c c' \<Longrightarrow> cache_inv c \<Longrightarrow> cache_live torn c \<Longrightarrow> cache_live torn c'"
proof (induction rule: cache_step.induct)
  case (add c s r v)
  then show ?case by (intro cache_live_add) simp_all
next
  case (tick c d)
  then show ?case by (simp add: cache_live_def)
next
  case (fire a d c c')
  then show ?case by (auto simp: cache_live_def elim!: timer_fired_InrE)
next
  case (emit f c c')
  from emit.hyps(2) obtain a s r e where f: "f = (a, s, r)" and e: "rc_heap c a = Some e"
    and c': "c' = erase_response (c\<lparr>rc_firing := removeAll f (rc_firing c)\<rparr>) s r"
    by (rule timeout_emit_InrE)
  note fi = cache_invD(5) [OF emit.prems(1)]
  have "cache_ref c s r = Some a"
    using cache_firingD(2) [OF fi emit.hyps(1) [unfolded f] e]
      heap_cache_ref [OF cache_invD(2) [OF emit.prems(1)] e] by simp
  then have heap: "rc_heap c' b = (if b = a then None else rc_heap c b)" for b
    by (auto simp: c' cache_simps cache_ref_def)
  have "b \<noteq> a \<and> rc_heap c b \<noteq> None" if "(b, s', r') \<in> set (rc_firing c')" "(s', r') \<notin> torn" for b s' r'
  proof -
    from that have mem: "(b, s', r') \<in> set (rc_firing c)" and ne: "(b, s', r') \<noteq> f"
      by (auto simp: c' cache_simps)
    then have "rc_heap c b \<noteq> None" using emit.prems(2) that(2) by (auto simp: cache_live_def)
    moreover have "b \<noteq> a"
      using cache_firingD(2) [OF fi mem] cache_firingD(2) [OF fi emit.hyps(1) [unfolded f]] ne e f
      by auto
    ultimately show ?thesis by simp
  qed
  then show ?case by (auto simp: cache_live_def heap)
qed

lemma torn_step_live: "torn_step torn c c' \<Longrightarrow> cache_inv c \<Longrightarrow> cache_live torn c \<Longrightarrow> cache_live torn c'"
  by (induction rule: torn_step.induct) (auto intro: cache_live_step cache_live_add)

lemma torn_steps_live:
  "torn_steps torn c c' \<Longrightarrow> cache_inv c \<Longrightarrow> cache_live torn c \<Longrightarrow> cache_live torn c'"
  by (induction rule: rtranclp_induct) (auto intro: torn_step_live torn_steps_inv)

lemma torn_whole: "cache_steps True c c' \<Longrightarrow> torn_steps torn c c'"
  by (induction rule: cache_steps.induct) (auto intro: torn_step.whole rtranclp.rtrancl_into_rtrancl)

lemma nothing_torn: "torn_steps {} c c' \<Longrightarrow> cache_steps True c c'"
  by (induction rule: rtranclp_induct) (auto intro: cache_steps.intros elim: torn_step.cases)

text \<open>Only the callback of an entry under a torn key can meet a destroyed entry.\<close>

lemma fault_is_torn:
  assumes "cache_inv c" and "cache_live torn c" and "cache_fault c"
  shows "\<exists>a s r. (a, s, r) \<in> set (rc_firing c) \<and> (s, r) \<in> torn \<and> rc_heap c a = None"
proof -
  have "rc_heap c a \<noteq> None" if "(a, d) \<in> set (rc_sources c)" for a d
    using that cache_invD(3) [OF assms(1)]
    by (auto simp: cache_timers_def wf_map_lookup entry_deadline_Some)
  then have "timer_fired c a \<noteq> Inl NullPointer" if "(a, d) \<in> set (rc_sources c)" for a d
    using that by (auto simp: timer_fired_def split: option.splits)
  then obtain f where f: "f \<in> set (rc_firing c)" "timeout_emit c f = Inl NullPointer"
    using assms(3) unfolding cache_fault_def by blast
  obtain a s r where asr: "f = (a, s, r)" by (cases f)
  have "rc_heap c a = None"
    using f(2) by (auto simp: asr timeout_emit_def Let_def split: option.splits)
  then show ?thesis using f(1) assms(2) unfolding asr cache_live_def by blast
qed

lemma cache_no_fault: "cache_inv c \<Longrightarrow> cache_live {} c \<Longrightarrow> \<not> cache_fault c"
  using fault_is_torn by blast

lemma cache_live_init: "cache_live torn (request_cache_init t)"
  by (simp add: cache_live_def request_cache_init_def)

lemma cache_step_now: "cache_step g c c' \<Longrightarrow> rc_now c \<le> rc_now c' \<and> rc_timeout c' = rc_timeout c"
  by (induction rule: cache_step.induct)
    (auto simp: cache_simps elim!: timer_fired_InrE timeout_emit_InrE)

text \<open>A response that has not reached its deadline survives a step.\<close>

definition cached_with :: "request_cache \<Rightarrow> string \<Rightarrow> string \<Rightarrow> json \<Rightarrow> nat \<Rightarrow> bool" where
  "cached_with c s r v d \<longleftrightarrow>
     (\<exists>a e. cache_ref c s r = Some a \<and> rc_heap c a = Some e \<and> ce_response e = v \<and> ce_deadline e = d)"

lemma cached_with_step:
  assumes "cache_step True c c'" and "cache_inv c" and "cached_with c s r v d" and "rc_now c < d"
  shows "cached_with c' s r v d"
proof -
  note inv = cache_invD [OF assms(2)]
  from assms(3) obtain a e where ref: "cache_ref c s r = Some a" and e: "rc_heap c a = Some e"
    and ve: "ce_response e = v" "ce_deadline e = d"
    by (auto simp: cached_with_def)
  from cache_ref_heap [OF inv(2) ref] e have ids: "ce_session e = s" "ce_request e = r" by auto
  have nt: "\<not> ce_timedout e" using inv(4) e assms(4) ve unfolding cache_due_def by fastforce
  show ?thesis
    using assms(1)
  proof cases
    case (add s' r' w)
    then have "(s', r') \<noteq> (s, r)" "cache_ref c s' r' \<noteq> Some a" using ref by auto
    then show ?thesis
      using ref e ve heap_fresh [OF inv(2) e]
      by (auto simp: cached_with_def add cache_simps inv(2))
  next
    case (tick k)
    then show ?thesis using assms(3) by (simp add: cached_with_def cache_ref_def)
  next
    case (fire b k)
    have "b \<noteq> a"
    proof
      assume "b = a"
      then have "k = d"
        using fire(1) inv(3) e ve by (auto simp: cache_timers_def wf_map_lookup entry_deadline_Some)
      then show False using fire(2) assms(4) by simp
    qed
    then have "rc_heap c' a = Some e" and "cache_ref c' s r = Some a"
      using fire(3) e ref by (auto simp: cache_ref_def elim!: timer_fired_InrE)
    then show ?thesis using ve by (auto simp: cached_with_def)
  next
    case (emit f)
    from emit(2) obtain b s' r' e' where f: "f = (b, s', r')" and e': "rc_heap c b = Some e'"
      and c': "c' = erase_response (c\<lparr>rc_firing := removeAll f (rc_firing c)\<rparr>) s' r'"
      by (rule timeout_emit_InrE)
    from cache_firingD(2) [OF inv(5) emit(1) [unfolded f] e']
    have b: "ce_timedout e'" "ce_session e' = s'" "ce_request e' = r'" by simp_all
    then have "b \<noteq> a" using e e' nt by auto
    moreover have "cache_ref c s' r' = Some b" using heap_cache_ref [OF inv(2) e'] b by simp
    moreover have "(s', r') \<noteq> (s, r)" using calculation ref by auto
    ultimately have "rc_heap c' a = Some e" and "cache_ref c' s r = Some a"
      using e ref by (auto simp: c' cache_simps)
    then show ?thesis using ve by (auto simp: cached_with_def)
  qed
qed

lemma cached_with_steps:
  assumes "cache_steps True c c'" and "cache_inv c" and "cached_with c s r v d" and "rc_now c' < d"
  shows "cached_with c' s r v d"
  using assms
proof (induction rule: cache_steps.induct)
  case (step c1 c2 c3)
  have "rc_now c2 < d" using cache_step_now [OF step.hyps(2)] step.prems(3) by simp
  then show ?case
    using step cached_with_step cache_steps_inv by blast
qed simp

lemma torn_step_now: "torn_step torn c c' \<Longrightarrow> rc_now c \<le> rc_now c'"
  by (induction rule: torn_step.induct) (auto simp: cache_simps dest: cache_step_now)

lemma cached_with_torn:
  assumes "torn_step torn c c'" and "cache_inv c" and "cached_with c s r v d" and "rc_now c < d"
    and "(s, r) \<notin> torn"
  shows "cached_with c' s r v d"
  using assms(1)
proof cases
  case whole
  then show ?thesis using assms(2-4) by (rule cached_with_step)
next
  case (torn s' r' w)
  note li = cache_invD(2) [OF assms(2)]
  from assms(3) obtain a e where e: "cache_ref c s r = Some a" "rc_heap c a = Some e"
    "ce_response e = v" "ce_deadline e = d"
    by (auto simp: cached_with_def)
  have "(s', r') \<noteq> (s, r)" using torn(2) assms(5) by auto
  moreover from this have "cache_ref c s' r' \<noteq> Some a"
    using cache_ref_iff [OF li, of s r a] cache_ref_iff [OF li, of s' r' a] e(1) by auto
  ultimately show ?thesis
    using e heap_fresh [OF li e(2)] by (auto simp: cached_with_def torn(1) cache_simps li)
qed

lemma cached_with_torn_steps:
  assumes "torn_steps torn c c'" and "cache_inv c" and "cached_with c s r v d" and "rc_now c' < d"
    and "(s, r) \<notin> torn"
  shows "cached_with c' s r v d"
  using assms
proof (induction rule: rtranclp_induct)
  case (step c2 c3)
  have "rc_now c2 < d" using torn_step_now [OF step.hyps(2)] step.prems(3) by simp
  then show ?case
    using step cached_with_torn torn_steps_inv [OF step.hyps(1)] by blast
qed simp

lemma cached_with_add:
  "cache_inv c \<Longrightarrow> cached_with (addResponse c s r v) s r v (rc_now c + rc_timeout c)"
  by (simp add: cached_with_def cache_simps cache_invD)

lemma cached_with_get: "cache_inv c \<Longrightarrow> cached_with c s r v d \<Longrightarrow> getCachedResponse c s r = Inr v"
  by (auto simp: cached_with_def getCachedResponse_ref cache_invD)

text \<open>A run used in the examples: one response, added at time zero, with its timer fired.\<close>

definition demo_cache :: request_cache where
  "demo_cache = addResponse (request_cache_init 20000) ''s1'' ''1'' (JString ''ok'')"

lemma demo_cache_reach: "cache_steps g (request_cache_init 20000) demo_cache"
  unfolding demo_cache_def
  by (rule cache_steps.step [OF cache_steps.refl]) (rule cache_step.add, simp add: cache_ref_def request_cache_init_def)

text \<open>
  A timer's callback holds the entry's lock for its first half only: an entry that is replaced
  between the halves is destroyed, and the second half emits the signal of a destroyed object.
\<close>

lemma replaced_while_firing:
  "\<exists>c. cache_steps True (addResponse (request_cache_init t) s r v) c \<and> cache_fault (addResponse c s r w)"
proof -
  let ?c1 = "addResponse (request_cache_init t) s r v"
  let ?c2 = "?c1\<lparr>rc_now := rc_now ?c1 + t\<rparr>"
  have e: "rc_heap ?c2 0 = Some \<lparr>ce_session = s, ce_request = r, ce_response = v,
      ce_timedout = False, ce_deadline = t\<rparr>" and src: "(0, t) \<in> set (rc_sources ?c2)"
    and now: "t \<le> rc_now ?c2"
    by (simp_all add: addResponse_def new_entry_def request_cache_init_def Let_def cache_ref_def)
  from e obtain c3 where c3: "timer_fired ?c2 0 = Inr c3" by (simp add: timer_fired_def)
  have tick: "cache_steps True ?c1 ?c2" by (rule cache_steps.step [OF cache_steps.refl cache_step.tick])
  have run: "cache_steps True ?c1 c3"
    by (rule cache_steps.step [OF tick cache_step.fire [OF src now c3]])
  have "cache_ref c3 s r = Some 0" "(0, s, r) \<in> set (rc_firing (addResponse c3 s r w))" "rc_fresh c3 = 1"
    using c3 e by (auto simp: timer_fired_def cache_simps cache_ref_def addResponse_def new_entry_def
        request_cache_init_def Let_def inner_map_def)
  moreover have "cache_linked c3"
    by (rule cache_invD(2) [OF cache_steps_inv [OF run cache_inv_add [OF cache_inv_init]]])
  ultimately have "timeout_emit (addResponse c3 s r w) (0, s, r) = Inl NullPointer"
    by (simp add: timeout_emit_def cache_simps)
  then have "cache_fault (addResponse c3 s r w)"
    using \<open>(0, s, r) \<in> set (rc_firing (addResponse c3 s r w))\<close> unfolding cache_fault_def by blast
  with run show ?thesis by blast
qed

lemma cache_steps_unguarded: "cache_steps True c c' \<Longrightarrow> cache_steps False c c'"
proof (induction rule: cache_steps.induct)
  case (step c1 c2 c3)
  from step.hyps(2) have "cache_step False c2 c3"
    by cases (auto intro: cache_step.intros)
  with step.IH show ?case by (rule cache_steps.step)
qed (rule cache_steps.refl)

lemma cache_steps_trans: "cache_steps g b c \<Longrightarrow> cache_steps g a b \<Longrightarrow> cache_steps g a c"
  by (induction rule: cache_steps.induct) (auto intro: cache_steps.step)

section \<open>Properties\<close>

text \<open>
  C17. A response given to the cache is answered until its timeout has passed: from any state
  that satisfies the invariant, after adding a response under a key and whatever the other
  threads and the main loop then do (other insertions under absent keys, timers, time passing),
  a lookup before insertion time plus timeout returns that response.
\<close>

theorem cached_until_deadline:
  assumes "cache_inv c" and "cache_steps True (addResponse c s r v) c'"
    and "rc_now c' < rc_now c + rc_timeout c"
  shows "getCachedResponse c' s r = Inr v"
proof -
  note inv = cache_inv_add [OF assms(1), of s r v]
  from cached_with_steps [OF assms(2) inv cached_with_add [OF assms(1)] assms(3)]
  show ?thesis by (rule cached_with_get [OF cache_steps_inv [OF assms(2) inv]])
qed

theorem cached_until_deadline_witness:
  "getCachedResponse (addResponse demo_cache ''s2'' ''1'' JNull) ''s1'' ''1'' = Inr (JString ''ok'')"
proof -
  have ref: "cache_ref demo_cache ''s2'' ''1'' = None"
    by (simp add: demo_cache_def cache_simps cache_ref_def request_cache_init_def)
  have "cache_steps True demo_cache (addResponse demo_cache ''s2'' ''1'' JNull)"
    by (rule cache_steps.step [OF cache_steps.refl]) (rule cache_step.add, simp add: ref)
  moreover have "rc_now (addResponse demo_cache ''s2'' ''1'' JNull)
      < rc_now (request_cache_init 20000) + rc_timeout (request_cache_init 20000)"
    by (simp add: demo_cache_def cache_simps request_cache_init_def)
  ultimately show ?thesis
    unfolding demo_cache_def by (rule cached_until_deadline [OF cache_inv_init])
qed

text \<open>
  The invariant of the cache (no empty inner map, references and entries agree, a timer is
  attached exactly for the entries that have not timed out) holds after every interleaving of
  insertions, timers and both halves of the timer callbacks.
\<close>

theorem cache_steps_keep_inv:
  assumes "cache_steps g (request_cache_init t) c"
  shows "cache_inv c"
  using assms cache_inv_init by (rule cache_steps_inv)

theorem cache_steps_keep_inv_witness: "cache_inv demo_cache"
  by (rule cache_steps_keep_inv [OF demo_cache_reach])

text \<open>
  If a response is only added where none is cached, no timer callback ever touches a
  destroyed entry, in any interleaving: an entry's destructor detaches its timer, and an entry
  whose callback is in progress stays referenced until the callback removes it.
\<close>

theorem guarded_cache_never_faults:
  assumes "cache_steps True (request_cache_init t) c"
  shows "\<not> cache_fault c"
  using cache_no_fault cache_steps_inv [OF assms cache_inv_init]
    torn_steps_live [OF torn_whole [OF assms] cache_inv_init cache_live_init] by blast

theorem guarded_cache_never_faults_witness: "\<not> cache_fault demo_cache"
  by (rule guarded_cache_never_faults [OF demo_cache_reach])

text \<open>
  Without that discipline the callback can use a destroyed entry: the timer sets \<open>timedout\<close> and
  releases the entry's lock, another thread replaces the entry under the same key, which destroys
  it, and the callback then emits the signal of the destroyed entry.
\<close>

theorem replacing_races_with_timeout:
  "\<exists>c. cache_steps False (request_cache_init t) c \<and> cache_fault c"
proof -
  have add: "cache_step False c (addResponse c s r v)" for c s r v by (rule cache_step.add) simp
  note first = cache_steps.step [OF cache_steps.refl add]
  obtain c where "cache_steps True (addResponse (request_cache_init t) [] [] JNull) c"
    and fault: "cache_fault (addResponse c [] [] JNull)"
    using replaced_while_firing by blast
  then have "cache_steps False (request_cache_init t) c"
    using cache_steps_trans [OF cache_steps_unguarded first] by blast
  then have "cache_steps False (request_cache_init t) (addResponse c [] [] JNull)"
    by (rule cache_steps.step) (rule add)
  with fault show ?thesis by blast
qed

text \<open>
  C24. Nothing outlives its timeout once the main loop has caught up: in a reachable state with
  no callback in progress and no timer due, every response still answered has its deadline
  ahead, at most one timeout away.
\<close>

theorem cached_only_before_deadline:
  assumes "cache_steps g (request_cache_init t) c" and "rc_firing c = []"
    and "\<forall>(a, d) \<in> set (rc_sources c). rc_now c < d"
    and "getCachedResponse c s r = Inr v"
  shows "\<exists>d. cached_with c s r v d \<and> rc_now c < d \<and> d \<le> rc_now c + rc_timeout c"
proof -
  note inv = cache_invD [OF cache_steps_inv [OF assms(1) cache_inv_init]]
  from assms(4) obtain a e where ref: "cache_ref c s r = Some a" and e: "rc_heap c a = Some e"
    and v: "ce_response e = v"
    by (auto simp: getCachedResponse_ref [OF inv(2)])
  from inv(4) e assms(2) have nt: "\<not> ce_timedout e" and le: "ce_deadline e \<le> rc_now c + rc_timeout c"
    unfolding cache_due_def by fastforce+
  then have "(a, ce_deadline e) \<in> set (rc_sources c)"
    using inv(3) e by (simp add: cache_timers_def wf_map_lookup entry_deadline_Some)
  with assms(3) have "rc_now c < ce_deadline e" by blast
  with ref e v le show ?thesis unfolding cached_with_def by blast
qed

theorem cached_only_before_deadline_witness:
  "\<exists>d. cached_with demo_cache ''s1'' ''1'' (JString ''ok'') d \<and> rc_now demo_cache < d \<and>
     d \<le> rc_now demo_cache + rc_timeout demo_cache"
proof (rule cached_only_before_deadline [OF demo_cache_reach])
  show "getCachedResponse demo_cache ''s1'' ''1'' = Inr (JString ''ok'')"
    unfolding demo_cache_def by (rule getCachedResponse_add [OF cache_inv_init])
qed (simp_all add: demo_cache_def addResponse_def new_entry_def request_cache_init_def cache_ref_def Let_def)

end
