(* ===== verification/C_Strings.thy ===== *)
theory C_Strings
  imports Kms_Prelude
begin

text \<open>
  The functions of the C and C++ string libraries the server calls: searching with
  \<open>std::string::find\<close> and \<open>find_first_not_of\<close> (a position or \<open>npos\<close>, here \<open>None\<close>),
  \<open>substr\<close>, and reading numbers as \<open>strtol\<close> does (white space, a sign, digits, anything
  after). With the facts the components share: a printed number reads back as itself.
\<close>

section \<open>Searching\<close>

definition find_from :: "char \<Rightarrow> string \<Rightarrow> nat \<Rightarrow> nat option" where
  "find_from c s i =
     (let p = i + length (takeWhile (\<lambda>x. x \<noteq> c) (drop i s)) in if p < length s then Some p else None)"

definition find_not_from :: "char \<Rightarrow> string \<Rightarrow> nat \<Rightarrow> nat option" where
  "find_not_from c s i =
     (let p = i + length (takeWhile (\<lambda>x. x = c) (drop i s)) in if p < length s then Some p else None)"

definition substr :: "string \<Rightarrow> nat \<Rightarrow> nat \<Rightarrow> string" where
  "substr s i n = take n (drop i s)"

lemma take_length_takeWhile: "take (length (takeWhile P xs)) xs = takeWhile P xs"
  by (metis takeWhile_eq_take)

lemma drop_length_takeWhile: "drop (length (takeWhile P xs)) xs = dropWhile P xs"
  by (metis dropWhile_eq_drop)

lemma find_from_Some:
  assumes "find_from c s i = Some p"
  shows "i \<le> p" "p < length s" "s ! p = c" "take (p - i) (drop i s) = takeWhile (\<lambda>x. x \<noteq> c) (drop i s)"
    "drop p s = dropWhile (\<lambda>x. x \<noteq> c) (drop i s)"
proof -
  let ?t = "takeWhile (\<lambda>x. x \<noteq> c) (drop i s)"
  from assms have p: "p = i + length ?t" "p < length s"
    by (auto simp: find_from_def Let_def split: if_splits)
  then show "i \<le> p" "p < length s" by simp_all
  show 1: "take (p - i) (drop i s) = ?t" by (simp add: p(1) take_length_takeWhile)
  show 2: "drop p s = dropWhile (\<lambda>x. x \<noteq> c) (drop i s)"
    by (metis p(1) drop_drop drop_length_takeWhile add.commute)
  have "drop p s \<noteq> []" using p(2) by simp
  then show "s ! p = c"
    using 2 hd_dropWhile [of "\<lambda>x. x \<noteq> c" "drop i s"] hd_drop_conv_nth [OF p(2)] by metis
qed

lemma find_from_None: "find_from c s i = None \<Longrightarrow> dropWhile (\<lambda>x. x \<noteq> c) (drop i s) = []"
proof -
  assume "find_from c s i = None"
  then have "length s \<le> i + length (takeWhile (\<lambda>x. x \<noteq> c) (drop i s))"
    by (simp add: find_from_def Let_def split: if_splits)
  then show ?thesis by (simp add: drop_length_takeWhile [symmetric])
qed

lemma find_not_from_Some:
  assumes "find_not_from c s i = Some p"
  shows "i \<le> p" "p < length s" "s ! p \<noteq> c" "drop p s = dropWhile (\<lambda>x. x = c) (drop i s)"
proof -
  let ?t = "takeWhile (\<lambda>x. x = c) (drop i s)"
  from assms have p: "p = i + length ?t" "p < length s"
    by (auto simp: find_not_from_def Let_def split: if_splits)
  then show "i \<le> p" "p < length s" by simp_all
  show 2: "drop p s = dropWhile (\<lambda>x. x = c) (drop i s)"
    by (metis p(1) drop_drop drop_length_takeWhile add.commute)
  have "drop p s \<noteq> []" using p(2) by simp
  then show "s ! p \<noteq> c"
    using 2 hd_dropWhile [of "\<lambda>x. x = c" "drop i s"] hd_drop_conv_nth [OF p(2)] by metis
qed

lemma find_not_from_None: "find_not_from c s i = None \<Longrightarrow> dropWhile (\<lambda>x. x = c) (drop i s) = []"
proof -
  assume "find_not_from c s i = None"
  then have "length s \<le> i + length (takeWhile (\<lambda>x. x = c) (drop i s))"
    by (simp add: find_not_from_def Let_def split: if_splits)
  then show ?thesis by (simp add: drop_length_takeWhile [symmetric])
qed

section \<open>Reading numbers\<close>

definition is_space :: "char \<Rightarrow> bool" where
  "is_space c \<longleftrightarrow> c \<in> set [CHR '' '', CHR 0x09, CHR 0x0A, CHR 0x0B, CHR 0x0C, CHR 0x0D]"

definition digit_value :: "char \<Rightarrow> nat option" where
  "digit_value c = map_of (zip ''0123456789'' [0..<10]) c"

fun read_digits :: "nat \<Rightarrow> string \<Rightarrow> nat" where
  "read_digits acc [] = acc"
| "read_digits acc (c # cs) =
     (case digit_value c of None \<Rightarrow> acc | Some d \<Rightarrow> read_digits (10 * acc + d) cs)"

definition starts_digit :: "string \<Rightarrow> bool" where
  "starts_digit s = (case s of [] \<Rightarrow> False | c # _ \<Rightarrow> digit_value c \<noteq> None)"

text \<open>
  \<open>strtol\<close> in base ten: \<open>None\<close> when no digit was read; a value outside of \<open>long\<close> becomes the nearest
  one inside.
\<close>

definition clamp_long :: "int \<Rightarrow> int" where
  "clamp_long i = max (- (2 ^ 63)) (min (2 ^ 63 - 1) i)"

definition strtol10 :: "string \<Rightarrow> int option" where
  "strtol10 s =
     map_option clamp_long
       (let s1 = dropWhile is_space s
        in case s1 of
             [] \<Rightarrow> None
           | c # cs \<Rightarrow>
               (if c = CHR ''-'' then
                  (if starts_digit cs then Some (- int (read_digits 0 cs)) else None)
                else if c = CHR ''+'' then
                  (if starts_digit cs then Some (int (read_digits 0 cs)) else None)
                else if starts_digit s1 then Some (int (read_digits 0 s1)) else None))"

definition atol :: "string \<Rightarrow> int" where
  "atol s = (case strtol10 s of None \<Rightarrow> 0 | Some i \<Rightarrow> i)"

section \<open>A printed number reads back\<close>

lemma less10_cases: "(d::nat) < 10 \<Longrightarrow> d \<in> {0, 1, 2, 3, 4, 5, 6, 7, 8, 9}"
  by (simp add: numeral_eq_Suc less_Suc_eq)

lemma digit_value_digit_char [simp]: "d < 10 \<Longrightarrow> digit_value (digit_char d) = Some d"
  by (drule less10_cases) (auto simp: digit_char_def digit_value_def upt_rec)

lemma digit_char_not_space [simp]: "d < 10 \<Longrightarrow> \<not> is_space (digit_char d)"
  by (drule less10_cases) (auto simp: digit_char_def is_space_def)

lemma digit_char_not_sign: "d < 10 \<Longrightarrow> digit_char d \<noteq> CHR ''-'' \<and> digit_char d \<noteq> CHR ''+''"
  by (drule less10_cases) (auto simp: digit_char_def)

lemma to_string_nat_digits: "c \<in> set (to_string_nat n) \<Longrightarrow> \<exists>d < 10. c = digit_char d"
proof (induction "10::nat" n rule: digits_in.induct)
  case (1 n)
  show ?case
  proof (cases "n < 10")
    case True
    then show ?thesis using 1 by (auto simp: digits_in_small)
  next
    case False
    then have "to_string_nat n = to_string_nat (n div 10) @ [digit_char (n mod 10)]"
      by (simp add: digits_in_step)
    with 1 False show ?thesis by (auto intro: exI [of _ "n mod 10"])
  qed
qed

lemma read_digits_append:
  "\<forall>c \<in> set xs. digit_value c \<noteq> None \<Longrightarrow> read_digits acc (xs @ ys) = read_digits (read_digits acc xs) ys"
  by (induction xs arbitrary: acc) (auto split: option.splits)

lemma to_string_nat_values: "c \<in> set (to_string_nat n) \<Longrightarrow> digit_value c \<noteq> None"
  using to_string_nat_digits [of c n] by auto

lemma read_to_string_nat: "read_digits 0 (to_string_nat n) = n"
proof (induction "10::nat" n rule: digits_in.induct)
  case (1 n)
  show ?case
  proof (cases "n < 10")
    case True
    then show ?thesis by (simp add: digits_in_small)
  next
    case False
    then have "to_string_nat n = to_string_nat (n div 10) @ [digit_char (n mod 10)]"
      by (simp add: digits_in_step)
    with 1 False show ?thesis
      by (simp add: read_digits_append to_string_nat_values)
  qed
qed

lemma to_string_nat_inj: "to_string_nat m = to_string_nat n \<Longrightarrow> m = n"
  by (metis read_to_string_nat)

lemma to_string_nat_Cons:
  obtains c cs where "to_string_nat n = c # cs" and "digit_value c \<noteq> None" and "\<not> is_space c"
    and "c \<noteq> CHR ''-''" and "c \<noteq> CHR ''+''"
proof -
  obtain c cs where eq: "to_string_nat n = c # cs" by (cases "to_string_nat n") auto
  then obtain d where "d < 10" "c = digit_char d" using to_string_nat_digits [of c n] by auto
  then show thesis using that eq digit_char_not_sign [of d] by auto
qed

lemma strtol_to_string_nat: "strtol10 (to_string_nat n) = Some (clamp_long (int n))"
proof -
  obtain c cs where "to_string_nat n = c # cs" "digit_value c \<noteq> None" "\<not> is_space c"
    "c \<noteq> CHR ''-''" "c \<noteq> CHR ''+''" by (rule to_string_nat_Cons)
  then show ?thesis
    using read_to_string_nat [of n] by (simp add: strtol10_def starts_digit_def)
qed

lemma strtol_to_string_nat_append:
  "strtol10 (to_string_nat n @ c # cs) = Some (clamp_long (int n))" if "digit_value c = None"
proof -
  obtain d ds where eq: "to_string_nat n = d # ds" "digit_value d \<noteq> None" "\<not> is_space d"
    "d \<noteq> CHR ''-''" "d \<noteq> CHR ''+''" by (rule to_string_nat_Cons)
  have "read_digits 0 (to_string_nat n @ c # cs) = n"
    using that by (simp add: read_digits_append to_string_nat_values read_to_string_nat)
  then show ?thesis using eq by (simp add: strtol10_def starts_digit_def)
qed

end
