(* ===== verification/Resource_Manager.thy ===== *)
theory Resource_Manager
  imports Json_Model C_Strings
begin

text \<open>
  \<open>server/ResourceManager.cpp\<close>: the guard of object creation against the limits of the
  operating system. What the functions read of the system (resource limits, the first line of
  \<open>/proc/self/stat\<close>, the entries of \<open>/proc/self/fd\<close>) is a record; the two \<open>static\<close> caches of
  the limits are the state. A \<open>float\<close> is a rational, rounded as IEEE binary32 rounds.
\<close>

section \<open>Single precision\<close>

definition round_half_even :: "rat \<Rightarrow> int" where
  "round_half_even q =
     (let f = \<lfloor>q\<rfloor>; d = q - of_int f
      in if d < 1 / 2 then f else if 1 / 2 < d then f + 1 else if even f then f else f + 1)"

text \<open>
  The unit in the last place of a positive number: a power of two that brings it to 24 bits,
  not below the subnormals' unit. The fuel covers the exponents of the format.
\<close>

fun f32_unit :: "nat \<Rightarrow> rat \<Rightarrow> int \<Rightarrow> rat \<Rightarrow> rat" where
  "f32_unit 0 q e u = u"
| "f32_unit (Suc n) q e u =
     (if 2 ^ 24 \<le> q then f32_unit n (q / 2) (e + 1) (2 * u)
      else if q < 2 ^ 23 \<and> - 149 < e then f32_unit n (q * 2) (e - 1) (u / 2)
      else u)"

definition f32_round :: "rat \<Rightarrow> rat" where
  "f32_round q =
     (if q = 0 then 0
      else let u = f32_unit 300 \<bar>q\<bar> 0 1 in of_int (round_half_even (q / u)) * u)"

section \<open>The system and the cached limits\<close>

record os_view =
  os_nproc :: nat \<comment> \<open>\<open>RLIMIT_NPROC\<close>\<close>
  os_nofile :: nat \<comment> \<open>\<open>RLIMIT_NOFILE\<close>\<close>
  os_stat :: string \<comment> \<open>first line of \<open>/proc/self/stat\<close>\<close>
  os_fds :: "string list option" \<comment> \<open>entries of \<open>/proc/self/fd\<close>, if it opens\<close>

record limit_cache =
  lc_threads :: nat
  lc_files :: nat

definition RLIM_INFINITY :: nat where
  "RLIM_INFINITY = 2 ^ 64 - 1"

definition limits_init :: limit_cache where
  "limits_init = \<lparr>lc_threads = 0, lc_files = 0\<rparr>"

section \<open>Reading the number of threads\<close>

text \<open>
  \<open>get_int\<close> ends a token by writing a terminator at its end; where no separator follows,
  that write is outside the string.
\<close>

function get_int_loop :: "string \<Rightarrow> char \<Rightarrow> int \<Rightarrow> int \<Rightarrow> nat option \<Rightarrow> exn + int" where
  "get_int_loop str sep nToken count start =
     (case start of
        None \<Rightarrow> Inr 0
      | Some st \<Rightarrow>
          (if st < length str then
             (let fin = find_from sep str st
              in if count = nToken then
                   (case fin of
                      None \<Rightarrow> Inl (Undefined ''str[npos]'')
                    | Some e \<Rightarrow> Inr (atol (substr str st (e - st))))
                 else
                   get_int_loop str sep nToken (count + 1)
                     (case fin of None \<Rightarrow> None | Some e \<Rightarrow> find_not_from sep str e))
           else Inr 0))"
  by pat_completeness auto
termination
proof (relation "measure (\<lambda>(str, _, _, _, start). case start of None \<Rightarrow> 0 | Some st \<Rightarrow> Suc (length str - st))")
  fix str sep st fin and count nToken :: int and start :: "nat option"
  assume *: "start = Some st" "st < length str" "fin = find_from sep str st"
  show "((str, sep, nToken, count + 1, case fin of None \<Rightarrow> None | Some e \<Rightarrow> find_not_from sep str e),
      str, sep, nToken, count, start)
    \<in> measure (\<lambda>(str, _, _, _, start). case start of None \<Rightarrow> 0 | Some st \<Rightarrow> Suc (length str - st))"
  proof (cases fin)
    case (Some e)
    show ?thesis
    proof (cases "find_not_from sep str e")
      case None
      then show ?thesis using *(1,2) \<open>fin = Some e\<close> by simp
    next
      case (Some n)
      have "st \<le> e" "e \<le> n" "str ! e = sep" "str ! n \<noteq> sep" "n < length str"
        using find_from_Some [of sep str st e] find_not_from_Some [OF Some] * \<open>fin = Some e\<close> by simp_all
      then have "st < n" using le_neq_implies_less [of e n] by fastforce
      then show ?thesis using *(1,2) Some \<open>fin = Some e\<close> \<open>n < length str\<close> by simp
    qed
  qed (use *(1,2) in simp)
qed simp

declare get_int_loop.simps [simp del]

definition get_int :: "string \<Rightarrow> char \<Rightarrow> int \<Rightarrow> exn + int" where
  "get_int str sep nToken = get_int_loop str sep nToken 0 (find_not_from sep str 0)"

definition getNumberOfThreads :: "os_view \<Rightarrow> exn + int" where
  "getNumberOfThreads os = get_int (os_stat os) CHR '' '' 19"

section \<open>Limits\<close>

definition getMaxThreads :: "os_view \<Rightarrow> (limit_cache, exn, nat) prog" where
  "getMaxThreads os l =
     (let limit = (if lc_threads l = 0 then os_nproc os else lc_threads l)
      in (Inr limit, l\<lparr>lc_threads := limit\<rparr>))"

definition getMaxOpenFiles :: "os_view \<Rightarrow> (limit_cache, exn, nat) prog" where
  "getMaxOpenFiles os l =
     (let limit = (if lc_files l = 0 then os_nofile os else lc_files l)
      in (Inr limit, l\<lparr>lc_files := limit\<rparr>))"

text \<open>
  \<open>(rlim_t) (max * limit_percent)\<close>: the limit becomes a float, the product is rounded, the
  fraction is cut off. A value the integer type does not hold is undefined.
\<close>

definition to_rlim :: "rat \<Rightarrow> exn + nat" where
  "to_rlim x =
     (if x \<le> - 1 \<or> 2 ^ 64 \<le> x then Inl (Undefined ''float to rlim_t'')
      else Inr (if x < 0 then 0 else nat \<lfloor>x\<rfloor>))"

definition scaled_limit :: "nat \<Rightarrow> rat \<Rightarrow> exn + nat" where
  "scaled_limit max_limit limit_percent =
     to_rlim (f32_round (f32_round (of_nat max_limit) * limit_percent))"

definition long_to_rlim :: "int \<Rightarrow> nat" where
  "long_to_rlim i = nat (i mod 2 ^ 64)"

definition getNumberOfOpenFiles :: "os_view \<Rightarrow> exn + int" where
  "getNumberOfOpenFiles os =
     (case os_fds os of None \<Rightarrow> Inl NullPointer | Some entries \<Rightarrow> Inr (int (length entries)))"

definition checkThreads :: "os_view \<Rightarrow> rat \<Rightarrow> (limit_cache, exn, unit) prog" where
  "checkThreads os limit_percent =
     andThen (getMaxThreads os) (\<lambda>maxThreads.
       if maxThreads \<le> 0 \<or> maxThreads = RLIM_INFINITY then ret ()
       else andThen (lift (scaled_limit maxThreads limit_percent)) (\<lambda>maxThreadsKms.
         andThen (lift (getNumberOfThreads os)) (\<lambda>n.
           if maxThreadsKms < long_to_rlim n then
             raise (KurentoException NOT_ENOUGH_RESOURCES
               (''Reached KMS threads limit: '' @ to_string_nat maxThreadsKms))
           else ret ())))"

definition checkOpenFiles :: "os_view \<Rightarrow> rat \<Rightarrow> (limit_cache, exn, unit) prog" where
  "checkOpenFiles os limit_percent =
     andThen (getMaxOpenFiles os) (\<lambda>maxOpenFiles.
       if maxOpenFiles \<le> 0 \<or> maxOpenFiles = RLIM_INFINITY then ret ()
       else andThen (lift (scaled_limit maxOpenFiles limit_percent)) (\<lambda>maxOpenFilesKms.
         andThen (lift (getNumberOfOpenFiles os)) (\<lambda>n.
           if maxOpenFilesKms < long_to_rlim n then
             raise (KurentoException NOT_ENOUGH_RESOURCES
               (''Reached KMS files limit: '' @ to_string_nat maxOpenFilesKms))
           else ret ())))"

definition checkResources :: "os_view \<Rightarrow> rat \<Rightarrow> (limit_cache, exn, unit) prog" where
  "checkResources os limit_percent =
     andThen (checkThreads os limit_percent) (\<lambda>_. checkOpenFiles os limit_percent)"

text \<open>
  The slot \<open>killServerOnLowResources\<close> connects to the signal that the last object is gone: the
  result says whether the server sends itself \<open>SIGTERM\<close>.
\<close>

definition killServerOnLowResources :: "os_view \<Rightarrow> rat \<Rightarrow> (limit_cache, exn, bool) prog" where
  "killServerOnLowResources os limit_percent =
     handle (andThen (checkResources os limit_percent) (\<lambda>_. ret False))
       (\<lambda>e. case e of
          KurentoException code _ \<Rightarrow> ret (code = NOT_ENOUGH_RESOURCES)
        | _ \<Rightarrow> raise e)"

section \<open>What \<open>get_int\<close> reads\<close>

text \<open>The fields of a line: the maximal runs without the separator.\<close>

function tokens :: "char \<Rightarrow> string \<Rightarrow> string list" where
  "tokens sep s =
     (case dropWhile (\<lambda>x. x = sep) s of
        [] \<Rightarrow> []
      | c # cs \<Rightarrow> takeWhile (\<lambda>x. x \<noteq> sep) (c # cs) # tokens sep (dropWhile (\<lambda>x. x \<noteq> sep) (c # cs)))"
  by pat_completeness auto
termination
proof (relation "measure (\<lambda>(_, s). length s)")
  fix sep c and s cs :: string
  assume *: "dropWhile (\<lambda>x. x = sep) s = c # cs"
  have "length (dropWhile (\<lambda>x. x \<noteq> sep) (c # cs)) \<le> length cs"
    using hd_dropWhile [of "\<lambda>x. x = sep" s] * length_dropWhile_le [of "\<lambda>x. x \<noteq> sep" cs] by auto
  moreover have "length (c # cs) \<le> length s"
    using length_dropWhile_le [of "\<lambda>x. x = sep" s] * by simp
  ultimately show "((sep, dropWhile (\<lambda>x. x \<noteq> sep) (c # cs)), sep, s) \<in> measure (\<lambda>(_, s). length s)"
    by simp
qed simp

declare tokens.simps [simp del]

lemma tokens_Nil [simp]: "tokens sep [] = []"
  by (simp add: tokens.simps)

lemma tokens_dropWhile: "tokens sep (dropWhile (\<lambda>x. x = sep) s) = tokens sep s"
proof -
  have "dropWhile (\<lambda>x. x = sep) (dropWhile (\<lambda>x. x = sep) s) = dropWhile (\<lambda>x. x = sep) s"
    by (simp add: dropWhile_idem)
  then show ?thesis by (simp add: tokens.simps [of sep s] tokens.simps [of sep "dropWhile (\<lambda>x. x = sep) s"])
qed

lemma tokens_Cons: "c \<noteq> sep \<Longrightarrow>
  tokens sep (c # cs) = takeWhile (\<lambda>x. x \<noteq> sep) (c # cs) # tokens sep (dropWhile (\<lambda>x. x \<noteq> sep) (c # cs))"
  by (simp add: tokens.simps [of sep "c # cs"])

lemma tokens_empty_iff: "tokens sep s = [] \<longleftrightarrow> dropWhile (\<lambda>x. x = sep) s = []"
  by (cases "dropWhile (\<lambda>x. x = sep) s") (simp_all add: tokens.simps [of sep s] del: dropWhile_eq_Nil_conv)

text \<open>A field is unterminated if it is the last one and the line does not end in a separator.\<close>

definition unterminated :: "char \<Rightarrow> string \<Rightarrow> nat \<Rightarrow> bool" where
  "unterminated sep s k \<longleftrightarrow> Suc k = length (tokens sep s) \<and> last s \<noteq> sep"

definition nth_field :: "char \<Rightarrow> string \<Rightarrow> int \<Rightarrow> exn + int" where
  "nth_field sep s n =
     (if 0 \<le> n \<and> nat n < length (tokens sep s) then
        (if unterminated sep s (nat n) then Inl (Undefined ''str[npos]'')
         else Inr (atol (tokens sep s ! nat n)))
      else Inr 0)"

lemma nth_field_Cons:
  assumes "c \<noteq> sep" and "dropWhile (\<lambda>x. x \<noteq> sep) (c # cs) = r" and "r \<noteq> []"
  shows "nth_field sep (c # cs) n =
    (if n = 0 then Inr (atol (takeWhile (\<lambda>x. x \<noteq> sep) (c # cs))) else nth_field sep r (n - 1))"
proof -
  let ?t = "takeWhile (\<lambda>x. x \<noteq> sep) (c # cs)"
  have toks: "tokens sep (c # cs) = ?t # tokens sep r" using assms(1,2) by (simp add: tokens_Cons)
  have last: "last (c # cs) = last r"
    by (metis assms(2,3) last_append takeWhile_dropWhile_id)
  have hd: "hd r = sep" using assms(2,3) hd_dropWhile [of "\<lambda>x. x \<noteq> sep" "c # cs"] by auto
  have "last r = sep" if "tokens sep r = []"
  proof -
    from that have "\<forall>x \<in> set r. x = sep" by (simp add: tokens_empty_iff)
    then show ?thesis using assms(3) by simp
  qed
  then have 0: "\<not> unterminated sep (c # cs) 0" unfolding unterminated_def toks last by auto
  have S: "unterminated sep (c # cs) (Suc k) = unterminated sep r k" for k
    unfolding unterminated_def toks last by simp
  show ?thesis
  proof (cases "n \<le> 0")
    case True
    then show ?thesis using 0 by (auto simp: nth_field_def toks)
  next
    case False
    then obtain k where "n = int k + 1" by (metis add.commute not_le zless_iff_Suc_zadd
          int_one_le_iff_zero_less zero_le_imp_eq_int zle_iff_zadd)
    then show ?thesis by (simp add: nth_field_def toks S nat_add_distrib)
  qed
qed

text \<open>The search for the end of a token finds no separator: the token is the last one, and unterminated.\<close>

lemma nth_field_last:
  assumes "st < length str" and "str ! st \<noteq> sep" and "find_from sep str st = None"
  shows "nth_field sep (drop st str) n = (if n = 0 then Inl (Undefined ''str[npos]'') else Inr 0)"
proof -
  obtain c cs where drop: "drop st str = c # cs" "c \<noteq> sep"
    using assms(1,2) Cons_nth_drop_Suc [of st str] by metis
  have no: "dropWhile (\<lambda>x. x \<noteq> sep) (c # cs) = []"
    using find_from_None [OF assms(3)] by (simp only: drop)
  then have "takeWhile (\<lambda>x. x \<noteq> sep) (c # cs) = c # cs"
    using takeWhile_dropWhile_id [of "\<lambda>x. x \<noteq> sep" "c # cs"] by (simp only: append_Nil2)
  then have toks: "tokens sep (c # cs) = [c # cs]"
    using tokens_Cons [OF drop(2), of cs] unfolding no tokens_Nil by metis
  have "\<forall>x \<in> set (c # cs). x \<noteq> sep" using no by (simp only: dropWhile_eq_Nil_conv)
  then have "last (c # cs) \<noteq> sep" using last_in_set [of "c # cs"] by blast
  then show ?thesis by (auto simp: drop nth_field_def toks unterminated_def)
qed

text \<open>The search for the next token skips separators only.\<close>

lemma nth_field_next:
  "nth_field sep (case find_not_from sep str e of None \<Rightarrow> [] | Some n \<Rightarrow> drop n str) k = nth_field sep (drop e str) k"
proof (cases "find_not_from sep str e")
  case None
  then show ?thesis
    using find_not_from_None [OF None] tokens_empty_iff [of sep "drop e str"] by (simp add: nth_field_def)
next
  case (Some n)
  note n = find_not_from_Some [OF Some]
  have "tokens sep (drop n str) = tokens sep (drop e str)" by (simp add: n(4) tokens_dropWhile)
  moreover have "last (drop n str) = last (drop e str)" using n(1,2) by simp
  ultimately show ?thesis by (simp add: Some nth_field_def unterminated_def)
qed

lemma get_int_loop_field:
  "(case start of None \<Rightarrow> True | Some st \<Rightarrow> st < length str \<and> str ! st \<noteq> sep) \<Longrightarrow>
   get_int_loop str sep nToken count start =
     nth_field sep (case start of None \<Rightarrow> [] | Some st \<Rightarrow> drop st str) (nToken - count)"
proof (induction str sep nToken count start rule: get_int_loop.induct)
  case (1 str sep nToken count start)
  show ?case
  proof (cases start)
    case None
    then show ?thesis by (simp add: get_int_loop.simps [of str sep nToken count None] nth_field_def)
  next
    case (Some st)
    with 1(2) have st: "st < length str" "str ! st \<noteq> sep" by simp_all
    have drop: "drop st str = str ! st # drop (Suc st) str" using st(1) by (simp add: Cons_nth_drop_Suc)
    note unfold = get_int_loop.simps [of str sep nToken count "Some st"]
    show ?thesis
    proof (cases "find_from sep str st")
      case None
      then show ?thesis
        by (simp add: \<open>start = Some st\<close> unfold st nth_field_last [OF st None] get_int_loop.simps [of str sep nToken "count + 1" None])
    next
      case (Some e)
      note e = find_from_Some [OF Some]
      have r: "dropWhile (\<lambda>x. x \<noteq> sep) (str ! st # drop (Suc st) str) = drop e str"
        by (rule e(5) [unfolded drop, symmetric])
      have sub: "substr str st (e - st) = takeWhile (\<lambda>x. x \<noteq> sep) (str ! st # drop (Suc st) str)"
        using e(4) by (simp add: substr_def drop)
      have ne: "drop e str \<noteq> []" using e(2) by simp
      note field = nth_field_Cons [OF st(2) r ne, of "nToken - count"]
      have "get_int_loop str sep nToken (count + 1) (find_not_from sep str e) = nth_field sep (drop e str) (nToken - (count + 1))"
        if "count \<noteq> nToken"
        using "1.IH" [OF \<open>start = Some st\<close> st(1) refl that] find_not_from_Some [of sep str e]
        unfolding nth_field_next [of sep str e, symmetric] by (auto simp: Some split: option.splits)
      then show ?thesis
        unfolding \<open>start = Some st\<close> unfold option.case drop field by (simp add: st Some sub algebra_simps)
    qed
  qed
qed

lemma get_int_field: "get_int str sep nToken = nth_field sep str nToken"
proof (cases "find_not_from sep str 0")
  case None
  then show ?thesis
    using get_int_loop_field [where start = None and str = str and sep = sep and nToken = nToken and count = 0] find_not_from_None [OF None]
      tokens_empty_iff [of sep str]
    by (simp add: get_int_def nth_field_def)
next
  case (Some n)
  note n = find_not_from_Some [OF Some]
  have "tokens sep (drop n str) = tokens sep str" by (simp add: n(4) tokens_dropWhile)
  moreover have "last (drop n str) = last str" using n(2) by simp
  ultimately have "nth_field sep (drop n str) nToken = nth_field sep str nToken"
    by (simp add: nth_field_def unterminated_def)
  then show ?thesis
    using get_int_loop_field [where start = "Some n" and str = str and sep = sep and nToken = nToken and count = 0] n by (simp add: get_int_def Some)
qed

section \<open>Rounding\<close>

lemma round_half_even_le:
  assumes "q \<le> of_int m"
  shows "round_half_even q \<le> m"
proof -
  define d where "d = q - of_int \<lfloor>q\<rfloor>"
  have "q < of_int m \<Longrightarrow> \<lfloor>q\<rfloor> + 1 \<le> m" by linarith
  moreover have "q = of_int m \<Longrightarrow> d = 0" by (simp add: d_def)
  moreover have "\<lfloor>q\<rfloor> \<le> m" using assms by linarith
  ultimately show ?thesis
    using assms by (auto simp: round_half_even_def Let_def d_def [symmetric] order.order_iff_strict)
qed

lemma round_half_even_nonneg: "0 \<le> q \<Longrightarrow> 0 \<le> round_half_even q"
  by (auto simp: round_half_even_def Let_def)

lemma round_half_even_ge: "of_int m \<le> q \<Longrightarrow> m \<le> round_half_even q"
  by (auto simp: round_half_even_def Let_def le_floor_iff intro: le_floor_iff [THEN iffD2] order_trans)

lemma round_half_even_near: "of_int (round_half_even q) \<le> q + 1 / 2"
  by (auto simp: round_half_even_def Let_def) linarith+

lemma f32_unit_small:
  assumes "0 < q" and "q < 2 ^ 24"
  shows "\<exists>k. f32_unit n q e u = u / 2 ^ k"
  using assms
proof (induction n arbitrary: q e u)
  case 0
  then show ?case by (auto intro: exI [of _ 0])
next
  case (Suc n)
  show ?case
  proof (cases "q < 2 ^ 23 \<and> - 149 < e")
    case True
    then have "\<exists>k. f32_unit n (q * 2) (e - 1) (u / 2) = (u / 2) / 2 ^ k"
      by (intro Suc.IH) (use Suc.prems in auto)
    then obtain k where "f32_unit n (q * 2) (e - 1) (u / 2) = (u / 2) / 2 ^ k" ..
    then show ?thesis using True Suc.prems by (intro exI [of _ "Suc k"]) (auto simp: not_le)
  next
    case False
    then show ?thesis using Suc.prems by (intro exI [of _ 0]) (auto simp: not_le)
  qed
qed

text \<open>Rounding a number below \<open>2\<^sup>2\<^sup>4\<close> does not pass an integer above it.\<close>

lemma f32_round_le:
  assumes "0 \<le> q" and "q \<le> of_nat m" and "m < 2 ^ 24"
  shows "f32_round q \<le> of_nat m \<and> 0 \<le> f32_round q"
proof (cases "q = 0")
  case True
  then show ?thesis by (simp add: f32_round_def)
next
  case False
  have "(of_nat m :: rat) < 2 ^ 24"
    using assms(3) by (metis of_nat_less_iff of_nat_numeral of_nat_power)
  with False assms obtain k where u: "f32_unit 300 q 0 1 = 1 / 2 ^ k"
    using f32_unit_small [of q 300 0 1] by auto
  have eq: "f32_round q = of_int (round_half_even (q * 2 ^ k)) / 2 ^ k"
    using False assms(1) by (simp add: f32_round_def Let_def u)
  have "q * 2 ^ k \<le> of_int (int m * 2 ^ k)"
    using assms(2) by simp
  then have "round_half_even (q * 2 ^ k) \<le> int m * 2 ^ k" by (rule round_half_even_le)
  then have "(of_int (round_half_even (q * 2 ^ k)) :: rat) \<le> of_int (int m * 2 ^ k)"
    by (rule of_int_le_iff [THEN iffD2])
  then have "f32_round q \<le> of_nat m" by (simp add: eq field_simps)
  moreover have "0 \<le> f32_round q"
    using round_half_even_nonneg [of "q * 2 ^ k"] assms(1) by (simp add: eq)
  ultimately show ?thesis by simp
qed

text \<open>A number below \<open>2\<^sup>2\<^sup>4\<close> is rounded to a multiple of a power of two that divides one.\<close>

lemma f32_round_small:
  assumes "0 < q" and "q < 2 ^ 24"
  obtains k where "f32_round q = of_int (round_half_even (q * 2 ^ k)) / 2 ^ k"
proof -
  obtain k where "f32_unit 300 q 0 1 = 1 / 2 ^ k" using f32_unit_small [OF assms, of 300 0 1] by auto
  then have "f32_round q = of_int (round_half_even (q * 2 ^ k)) / 2 ^ k"
    using assms(1) by (simp add: f32_round_def Let_def)
  then show thesis by (rule that)
qed

lemma f32_round_near:
  assumes "0 \<le> q" and "q < 2 ^ 24"
  shows "of_int \<lfloor>q\<rfloor> \<le> f32_round q \<and> f32_round q \<le> q + 1 / 2"
proof (cases "q = 0")
  case True
  then show ?thesis by (simp add: f32_round_def)
next
  case False
  then have "0 < q" using assms(1) by simp
  then obtain k where eq: "f32_round q = of_int (round_half_even (q * 2 ^ k)) / 2 ^ k"
    using f32_round_small assms(2) by blast
  have "of_int (\<lfloor>q\<rfloor> * 2 ^ k) \<le> q * 2 ^ k" by simp
  then have "\<lfloor>q\<rfloor> * 2 ^ k \<le> round_half_even (q * 2 ^ k)" by (rule round_half_even_ge)
  then have "(of_int (\<lfloor>q\<rfloor> * 2 ^ k) :: rat) \<le> of_int (round_half_even (q * 2 ^ k))" by (rule of_int_le_iff [THEN iffD2])
  then have low: "of_int \<lfloor>q\<rfloor> \<le> f32_round q" by (simp add: eq field_simps)
  have "(1 :: rat) \<le> 2 ^ k" by simp
  then have "(of_int (round_half_even (q * 2 ^ k)) :: rat) \<le> q * 2 ^ k + 2 ^ k / 2"
    using round_half_even_near [of "q * 2 ^ k"] by linarith
  then have "(of_int (round_half_even (q * 2 ^ k)) :: rat) \<le> (q + 1 / 2) * 2 ^ k"
    by (simp add: distrib_right)
  then have "f32_round q \<le> q + 1 / 2" by (simp add: eq divide_le_eq)
  with low show ?thesis by simp
qed

lemma f32_round_nat:
  assumes "m < 2 ^ 24"
  shows "f32_round (of_nat m) = of_nat m"
proof -
  have "(of_nat m :: rat) < 2 ^ 24" using assms by (metis of_nat_less_iff of_nat_numeral of_nat_power)
  then have "of_int \<lfloor>of_nat m :: rat\<rfloor> \<le> f32_round (of_nat m)" using f32_round_near [of "of_nat m"] by simp
  then show ?thesis using f32_round_le [of "of_nat m" m] assms by simp
qed

text \<open>
  The share of a limit, as far as single precision can tell it: the product cut off at the point, or
  rounded up where it is within half of the next number.
\<close>

definition is_share :: "rat \<Rightarrow> nat \<Rightarrow> nat \<Rightarrow> bool" where
  "is_share p m k \<longleftrightarrow> k \<le> m \<and> of_nat m * p - 1 < of_nat k \<and> of_nat k \<le> of_nat m * p + 1 / 2"

lemma scaled_limit_small:
  assumes "m < 2 ^ 24" and "0 \<le> p" and "p \<le> 1"
  shows "\<exists>k. is_share p m k \<and> scaled_limit m p = Inr k"
proof -
  let ?x = "of_nat m * p"
  have m: "(of_nat m :: rat) < 2 ^ 24" using assms(1) by (metis of_nat_less_iff of_nat_numeral of_nat_power)
  have x: "0 \<le> ?x" "?x \<le> of_nat m" using assms(2,3) by (simp_all add: mult_left_le)
  have "?x < 2 ^ 24" using x(2) m by (rule le_less_trans)
  note near = f32_round_near [OF x(1) this] and le = f32_round_le [OF x assms(1)]
  have "f32_round ?x < 2 ^ 64" using le m by simp
  then have "scaled_limit m p = Inr (nat \<lfloor>f32_round ?x\<rfloor>)"
    using le by (simp add: scaled_limit_def to_rlim_def f32_round_nat [OF assms(1)])
  moreover have "is_share p m (nat \<lfloor>f32_round ?x\<rfloor>)"
  proof -
    have "\<lfloor>?x\<rfloor> \<le> \<lfloor>f32_round ?x\<rfloor>" using near by (simp add: le_floor_iff)
    then have "?x - 1 < of_int \<lfloor>f32_round ?x\<rfloor>" by linarith
    moreover have "of_int \<lfloor>f32_round ?x\<rfloor> \<le> ?x + 1 / 2" using near by linarith
    moreover have "\<lfloor>f32_round ?x\<rfloor> \<le> int m" using le by (simp add: floor_le_iff)
    moreover have "0 \<le> \<lfloor>f32_round ?x\<rfloor>" using le by simp
    ultimately show ?thesis unfolding is_share_def by (simp add: nat_le_iff)
  qed
  ultimately show ?thesis by blast
qed

section \<open>The checks\<close>

definition limit_known :: "nat \<Rightarrow> bool" where
  "limit_known m \<longleftrightarrow> 0 < m \<and> m \<noteq> RLIM_INFINITY"

definition eff_threads :: "os_view \<Rightarrow> limit_cache \<Rightarrow> nat" where
  "eff_threads os l = (if lc_threads l = 0 then os_nproc os else lc_threads l)"

definition eff_files :: "os_view \<Rightarrow> limit_cache \<Rightarrow> nat" where
  "eff_files os l = (if lc_files l = 0 then os_nofile os else lc_files l)"

lemma getMaxThreads_run: "getMaxThreads os l = (Inr (eff_threads os l), l\<lparr>lc_threads := eff_threads os l\<rparr>)"
  by (simp add: getMaxThreads_def eff_threads_def Let_def)

lemma getMaxOpenFiles_run: "getMaxOpenFiles os l = (Inr (eff_files os l), l\<lparr>lc_files := eff_files os l\<rparr>)"
  by (simp add: getMaxOpenFiles_def eff_files_def Let_def)

text \<open>A check against a limit: what is thrown, if anything.\<close>

definition limit_check :: "string \<Rightarrow> nat \<Rightarrow> rat \<Rightarrow> exn + int \<Rightarrow> exn + unit" where
  "limit_check what m p n =
     (if \<not> limit_known m then Inr ()
      else case scaled_limit m p of
             Inl e \<Rightarrow> Inl e
           | Inr k \<Rightarrow>
               (case n of
                  Inl e \<Rightarrow> Inl e
                | Inr i \<Rightarrow>
                    if k < long_to_rlim i then
                      Inl (KurentoException NOT_ENOUGH_RESOURCES (what @ to_string_nat k))
                    else Inr ()))"

lemma checkThreads_run:
  "checkThreads os p l =
     (limit_check ''Reached KMS threads limit: '' (eff_threads os l) p (getNumberOfThreads os),
      l\<lparr>lc_threads := eff_threads os l\<rparr>)"
  by (cases "scaled_limit (eff_threads os l) p"; cases "getNumberOfThreads os")
    (auto simp: checkThreads_def getMaxThreads_run andThen_def limit_check_def limit_known_def)

lemma checkOpenFiles_run:
  "checkOpenFiles os p l =
     (limit_check ''Reached KMS files limit: '' (eff_files os l) p (getNumberOfOpenFiles os),
      l\<lparr>lc_files := eff_files os l\<rparr>)"
  by (cases "scaled_limit (eff_files os l) p"; cases "getNumberOfOpenFiles os")
    (auto simp: checkOpenFiles_def getMaxOpenFiles_run andThen_def limit_check_def limit_known_def)

lemma checkResources_run:
  "checkResources os p l =
     (case limit_check ''Reached KMS threads limit: '' (eff_threads os l) p (getNumberOfThreads os) of
        Inl e \<Rightarrow> (Inl e, l\<lparr>lc_threads := eff_threads os l\<rparr>)
      | Inr _ \<Rightarrow>
          (limit_check ''Reached KMS files limit: '' (eff_files os l) p (getNumberOfOpenFiles os),
           l\<lparr>lc_threads := eff_threads os l, lc_files := eff_files os l\<rparr>))"
  by (auto simp: checkResources_def andThen_def checkThreads_run checkOpenFiles_run eff_files_def
      split: sum.splits)

lemma checkResources_result:
  "fst (checkResources os p l) =
     (case limit_check ''Reached KMS threads limit: '' (eff_threads os l) p (getNumberOfThreads os) of
        Inl e \<Rightarrow> Inl e
      | Inr _ \<Rightarrow> limit_check ''Reached KMS files limit: '' (eff_files os l) p (getNumberOfOpenFiles os))"
  by (auto simp: checkResources_def andThen_def checkThreads_run checkOpenFiles_run eff_files_def
      split: sum.splits)

lemma limit_check_unknown: "\<not> limit_known m \<Longrightarrow> limit_check what m p n = Inr ()"
  by (simp add: limit_check_def)

lemma limit_check_small:
  assumes "m < 2 ^ 24" and "0 \<le> p" and "p \<le> 1" and "0 \<le> i" and "i < 2 ^ 63"
  shows "\<exists>k. is_share p m k \<and> limit_check what m p (Inr i) =
    (if limit_known m \<and> int k < i
     then Inl (KurentoException NOT_ENOUGH_RESOURCES (what @ to_string_nat k)) else Inr ())"
proof -
  obtain k where k: "is_share p m k" "scaled_limit m p = Inr k"
    using scaled_limit_small [OF assms(1-3)] by blast
  have "i mod 2 ^ 64 = i" using assms(4,5) by simp
  then have "k < long_to_rlim i \<longleftrightarrow> int k < i"
    using assms(4) by (simp add: long_to_rlim_def nat_less_eq_zless zless_nat_eq_int_zless)
  with k show ?thesis by (auto simp: limit_check_def)
qed

section \<open>Properties\<close>

text \<open>
  C31. \<open>get_int\<close> returns the number in the field it is asked for, the fields being the maximal
  runs without the separator, counted from zero; 0 if there are too few. The exception is a
  field at the very end of the line: its end is written outside the string.
\<close>

theorem get_int_reads_field: "get_int str sep nToken = nth_field sep str nToken"
  by (rule get_int_field)

text \<open>
  C30. The guard raises for one reason only: with system limits below \<open>2\<^sup>2\<^sup>4\<close>, a share of at most
  one and readable counters, \<open>checkResources\<close> raises \<open>NOT_ENOUGH_RESOURCES\<close> exactly if the number of
  threads, or else of open files, is above the configured share of a known limit, and passes
  otherwise; the message says the share. The share is the limit times the percentage with the fraction
  cut off, or the next number where the product is within one half of it, which is what single
  precision may add. A limit is known if it is neither zero nor unlimited.
\<close>

theorem checkResources_decides:
  assumes "eff_threads os l < 2 ^ 24" and "eff_files os l < 2 ^ 24" and "0 \<le> p" and "p \<le> 1"
    and "getNumberOfThreads os = Inr nt" and "0 \<le> nt" and "nt < 2 ^ 63"
    and "os_fds os = Some fds" and "length fds < 2 ^ 63"
  shows "\<exists>kt kf. is_share p (eff_threads os l) kt \<and> is_share p (eff_files os l) kf \<and>
    fst (checkResources os p l) =
      (if limit_known (eff_threads os l) \<and> int kt < nt then
         Inl (KurentoException NOT_ENOUGH_RESOURCES (''Reached KMS threads limit: '' @ to_string_nat kt))
       else if limit_known (eff_files os l) \<and> kf < length fds then
         Inl (KurentoException NOT_ENOUGH_RESOURCES (''Reached KMS files limit: '' @ to_string_nat kf))
       else Inr ())"
proof -
  obtain kt where kt: "is_share p (eff_threads os l) kt"
    "limit_check ''Reached KMS threads limit: '' (eff_threads os l) p (Inr nt) =
      (if limit_known (eff_threads os l) \<and> int kt < nt
       then Inl (KurentoException NOT_ENOUGH_RESOURCES (''Reached KMS threads limit: '' @ to_string_nat kt))
       else Inr ())"
    using limit_check_small [OF assms(1,3,4,6,7)] by blast
  have "int (length fds) < 2 ^ 63" using assms(9) by (metis of_nat_less_iff of_nat_numeral of_nat_power)
  then obtain kf where kf: "is_share p (eff_files os l) kf"
    "limit_check ''Reached KMS files limit: '' (eff_files os l) p (Inr (int (length fds))) =
      (if limit_known (eff_files os l) \<and> int kf < int (length fds)
       then Inl (KurentoException NOT_ENOUGH_RESOURCES (''Reached KMS files limit: '' @ to_string_nat kf))
       else Inr ())"
    using limit_check_small [OF assms(2,3,4), of "int (length fds)"] by fastforce
  have "getNumberOfOpenFiles os = Inr (int (length fds))"
    by (simp add: getNumberOfOpenFiles_def assms(8))
  then show ?thesis
    using kt(1) kf(1)
    by (intro exI [of _ kt] exI [of _ kf]) (simp add: checkResources_result assms(5) kt(2) kf(2))
qed

definition demo_os :: os_view where
  "demo_os = \<lparr>os_nproc = 100, os_nofile = RLIM_INFINITY,
     os_stat = ''1 2 3 4 5 6 7 8 9 10 11 12 13 14 15 16 17 18 19 90 21'', os_fds = Some []\<rparr>"

lemma demo_threads: "getNumberOfThreads demo_os = Inr 90"
proof -
  have "tokens CHR '' '' (os_stat demo_os) = [''1'', ''2'', ''3'', ''4'', ''5'', ''6'', ''7'', ''8'', ''9'', ''10'',
      ''11'', ''12'', ''13'', ''14'', ''15'', ''16'', ''17'', ''18'', ''19'', ''90'', ''21'']"
    by (simp add: demo_os_def tokens.simps)
  moreover have "atol ''90'' = 90" by code_simp
  ultimately show ?thesis
    by (simp add: getNumberOfThreads_def get_int_field nth_field_def unterminated_def)
qed

text \<open>90 threads, of a limit of 100, are above four fifths of it.\<close>

theorem checkResources_decides_witness:
  "fst (checkResources demo_os (4 / 5) \<lparr>lc_threads = 0, lc_files = 50\<rparr>) =
    Inl (KurentoException NOT_ENOUGH_RESOURCES ''Reached KMS threads limit: 80'')"
proof -
  let ?l = "\<lparr>lc_threads = 0, lc_files = 50\<rparr>"
  have eff: "eff_threads demo_os ?l = 100" "eff_files demo_os ?l = 50"
    by (simp_all add: eff_threads_def eff_files_def demo_os_def)
  have share: "k = 80" if "is_share (4 / 5) 100 k" for k
  proof -
    have "(of_nat 79 :: rat) < of_nat k" "(of_nat k :: rat) < of_nat 81" using that by (simp_all add: is_share_def)
    then show ?thesis unfolding of_nat_less_iff by simp
  qed
  have "\<exists>kt kf. is_share (4 / 5) 100 kt \<and> is_share (4 / 5) 50 kf \<and> fst (checkResources demo_os (4 / 5) ?l) =
      (if limit_known 100 \<and> int kt < 90 then
         Inl (KurentoException NOT_ENOUGH_RESOURCES (''Reached KMS threads limit: '' @ to_string_nat kt))
       else if limit_known 50 \<and> kf < length ([] :: string list) then
         Inl (KurentoException NOT_ENOUGH_RESOURCES (''Reached KMS files limit: '' @ to_string_nat kf))
       else Inr ())"
    using demo_threads checkResources_decides [of demo_os ?l "4 / 5" 90 "[]"]
    unfolding eff by (simp add: demo_os_def)
  then have "fst (checkResources demo_os (4 / 5) ?l) =
      Inl (KurentoException NOT_ENOUGH_RESOURCES (''Reached KMS threads limit: '' @ to_string_nat 80))"
    by (auto dest!: share simp: limit_known_def RLIM_INFINITY_def)
  moreover have "to_string_nat 80 = ''80''" by code_simp
  ultimately show ?thesis by simp
qed

text \<open>
  C32. The limits are read once: when both have been read, later checks depend on the counters
  only, whatever the system's limits have become, and keep the limits read.
\<close>

theorem limits_read_once:
  assumes "lc_threads l \<noteq> 0" and "lc_files l \<noteq> 0"
  shows "checkResources (os\<lparr>os_nproc := a, os_nofile := b\<rparr>) p l = checkResources os p l \<and>
    snd (checkResources os p l) = l"
proof -
  have "getNumberOfThreads (os\<lparr>os_nproc := a, os_nofile := b\<rparr>) = getNumberOfThreads os"
    "getNumberOfOpenFiles (os\<lparr>os_nproc := a, os_nofile := b\<rparr>) = getNumberOfOpenFiles os"
    by (simp_all add: getNumberOfThreads_def getNumberOfOpenFiles_def)
  moreover have "eff_threads o' l = lc_threads l" "eff_files o' l = lc_files l" for o'
    using assms by (simp_all add: eff_threads_def eff_files_def)
  ultimately show ?thesis by (simp add: checkResources_run split: sum.split)
qed

theorem limits_read_once_witness:
  "checkResources (demo_os\<lparr>os_nproc := 1, os_nofile := 1\<rparr>) (4 / 5) \<lparr>lc_threads = 7, lc_files = 8\<rparr> =
     checkResources demo_os (4 / 5) \<lparr>lc_threads = 7, lc_files = 8\<rparr> \<and>
   snd (checkResources demo_os (4 / 5) \<lparr>lc_threads = 7, lc_files = 8\<rparr>) = \<lparr>lc_threads = 7, lc_files = 8\<rparr>"
  by (rule limits_read_once) simp_all

end
