(* ===== verification/Config_Env.thy ===== *)
theory Config_Env
  imports Json_Model
begin

text \<open>
  Reading the configuration. A \<open>boost::property_tree::ptree\<close> belongs to a library: it is a type
  \<open>'t\<close> with the reading functions the server calls as the fields of \<open>config_env\<close>, each the
  value at a path, if the path exists and its text converts. \<open>get<T> (path, d)\<close> falls back to
  \<open>d\<close>, \<open>get<T> (path)\<close> throws a \<open>ptree_error\<close>.
\<close>

record 't config_env =
  cf_int :: "'t \<Rightarrow> string \<Rightarrow> int option"
  cf_uint :: "'t \<Rightarrow> string \<Rightarrow> nat option"
  cf_port :: "'t \<Rightarrow> string \<Rightarrow> nat option" \<comment> \<open>\<open>uint16_t\<close>\<close>
  cf_bool :: "'t \<Rightarrow> string \<Rightarrow> bool option"
  cf_float :: "'t \<Rightarrow> string \<Rightarrow> rat option"
  cf_string :: "'t \<Rightarrow> string \<Rightarrow> string option"

definition get_or :: "'a option \<Rightarrow> 'a \<Rightarrow> 'a" where
  "get_or x d = (case x of None \<Rightarrow> d | Some v \<Rightarrow> v)"

definition get_or_throw :: "string \<Rightarrow> 'a option \<Rightarrow> ('s, exn, 'a) prog" where
  "get_or_throw path x = (case x of None \<Rightarrow> raise (PtreeError path) | Some v \<Rightarrow> ret v)"

lemma get_or_simps [simp]: "get_or None d = d" "get_or (Some v) d = v"
  by (simp_all add: get_or_def)

lemma get_or_throw_simps [simp]:
  "get_or_throw path None s = (Inl (PtreeError path), s)" "get_or_throw path (Some v) s = (Inr v, s)"
  by (simp_all add: get_or_throw_def)

lemma wp_get_or_throw [wp_simps]:
  "wp (get_or_throw path x) Q X s \<longleftrightarrow> (case x of None \<Rightarrow> X (PtreeError path) s | Some v \<Rightarrow> Q v s)"
  by (simp add: get_or_throw_def wp_simps split: option.split)

text \<open>A configuration given as a list of paths and texts, for the examples.\<close>

definition demo_config :: "(string \<times> string) list config_env" where
  "demo_config =
     \<lparr>cf_int = (\<lambda>t p. case map_of t p of Some ''8888'' \<Rightarrow> Some 8888 | Some ''7'' \<Rightarrow> Some 7 | _ \<Rightarrow> None),
      cf_uint = (\<lambda>t p. case map_of t p of Some ''7'' \<Rightarrow> Some 7 | Some ''0'' \<Rightarrow> Some 0 | _ \<Rightarrow> None),
      cf_port = (\<lambda>t p. case map_of t p of Some ''8888'' \<Rightarrow> Some 8888 | _ \<Rightarrow> None),
      cf_bool = (\<lambda>t p. case map_of t p of Some ''true'' \<Rightarrow> Some True | Some ''false'' \<Rightarrow> Some False
                                        | _ \<Rightarrow> None),
      cf_float = (\<lambda>t p. None),
      cf_string = (\<lambda>t p. map_of t p)\<rparr>"

end
