(* ===== verification/Server_Env.thy ===== *)
theory Server_Env
  imports Request_Cache Resource_Manager Config_Env
begin

text \<open>
  What \<open>server/ServerMethods.cpp\<close> calls and does not define, and the state it works on. The
  JSON-RPC library (\<open>JsonRpc::getValue\<close> and its kin, conversions of a \<open>Json::Value\<close>, parser and
  writer), the core library (\<open>MediaSet\<close>, media objects, factories, \<open>generateUUID\<close>, the type
  name of a \<open>KurentoException\<close>) and the operating system are fields of \<open>kms_env\<close>, a parameter.
  Everything outside the server is the world \<open>'w\<close>; an object is an \<open>'o\<close>, a factory an \<open>'f\<close>, an
  event handler an \<open>'h\<close>. The library's JSON functions read only and so return a result or an
  exception; the others are programs on the world.
\<close>

record module_info =
  mi_version :: string
  mi_name :: string
  mi_generationTime :: string
  mi_factories :: "string list"

record server_info =
  si_version :: string
  si_modules :: "module_info list"
  si_type :: string
  si_capabilities :: "string list"

record ('w, 'o, 'f, 'h) kms_env =
  getString :: "json \<Rightarrow> string \<Rightarrow> exn + string"
  getBool :: "json \<Rightarrow> string \<Rightarrow> exn + bool"
  getJson :: "json \<Rightarrow> string \<Rightarrow> exn + json"
  getArray :: "json \<Rightarrow> string \<Rightarrow> exn + json"
  isConvString :: "json \<Rightarrow> bool"
  asString :: "json \<Rightarrow> string"
  isConvUInt :: "json \<Rightarrow> bool"
  asUInt :: "json \<Rightarrow> exn + nat"
  parseJson :: "string \<Rightarrow> json option"
  writeJson :: "json \<Rightarrow> string"
  serializeStrings :: "string list \<Rightarrow> json"
  kms_type :: "kcode \<Rightarrow> string"
  genUUID :: "'w \<Rightarrow> string \<times> 'w"
  osView :: "'w \<Rightarrow> os_view"
  ms_keepAliveSession :: "string \<Rightarrow> ('w, exn, unit) prog"
  ms_getMediaObject :: "string \<Rightarrow> string \<Rightarrow> ('w, exn, 'o option) prog"
  ms_release :: "string \<Rightarrow> ('w, exn, unit) prog"
  ms_ref :: "string \<Rightarrow> string \<Rightarrow> ('w, exn, unit) prog"
  ms_unref :: "string \<Rightarrow> string \<Rightarrow> ('w, exn, unit) prog"
  ms_removeEventHandler :: "string \<Rightarrow> string \<Rightarrow> string \<Rightarrow> ('w, exn, unit) prog"
  ms_addEventHandler :: "string \<Rightarrow> string \<Rightarrow> string \<Rightarrow> 'h \<Rightarrow> ('w, exn, unit) prog"
  ms_releaseSession :: "string \<Rightarrow> ('w, exn, unit) prog"
  ms_unrefSession :: "string \<Rightarrow> ('w, exn, unit) prog"
  obj_getId :: "'o \<Rightarrow> string"
  obj_getType :: "'o \<Rightarrow> string"
  obj_getQualifiedType :: "'o \<Rightarrow> string"
  obj_getHierarchy :: "'o \<Rightarrow> string list"
  obj_invoke :: "'o \<Rightarrow> string \<Rightarrow> json \<Rightarrow> ('w, exn, json) prog"
  obj_connect :: "'o \<Rightarrow> string \<Rightarrow> 'h \<Rightarrow> ('w, exn, bool) prog"
  mm_getFactory :: "string \<Rightarrow> ('w, exn, 'f) prog"
  mm_getModules :: "'w \<Rightarrow> (string \<times> module_info) list" \<comment> \<open>by name, with the names of the factories\<close>
  ms_getCollectorInterval :: "'w \<Rightarrow> int"
  ms_setCollectorInterval :: "int \<Rightarrow> ('w, exn, unit) prog"
  ms_setServerManager :: "server_info \<Rightarrow> ('w, exn, unit) prog"
  fac_createObject :: "'f \<Rightarrow> string \<Rightarrow> json \<Rightarrow> ('w, exn, 'o option) prog"

text \<open>
  The documented contract of \<open>getValue\<close> for strings and for values: a string member is
  returned, a missing member is a \<open>CallException\<close>, an object without the member too.
\<close>

definition reads_members :: "('w, 'o, 'f, 'h) kms_env \<Rightarrow> bool" where
  "reads_members E \<longleftrightarrow>
     (\<forall>v k s. jmember v k = Some (JString s) \<longrightarrow> getString E v k = Inr s) \<and>
     (\<forall>v k w. jmember v k = Some w \<longrightarrow> getJson E v k = Inr w) \<and>
     (\<forall>v k. jmember v k = None \<and> (isObject v \<or> v = JNull) \<longrightarrow>
        (\<exists>c m d. getString E v k = Inl (CallException c m d)) \<and>
        (\<exists>c m d. getJson E v k = Inl (CallException c m d)))"

text \<open>The server object: its response cache, the cached limits, the constants set at construction.\<close>

record 'w server =
  srv_cache :: request_cache
  srv_limits :: limit_cache
  srv_resourceLimitPercent :: rat
  srv_instanceId :: string
  srv_world :: 'w

definition onWorld :: "('w, exn, 'a) prog \<Rightarrow> ('w server, exn, 'a) prog" where
  "onWorld = zoom srv_world (\<lambda>w s. s\<lparr>srv_world := w\<rparr>)"

definition generateUUID :: "('w, 'o, 'f, 'h) kms_env \<Rightarrow> ('w server, exn, string) prog" where
  "generateUUID E = onWorld (\<lambda>w. case genUUID E w of (u, w') \<Rightarrow> (Inr u, w'))"

lemma onWorld_run [simp, prog_simps]: "m (srv_world s) = (r, w) \<Longrightarrow> onWorld m s = (r, s\<lparr>srv_world := w\<rparr>)"
  by (simp add: onWorld_def)

lemma onWorld_frame [simp]:
  "srv_cache (snd (onWorld m s)) = srv_cache s"
  "srv_limits (snd (onWorld m s)) = srv_limits s"
  "srv_resourceLimitPercent (snd (onWorld m s)) = srv_resourceLimitPercent s"
  "srv_instanceId (snd (onWorld m s)) = srv_instanceId s"
  by (simp_all add: onWorld_def zoom_def split: prod.splits)

lemma generateUUID_run [simp, prog_simps]:
  "genUUID E (srv_world s) = (u, w) \<Longrightarrow> generateUUID E s = (Inr u, s\<lparr>srv_world := w\<rparr>)"
  by (simp add: generateUUID_def)

lemma wp_onWorld [wp_simps]:
  "wp (onWorld m) Q X s \<longleftrightarrow>
     wp m (\<lambda>x w. Q x (s\<lparr>srv_world := w\<rparr>)) (\<lambda>e w. X e (s\<lparr>srv_world := w\<rparr>)) (srv_world s)"
  by (simp add: onWorld_def wp_simps)

lemma wp_generateUUID [wp_simps]:
  "wp (generateUUID E) Q X s \<longleftrightarrow>
     (case genUUID E (srv_world s) of (u, w) \<Rightarrow> Q u (s\<lparr>srv_world := w\<rparr>))"
  by (simp add: generateUUID_def wp_simps) (simp add: wp_def split: prod.splits)

section \<open>Keys of the protocol\<close>

abbreviation "SESSION_ID \<equiv> ''sessionId''"
abbreviation "VALUE \<equiv> ''value''"
abbreviation "OBJECT \<equiv> ''object''"
abbreviation "SUBSCRIPTION \<equiv> ''subscription''"
abbreviation "TYPE_KEY \<equiv> ''type''"
abbreviation "QUALIFIED_TYPE \<equiv> ''qualifiedType''"
abbreviation "HIERARCHY \<equiv> ''hierarchy''"
abbreviation "JSON_RPC_ID \<equiv> ''id''"
abbreviation "JSON_RPC_PARAMS \<equiv> ''params''"
abbreviation "JSON_RPC_RESULT \<equiv> ''result''"
abbreviation "JSON_RPC_ERROR \<equiv> ''error''"

section \<open>A concrete environment\<close>

text \<open>
  Values for the parameters, for the examples: members are read as they are, numbers convert to
  strings, the world is a counter of generated ids and the log of the calls that reached the
  core library.
\<close>

record demo_world =
  dw_uuid :: nat
  dw_calls :: "string list"

definition demo_call :: "string \<Rightarrow> (demo_world, exn, unit) prog" where
  "demo_call what w = (Inr (), w\<lparr>dw_calls := dw_calls w @ [what]\<rparr>)"

definition demo_missing :: "string \<Rightarrow> exn" where
  "demo_missing k = CallException (Rpc INVALID_PARAMS) (''missing '' @ k) JNull"

definition demo_getString :: "json \<Rightarrow> string \<Rightarrow> exn + string" where
  "demo_getString v k =
     (case jmember v k of
        Some (JString s) \<Rightarrow> Inr s
      | Some (JInt i) \<Rightarrow> Inr (to_string_int i)
      | _ \<Rightarrow> Inl (demo_missing k))"

definition demo_getJson :: "json \<Rightarrow> string \<Rightarrow> exn + json" where
  "demo_getJson v k = (case jmember v k of Some w \<Rightarrow> Inr w | None \<Rightarrow> Inl (demo_missing k))"

definition demo_env_of :: "(demo_world, string, string, 'h) kms_env" where
  "demo_env_of =
     \<lparr>getString = demo_getString,
      getBool = (\<lambda>v k. case jmember v k of Some (JBool b) \<Rightarrow> Inr b | _ \<Rightarrow> Inl (demo_missing k)),
      getJson = demo_getJson,
      getArray = (\<lambda>v k. case jmember v k of
         Some (JArray vs) \<Rightarrow> Inr (JArray vs) | _ \<Rightarrow> Inl (demo_missing k)),
      isConvString = (\<lambda>v. case v of JString _ \<Rightarrow> True | _ \<Rightarrow> False),
      asString = (\<lambda>v. case v of JString s \<Rightarrow> s | _ \<Rightarrow> []),
      isConvUInt = (\<lambda>v. case v of JInt i \<Rightarrow> 0 \<le> i | _ \<Rightarrow> False),
      asUInt = (\<lambda>v. case v of JInt i \<Rightarrow> if 0 \<le> i then Inr (nat i) else Inl JsonLogicError
                            | _ \<Rightarrow> Inl JsonLogicError),
      parseJson = (\<lambda>s. if s = ''null'' then Some JNull else None),
      writeJson = (\<lambda>v. case v of JNull \<Rightarrow> ''null'' | _ \<Rightarrow> ''json''),
      serializeStrings = (\<lambda>ss. JArray (map JString ss)),
      kms_type = (\<lambda>c. case c of INVALID_SESSION \<Rightarrow> ''INVALID_SESSION'' | _ \<Rightarrow> ''OTHER''),
      genUUID = (\<lambda>w. (''u'' @ to_string_nat (dw_uuid w), w\<lparr>dw_uuid := Suc (dw_uuid w)\<rparr>)),
      osView = (\<lambda>_. demo_os),
      ms_keepAliveSession = (\<lambda>s. if s = ''fake'' then raise (KurentoException INVALID_SESSION ''no session'')
                               else demo_call (''keepAlive '' @ s)),
      ms_getMediaObject = (\<lambda>s i w. (Inr (Some i), w)),
      ms_release = (\<lambda>i. demo_call (''release '' @ i)),
      ms_ref = (\<lambda>s i. demo_call (''ref '' @ i)),
      ms_unref = (\<lambda>s i. demo_call (''unref '' @ i)),
      ms_removeEventHandler = (\<lambda>s i b. demo_call (''removeEventHandler '' @ b)),
      ms_addEventHandler = (\<lambda>s i b h. demo_call (''addEventHandler '' @ b)),
      ms_releaseSession = (\<lambda>s. demo_call (''releaseSession '' @ s)),
      ms_unrefSession = (\<lambda>s. demo_call (''unrefSession '' @ s)),
      obj_getId = (\<lambda>i. i),
      obj_getType = (\<lambda>i. ''T''),
      obj_getQualifiedType = (\<lambda>i. ''kurento.T''),
      obj_getHierarchy = (\<lambda>i. [''kurento.MediaObject'']),
      obj_invoke = (\<lambda>i m v w. (Inr (JString m), w)),
      obj_connect = (\<lambda>i e h w. (Inr True, w)),
      mm_getFactory = (\<lambda>t w. (Inr t, w)),
      mm_getModules = (\<lambda>_. []),
      ms_getCollectorInterval = (\<lambda>_. 240),
      ms_setCollectorInterval = (\<lambda>i. demo_call ''setCollectorInterval''),
      ms_setServerManager = (\<lambda>i. demo_call ''setServerManager''),
      fac_createObject = (\<lambda>t s v w. (Inr (Some (''obj_'' @ t)), w\<lparr>dw_calls := dw_calls w @ [''create '' @ t]\<rparr>))\<rparr>"

abbreviation demo_env :: "(demo_world, string, string, string) kms_env" where
  "demo_env \<equiv> demo_env_of"

lemmas demo_env_def = demo_env_of_def

definition demo_server :: "demo_world server" where
  "demo_server =
     \<lparr>srv_cache = request_cache_init 20000, srv_limits = limits_init,
      srv_resourceLimitPercent = 4 / 5, srv_instanceId = ''server'',
      srv_world = \<lparr>dw_uuid = 0, dw_calls = []\<rparr>\<rparr>"

lemma demo_env_simps [simp]:
  "getString demo_env_of = demo_getString" "getJson demo_env_of = demo_getJson"
  "genUUID demo_env_of = (\<lambda>w. (''u'' @ to_string_nat (dw_uuid w), w\<lparr>dw_uuid := Suc (dw_uuid w)\<rparr>))"
  by (simp_all add: demo_env_def)

lemma demo_reads_members: "reads_members demo_env"
  by (auto simp: reads_members_def demo_getString_def demo_getJson_def demo_missing_def)

end
