(* ===== verification/Server_Methods.thy ===== *)
theory Server_Methods
  imports Server_Env
begin

text \<open>
  The RPC methods of \<open>server/ServerMethods.cpp\<close>, one definition each, with their helpers. A
  method takes the request's parameters and the response value the library hands it, and
  returns the response with its members set; the two methods that involve other requests
  (\<open>transaction\<close> and the hooks of the request cache) are in \<open>Server_Rpc\<close>.
\<close>

section \<open>Helpers\<close>

definition requireParams :: "json \<Rightarrow> ('s, exn, unit) prog" where
  "requireParams params =
     (if params = JNull then
        raise (CallException (Rpc INVALID_PARAMS) ('''params' is required'')
          (JObject [(TYPE_KEY, JString ''INVALID_PARAMS'')]))
      else ret ())"

text \<open>The session of the parameters, or a fresh one; the flag says whether it was given.\<close>

definition getOrCreateSessionId ::
  "('w, 'o, 'f, 'h) kms_env \<Rightarrow> json \<Rightarrow> ('w server, exn, string \<times> bool) prog" where
  "getOrCreateSessionId E params =
     catch_call
       (andThen (lift (getString E params SESSION_ID)) (\<lambda>sid. ret (sid, True)))
       (andThen (generateUUID E) (\<lambda>sid. ret (sid, False)))"

text \<open>The \<open>catch\<close> block of the methods: a \<open>KurentoException\<close> becomes an RPC error.\<close>

definition call_exception :: "('w, 'o, 'f, 'h) kms_env \<Rightarrow> kcode \<Rightarrow> string \<Rightarrow> exn" where
  "call_exception E code msg =
     CallException (Kms code) msg (JObject [(TYPE_KEY, JString (kms_type E code))])"

definition rethrow_kurento ::
  "('w, 'o, 'f, 'h) kms_env \<Rightarrow> ('s, exn, 'a) prog \<Rightarrow> ('s, exn, 'a) prog" where
  "rethrow_kurento E m =
     handle m (\<lambda>e. case e of KurentoException code msg \<Rightarrow> raise (call_exception E code msg)
                           | _ \<Rightarrow> raise e)"

definition put :: "string \<Rightarrow> json \<Rightarrow> json \<Rightarrow> ('s, exn, json) prog" where
  "put k v response = lift (jput k v response)"

text \<open>A member call through a \<open>shared_ptr\<close>.\<close>

definition deref :: "'o option \<Rightarrow> ('s, exn, 'o) prog" where
  "deref p = (case p of None \<Rightarrow> raise NullPointer | Some obj \<Rightarrow> ret obj)"

section \<open>Objects and sessions\<close>

definition describe ::
  "('w, 'o, 'f, 'h) kms_env \<Rightarrow> json \<Rightarrow> json \<Rightarrow> ('w server, exn, json) prog" where
  "describe E params response =
     andThen (requireParams params) (\<lambda>_.
     andThen (getOrCreateSessionId E params) (\<lambda>(sessionId, _).
     andThen (lift (getString E params OBJECT)) (\<lambda>objectId.
     andThen (rethrow_kurento E (onWorld (ms_getMediaObject E sessionId objectId))) (\<lambda>p.
     andThen (put SESSION_ID (JString sessionId) response) (\<lambda>response.
     andThen (deref p) (\<lambda>obj.
     andThen (put TYPE_KEY (JString (obj_getType E obj)) response) (\<lambda>response.
     andThen (put QUALIFIED_TYPE (JString (obj_getQualifiedType E obj)) response) (\<lambda>response.
     put HIERARCHY (serializeStrings E (obj_getHierarchy E obj)) response))))))))"

definition keepAlive ::
  "('w, 'o, 'f, 'h) kms_env \<Rightarrow> json \<Rightarrow> json \<Rightarrow> ('w server, exn, json) prog" where
  "keepAlive E params response =
     andThen (requireParams params) (\<lambda>_.
     andThen (lift (getString E params SESSION_ID)) (\<lambda>sessionId.
     andThen (rethrow_kurento E (onWorld (ms_keepAliveSession E sessionId))) (\<lambda>_.
     put SESSION_ID (JString sessionId) response)))"

definition release ::
  "('w, 'o, 'f, 'h) kms_env \<Rightarrow> json \<Rightarrow> json \<Rightarrow> ('w server, exn, json) prog" where
  "release E params response =
     andThen (requireParams params) (\<lambda>_.
     andThen (lift (getString E params OBJECT)) (\<lambda>objectId.
     andThen (getOrCreateSessionId E params) (\<lambda>(sessionId, _).
     andThen (rethrow_kurento E (onWorld (ms_release E objectId))) (\<lambda>_.
     put SESSION_ID (JString sessionId) response))))"

definition ref_object ::
  "('w, 'o, 'f, 'h) kms_env \<Rightarrow> json \<Rightarrow> json \<Rightarrow> ('w server, exn, json) prog" where
  "ref_object E params response =
     andThen (requireParams params) (\<lambda>_.
     andThen (lift (getString E params OBJECT)) (\<lambda>objectId.
     andThen (lift (getString E params SESSION_ID)) (\<lambda>sessionId.
     andThen (rethrow_kurento E (onWorld (ms_ref E sessionId objectId))) (\<lambda>_.
     put SESSION_ID (JString sessionId) response))))"

definition unref_object ::
  "('w, 'o, 'f, 'h) kms_env \<Rightarrow> json \<Rightarrow> json \<Rightarrow> ('w server, exn, json) prog" where
  "unref_object E params response =
     andThen (requireParams params) (\<lambda>_.
     andThen (lift (getString E params OBJECT)) (\<lambda>objectId.
     andThen (lift (getString E params SESSION_ID)) (\<lambda>sessionId.
     andThen (rethrow_kurento E (onWorld (ms_unref E sessionId objectId))) (\<lambda>_.
     put SESSION_ID (JString sessionId) response))))"

section \<open>Events\<close>

definition unsubscribe ::
  "('w, 'o, 'f, 'h) kms_env \<Rightarrow> json \<Rightarrow> json \<Rightarrow> ('w server, exn, json) prog" where
  "unsubscribe E params response =
     andThen (requireParams params) (\<lambda>_.
     andThen (lift (getString E params OBJECT)) (\<lambda>objectId.
     andThen (lift (getString E params SUBSCRIPTION)) (\<lambda>subscription.
     andThen (lift (getString E params SESSION_ID)) (\<lambda>sessionId.
     andThen (onWorld (ms_removeEventHandler E sessionId objectId subscription)) (\<lambda>_.
     put SESSION_ID (JString sessionId) response)))))"

definition registerEventHandler ::
  "('w, 'o, 'f, 'h) kms_env \<Rightarrow> 'o \<Rightarrow> string \<Rightarrow> string \<Rightarrow> 'h \<Rightarrow> ('w server, exn, unit) prog" where
  "registerEventHandler E obj sessionId subscriptionId handler =
     onWorld (ms_addEventHandler E sessionId (obj_getId E obj) subscriptionId handler)"

definition connectEventHandler ::
  "('w, 'o, 'f, 'h) kms_env \<Rightarrow> 'o \<Rightarrow> string \<Rightarrow> string \<Rightarrow> 'h \<Rightarrow> ('w server, exn, string) prog" where
  "connectEventHandler E obj sessionId eventType handler =
     andThen (onWorld (obj_connect E obj eventType handler)) (\<lambda>connected.
       if \<not> connected then
         raise (KurentoException MEDIA_OBJECT_EVENT_NOT_SUPPORTED ''Event not found'')
       else
         andThen (generateUUID E) (\<lambda>subscriptionId.
         andThen (registerEventHandler E obj sessionId subscriptionId handler) (\<lambda>_.
         ret subscriptionId)))"

text \<open>The transport's subscription handler, if one is set: an empty \<open>std::function\<close> throws.\<close>

type_synonym ('w, 'o) subscription_handler =
  "'o option \<Rightarrow> string \<Rightarrow> string \<Rightarrow> json \<Rightarrow> ('w server, exn, string) prog"

definition subscribe ::
  "('w, 'o, 'f, 'h) kms_env \<Rightarrow> ('w, 'o) subscription_handler option \<Rightarrow> json \<Rightarrow> json \<Rightarrow>
   ('w server, exn, json) prog" where
  "subscribe E eventSubscriptionHandler params response =
     andThen (requireParams params) (\<lambda>_.
     andThen (lift (getString E params TYPE_KEY)) (\<lambda>eventType.
     andThen (lift (getString E params OBJECT)) (\<lambda>objectId.
     andThen (getOrCreateSessionId E params) (\<lambda>(sessionId, _).
     andThen (rethrow_kurento E
       (andThen (onWorld (ms_getMediaObject E sessionId objectId)) (\<lambda>obj.
        andThen
          (handle
             (case eventSubscriptionHandler of
                None \<Rightarrow> raise BadFunctionCall
              | Some h \<Rightarrow> h obj sessionId eventType params)
             (\<lambda>e. if e = BadFunctionCall then
                    raise (KurentoException NOT_IMPLEMENTED
                      ''Current transport does not support events'')
                  else raise e)) (\<lambda>handlerId.
        if handlerId = [] then
          raise (KurentoException MEDIA_OBJECT_EVENT_NOT_SUPPORTED ''Event not found'')
        else ret handlerId)))) (\<lambda>handlerId.
     andThen (put SESSION_ID (JString sessionId) response) (\<lambda>response.
     put VALUE (JString handlerId) response))))))"

section \<open>Calls, creation, connection\<close>

definition invoke ::
  "('w, 'o, 'f, 'h) kms_env \<Rightarrow> json \<Rightarrow> json \<Rightarrow> ('w server, exn, json) prog" where
  "invoke E params response =
     andThen (requireParams params) (\<lambda>_.
     andThen (lift (getString E params ''operation'')) (\<lambda>operation.
     andThen (lift (getString E params OBJECT)) (\<lambda>objectId.
     andThen (catch_call (lift (getJson E params ''operationParams'')) (ret JNull)) (\<lambda>operationParams.
     andThen (getOrCreateSessionId E params) (\<lambda>(sessionId, _).
     rethrow_kurento E
       (andThen (onWorld (ms_getMediaObject E sessionId objectId)) (\<lambda>p.
        case p of
          None \<Rightarrow> raise (KurentoException MEDIA_OBJECT_NOT_FOUND ''Object not found'')
        | Some obj \<Rightarrow>
            andThen (onWorld (obj_invoke E obj operation operationParams)) (\<lambda>value.
            andThen (put VALUE value response) (\<lambda>response.
            put SESSION_ID (JString sessionId) response)))))))))"

definition keepAliveSession ::
  "('w, 'o, 'f, 'h) kms_env \<Rightarrow> string \<Rightarrow> ('w server, exn, unit) prog" where
  "keepAliveSession E sessionId = onWorld (ms_keepAliveSession E sessionId)"

definition connect ::
  "('w, 'o, 'f, 'h) kms_env \<Rightarrow> json \<Rightarrow> json \<Rightarrow> ('w server, exn, json) prog" where
  "connect E params response =
     andThen
       (if params = JNull then generateUUID E
        else
          andThen (getOrCreateSessionId E params) (\<lambda>(sessionId, doKeepAlive).
          andThen (if doKeepAlive then rethrow_kurento E (keepAliveSession E sessionId) else ret ())
            (\<lambda>_. ret sessionId))) (\<lambda>sessionId.
     andThen (put SESSION_ID (JString sessionId) response) (\<lambda>response.
     andThen (reads srv_instanceId) (\<lambda>instanceId.
     put ''serverId'' (JString instanceId) response)))"

text \<open>The resource check works on the cached limits and what the system reports now.\<close>

definition checkResourcesNow :: "('w, 'o, 'f, 'h) kms_env \<Rightarrow> ('w server, exn, unit) prog" where
  "checkResourcesNow E s =
     zoom srv_limits (\<lambda>l s. s\<lparr>srv_limits := l\<rparr>)
       (checkResources (osView E (srv_world s)) (srv_resourceLimitPercent s)) s"

definition create ::
  "('w, 'o, 'f, 'h) kms_env \<Rightarrow> json \<Rightarrow> json \<Rightarrow> ('w server, exn, json) prog" where
  "create E params response =
     andThen (requireParams params) (\<lambda>_.
     andThen (lift (getString E params TYPE_KEY)) (\<lambda>type.
     andThen (catch_call (lift (getString E params SESSION_ID)) (generateUUID E)) (\<lambda>sessionId.
     rethrow_kurento E
       (andThen (onWorld (mm_getFactory E type)) (\<lambda>factory.
        andThen (checkResourcesNow E) (\<lambda>_.
        andThen (lift (jget params ''constructorParams'')) (\<lambda>constructorParams.
        andThen (onWorld (fac_createObject E factory sessionId constructorParams)) (\<lambda>p.
        andThen (deref p) (\<lambda>object.
        andThen (put VALUE (JString (obj_getId E object)) response) (\<lambda>response.
        put SESSION_ID (JString sessionId) response))))))))))"

definition ping ::
  "('w, 'o, 'f, 'h) kms_env \<Rightarrow> json \<Rightarrow> json \<Rightarrow> ('w server, exn, json) prog" where
  "ping E params response =
     andThen
       (catch_call
          (andThen (lift (getString E params SESSION_ID)) (\<lambda>sessionId.
             put SESSION_ID (JString sessionId) response))
          (ret response)) (\<lambda>response.
     put VALUE (JString ''pong'') response)"

definition closeSession ::
  "('w, 'o, 'f, 'h) kms_env \<Rightarrow> json \<Rightarrow> json \<Rightarrow> ('w server, exn, json) prog" where
  "closeSession E params response =
     andThen (requireParams params) (\<lambda>_.
     andThen (catch_call (lift (getBool E params ''release'')) (ret False)) (\<lambda>release.
     andThen (lift (getString E params SESSION_ID)) (\<lambda>sessionId.
     andThen
       (if release then onWorld (ms_releaseSession E sessionId)
        else onWorld (ms_unrefSession E sessionId)) (\<lambda>_.
     ret response))))"

section \<open>Lemmas\<close>

named_theorems method_defs "the methods and their helpers"

lemmas method_helpers [method_defs] =
  registerEventHandler_def connectEventHandler_def keepAliveSession_def

lemmas simple_methods [method_defs] =
  describe_def keepAlive_def release_def ref_object_def unref_object_def unsubscribe_def
  subscribe_def invoke_def connect_def create_def ping_def closeSession_def

lemma wp_put [wp_simps]:
  "wp (put k v r) Q X s \<longleftrightarrow> (case jput k v r of Inl e \<Rightarrow> X e s | Inr r' \<Rightarrow> Q r' s)"
  by (simp add: put_def wp_simps)

lemma wp_requireParams [wp_simps]:
  "wp (requireParams params) Q X s \<longleftrightarrow>
     (if params = JNull then X (CallException (Rpc INVALID_PARAMS) ('''params' is required'')
        (JObject [(TYPE_KEY, JString ''INVALID_PARAMS'')])) s else Q () s)"
  by (simp add: requireParams_def wp_simps)

lemma wp_given_session:
  assumes "getString E params SESSION_ID = Inr sid"
  shows "wp (getOrCreateSessionId E params) Q X s \<longleftrightarrow> Q (sid, True) s"
  by (simp add: getOrCreateSessionId_def wp_simps assms)

lemma wp_deref [wp_simps]:
  "wp (deref p) Q X s \<longleftrightarrow> (case p of None \<Rightarrow> X NullPointer s | Some obj \<Rightarrow> Q obj s)"
  by (auto simp: deref_def wp_simps split: option.split)

lemma wp_rethrow [wp_simps]:
  "wp (rethrow_kurento E m) Q X s \<longleftrightarrow>
     wp m Q (\<lambda>e t. case e of KurentoException code msg \<Rightarrow> X (call_exception E code msg) t
                           | _ \<Rightarrow> X e t) s"
  by (auto simp: wp_def rethrow_kurento_def handle_def split: prod.splits sum.splits exn.splits)

lemma is_CallException_call_exception [simp]: "is_CallException (call_exception E c m)"
  by (simp add: call_exception_def)

text \<open>Every method that is given a session puts it in its reply.\<close>

lemma wp_checkResourcesNow [wp_simps]:
  "wp (checkResourcesNow E) Q X s \<longleftrightarrow>
     wp (checkResources (osView E (srv_world s)) (srv_resourceLimitPercent s))
       (\<lambda>x l. Q x (s\<lparr>srv_limits := l\<rparr>)) (\<lambda>e l. X e (s\<lparr>srv_limits := l\<rparr>)) (srv_limits s)"
  by (simp add: checkResourcesNow_def wp_def zoom_def split: prod.splits sum.splits)

definition carries :: "string \<Rightarrow> json \<Rightarrow> bool" where
  "carries sid r \<longleftrightarrow> jmember r SESSION_ID = Some (JString sid)"

lemma carries_put [simp]:
  "jput k v r = Inr r' \<Longrightarrow> carries sid r' \<longleftrightarrow>
     (if k = SESSION_ID then v = JString sid else carries sid r)"
  by (simp add: carries_def jput_jmember)

definition session_methods ::
  "('w, 'o, 'f, 'h) kms_env \<Rightarrow> ('w, 'o) subscription_handler option \<Rightarrow>
   (json \<Rightarrow> json \<Rightarrow> ('w server, exn, json) prog) list" where
  "session_methods E sub =
     [describe E, keepAlive E, release E, ref_object E, unref_object E, unsubscribe E,
      subscribe E sub, invoke E, connect E, create E, ping E]"

lemma methods_carry_session:
  assumes sid: "getString E params SESSION_ID = Inr sid" and given: "params \<noteq> JNull"
    and f: "f \<in> set (session_methods E sub)"
  shows "wp (f params r) (\<lambda>r' _. carries sid r') (\<lambda>_ _. True) s"
  using f unfolding session_methods_def list.set insert_iff empty_iff
  by (elim disjE FalseE; hypsubst)
    (auto simp: simple_methods keepAliveSession_def wp_simps wp_given_session [OF sid] sid given
       dest: jput_Inl split: sum.split option.split exn.split | rule wp_all)+

section \<open>What a method can throw\<close>

text \<open>
  A program's exceptions have a property. The collection has a rule for each form of program, so
  that a method's exceptions follow from those of what it calls.
\<close>

named_theorems throws_intros "programs whose exceptions have a property"

definition throws :: "('s, exn, 'a) prog \<Rightarrow> (exn \<Rightarrow> bool) \<Rightarrow> bool" where
  "throws m Q \<longleftrightarrow> (\<forall>s e t. m s = (Inl e, t) \<longrightarrow> Q e)"

lemma throwsD: "throws m Q \<Longrightarrow> m s = (Inl e, t) \<Longrightarrow> Q e"
  by (auto simp: throws_def)

lemma throws_mono: "throws m Q \<Longrightarrow> (\<And>e. Q e \<Longrightarrow> Q' e) \<Longrightarrow> throws m Q'"
  by (auto simp: throws_def)

lemma throws_andThen [throws_intros]:
  "throws m Q \<Longrightarrow> (\<And>x. throws (f x) Q) \<Longrightarrow> throws (andThen m f) Q"
  unfolding throws_def andThen_def by (fastforce split: prod.splits sum.splits)

lemma throws_ret [throws_intros]: "throws (ret x) Q" "throws (reads f) Q" "throws (generateUUID E) Q"
  by (auto simp: throws_def generateUUID_def onWorld_def zoom_def split: prod.splits)

lemma throws_raise: "Q e \<Longrightarrow> throws (raise e) Q"
  by (simp add: throws_def)

lemma throws_lift: "(\<And>e. r = Inl e \<Longrightarrow> Q e) \<Longrightarrow> throws (lift r) Q"
  by (simp add: throws_def)

lemma throws_if [throws_intros]:
  "(b \<Longrightarrow> throws m Q) \<Longrightarrow> (\<not> b \<Longrightarrow> throws n Q) \<Longrightarrow> throws (if b then m else n) Q"
  by simp

lemma throws_option [throws_intros]:
  "throws m Q \<Longrightarrow> (\<And>x. p = Some x \<Longrightarrow> throws (f x) Q) \<Longrightarrow> throws (case p of None \<Rightarrow> m | Some x \<Rightarrow> f x) Q"
  by (cases p) simp_all

lemma throws_prod [throws_intros]: "(\<And>x y. throws (f x y) Q) \<Longrightarrow> throws (case p of (x, y) \<Rightarrow> f x y) Q"
  by (cases p) simp

lemma throws_handle: "throws m R \<Longrightarrow> (\<And>e. R e \<Longrightarrow> throws (h e) Q) \<Longrightarrow> throws (handle m h) Q"
  unfolding throws_def handle_def by (fastforce split: prod.splits sum.splits)

lemma throws_catch_call [throws_intros]:
  "throws m Q \<Longrightarrow> throws h Q \<Longrightarrow> throws (catch_call m h) Q"
  unfolding catch_call_def by (rule throws_handle [where R = Q]) (auto intro: throws_raise)

lemma throws_onWorld: "throws m Q \<Longrightarrow> throws (onWorld m) Q"
  unfolding throws_def onWorld_def zoom_def by (auto split: prod.splits)

text \<open>What the library and the transport throw: a property \<open>P\<close> of every exception of theirs.\<close>

definition library_throws ::
  "(exn \<Rightarrow> bool) \<Rightarrow> ('w, 'o, 'f, 'h) kms_env \<Rightarrow> ('w, 'o) subscription_handler option \<Rightarrow> bool" where
  "library_throws P E sub \<longleftrightarrow>
     (\<forall>sid. throws (ms_keepAliveSession E sid) P) \<and>
     (\<forall>sid i. throws (ms_getMediaObject E sid i) P) \<and>
     (\<forall>i. throws (ms_release E i) P) \<and>
     (\<forall>sid i. throws (ms_ref E sid i) P) \<and>
     (\<forall>sid i. throws (ms_unref E sid i) P) \<and>
     (\<forall>obj op v. throws (obj_invoke E obj op v) P) \<and>
     (\<forall>type. throws (mm_getFactory E type) P) \<and>
     (\<forall>fac sid v. throws (fac_createObject E fac sid v) P) \<and>
     (\<forall>os p. throws (checkResources os p) P) \<and>
     (\<forall>h obj sid t v. sub = Some h \<longrightarrow> throws (h obj sid t v) P)"

text \<open>The methods with the \<open>try\<close> and \<open>catch\<close> around what they call.\<close>

definition converting_methods ::
  "('w, 'o, 'f, 'h) kms_env \<Rightarrow> ('w, 'o) subscription_handler option \<Rightarrow>
   (json \<Rightarrow> json \<Rightarrow> ('w server, exn, json) prog) list" where
  "converting_methods E sub =
     [describe E, keepAlive E, release E, ref_object E, unref_object E, subscribe E sub,
      invoke E, connect E, create E]"

fun is_KurentoException :: "exn \<Rightarrow> bool" where
  "is_KurentoException (KurentoException _ _) = True"
| "is_KurentoException _ = False"

text \<open>The errors the methods raise themselves, where the library raised none.\<close>

definition own_errors :: "(kcode \<times> string) list" where
  "own_errors =
     [(MEDIA_OBJECT_NOT_FOUND, ''Object not found''),
      (NOT_IMPLEMENTED, ''Current transport does not support events''),
      (MEDIA_OBJECT_EVENT_NOT_SUPPORTED, ''Event not found'')]"

text \<open>
  What may leave a converting method: an error in the parameters; the RPC error of a
  \<open>KurentoException\<close>, with its code and message and the type of the code as data; another exception,
  which is no \<open>KurentoException\<close>.
\<close>

definition parameter_error :: "('w, 'o, 'f, 'h) kms_env \<Rightarrow> exn \<Rightarrow> bool" where
  "parameter_error E e \<longleftrightarrow>
     e = CallException (Rpc INVALID_PARAMS) ('''params' is required'')
           (JObject [(TYPE_KEY, JString ''INVALID_PARAMS'')]) \<or>
     (\<exists>v k. getString E v k = Inl e) \<or> (\<exists>v k. getJson E v k = Inl e)"

definition converted :: "('w, 'o, 'f, 'h) kms_env \<Rightarrow> (exn \<Rightarrow> bool) \<Rightarrow> exn \<Rightarrow> bool" where
  "converted E P e \<longleftrightarrow>
     (\<exists>c msg. e = CallException (Kms c) msg (JObject [(''type'', JString (kms_type E c))]) \<and>
       (P (KurentoException c msg) \<or> (c, msg) \<in> set own_errors))"

definition method_error :: "('w, 'o, 'f, 'h) kms_env \<Rightarrow> (exn \<Rightarrow> bool) \<Rightarrow> exn \<Rightarrow> bool" where
  "method_error E P e \<longleftrightarrow>
     parameter_error E e \<or> converted E P e \<or>
     (\<not> is_KurentoException e \<and> (P e \<or> e = NullPointer \<or> e = JsonLogicError))"

lemma method_error_cases:
  "getString E v k = Inl e \<Longrightarrow> method_error E P e"
  "getJson E v k = Inl e \<Longrightarrow> method_error E P e"
  "method_error E P NullPointer" "method_error E P JsonLogicError"
  by (auto simp: method_error_def parameter_error_def)

lemma throws_reading [throws_intros]:
  "throws (lift (getString E v k)) (method_error E P)" "throws (lift (getJson E v k)) (method_error E P)"
  by (auto intro: throws_lift method_error_cases)

lemma throws_requireParams [throws_intros]: "throws (requireParams params) (method_error E P)"
  unfolding requireParams_def
  by (intro throws_if throws_raise throws_ret) (simp add: method_error_def parameter_error_def)

lemma throws_put [throws_intros]: "Q JsonLogicError \<Longrightarrow> throws (put k v r) Q"
  unfolding put_def by (rule throws_lift) (auto dest: jput_Inl)

lemma throws_deref [throws_intros]: "Q NullPointer \<Longrightarrow> throws (deref p) Q"
  unfolding deref_def by (cases p) (simp_all add: throws_raise throws_ret)

lemma throws_jget: "Q JsonLogicError \<Longrightarrow> throws (lift (jget v k)) Q"
  by (rule throws_lift) (cases v; simp)

text \<open>Within the \<open>try\<close>, before the conversion.\<close>

definition inner_error :: "(exn \<Rightarrow> bool) \<Rightarrow> exn \<Rightarrow> bool" where
  "inner_error P e \<longleftrightarrow>
     P e \<or> e = NullPointer \<or> e = JsonLogicError \<or> (\<exists>c msg. e = KurentoException c msg \<and> (c, msg) \<in> set own_errors)"

lemma inner_error_library: "P e \<Longrightarrow> inner_error P e"
  by (simp add: inner_error_def)

lemma inner_error_cases: "inner_error P NullPointer" "inner_error P JsonLogicError"
  by (simp_all add: inner_error_def)

lemma throws_own: "(c, msg) \<in> set own_errors \<Longrightarrow> throws (raise (KurentoException c msg)) (inner_error P)"
  by (simp add: throws_raise inner_error_def)

lemma throws_rethrow: "throws m (inner_error P) \<Longrightarrow> throws (rethrow_kurento E m) (method_error E P)"
  unfolding rethrow_kurento_def
proof (erule throws_handle)
  fix e
  assume "inner_error P e"
  then have "method_error E P (case e of KurentoException c msg \<Rightarrow> call_exception E c msg | _ \<Rightarrow> e)"
    by (cases e) (auto simp: inner_error_def method_error_def converted_def call_exception_def)
  then show "throws (case e of KurentoException c msg \<Rightarrow> raise (call_exception E c msg) | _ \<Rightarrow> raise e)
      (method_error E P)"
    by (cases e) (simp_all add: throws_raise)
qed

lemma throws_session [throws_intros]: "throws (getOrCreateSessionId E params) (method_error E P)"
  unfolding getOrCreateSessionId_def by (intro throws_intros)

lemma throws_library:
  assumes "library_throws P E sub"
  shows "throws (onWorld (ms_keepAliveSession E sid)) (inner_error P)"
    "throws (onWorld (ms_getMediaObject E sid i)) (inner_error P)"
    "throws (onWorld (ms_release E i)) (inner_error P)"
    "throws (onWorld (ms_ref E sid i)) (inner_error P)"
    "throws (onWorld (ms_unref E sid i)) (inner_error P)"
    "throws (onWorld (obj_invoke E obj operation v)) (inner_error P)"
    "throws (onWorld (mm_getFactory E type)) (inner_error P)"
    "throws (onWorld (fac_createObject E fac sid v)) (inner_error P)"
    "throws (checkResourcesNow E) (inner_error P)"
    "sub = Some h \<Longrightarrow> throws (h p sid t v) P"
proof -
  have P: "throws m P \<Longrightarrow> throws (onWorld m) (inner_error P)" for m :: "('w, exn, 'x) prog"
    by (rule throws_onWorld, erule throws_mono, rule inner_error_library)
  show "throws (onWorld (ms_keepAliveSession E sid)) (inner_error P)"
    "throws (onWorld (ms_getMediaObject E sid i)) (inner_error P)"
    "throws (onWorld (ms_release E i)) (inner_error P)"
    "throws (onWorld (ms_ref E sid i)) (inner_error P)"
    "throws (onWorld (ms_unref E sid i)) (inner_error P)"
    "throws (onWorld (obj_invoke E obj operation v)) (inner_error P)"
    "throws (onWorld (mm_getFactory E type)) (inner_error P)"
    "throws (onWorld (fac_createObject E fac sid v)) (inner_error P)"
    "sub = Some h \<Longrightarrow> throws (h p sid t v) P"
    using assms by (simp_all add: library_throws_def P)
  have "throws (checkResources os p) P" for os p using assms by (simp add: library_throws_def)
  note inner_error_library [OF throwsD [OF this]]
  then show "throws (checkResourcesNow E) (inner_error P)"
    unfolding throws_def checkResourcesNow_def zoom_def by (auto split: prod.splits)
qed

lemma throws_subscription:
  assumes "library_throws P E sub"
  shows "throws (handle (case sub of None \<Rightarrow> raise BadFunctionCall | Some h \<Rightarrow> h p sid t v)
      (\<lambda>e. if e = BadFunctionCall then
             raise (KurentoException NOT_IMPLEMENTED ''Current transport does not support events'')
           else raise e)) (inner_error P)"
proof (rule throws_handle)
  show "throws (case sub of None \<Rightarrow> raise BadFunctionCall | Some h \<Rightarrow> h p sid t v) (\<lambda>e. e = BadFunctionCall \<or> P e)"
    by (cases sub) (auto simp: throws_raise intro: throws_mono [OF throws_library(10) [OF assms]])
  show "throws (if e = BadFunctionCall then
        raise (KurentoException NOT_IMPLEMENTED ''Current transport does not support events'')
      else raise e) (inner_error P)" if "e = BadFunctionCall \<or> P e" for e
    using that by (auto simp: throws_own own_errors_def throws_raise inner_error_library)
qed

lemma converting_methods_throw:
  assumes lib: "library_throws P E sub" and f: "f \<in> set (converting_methods E sub)"
  shows "throws (f params r) (method_error E P)"
proof -
  note steps = throws_intros throws_rethrow throws_library(1-9) [OF lib] throws_subscription [OF lib]
    throws_jget throws_own inner_error_cases method_error_cases(3,4)
  show ?thesis
    using f unfolding converting_methods_def list.set insert_iff empty_iff
    by (elim disjE FalseE; hypsubst; unfold simple_methods keepAliveSession_def)
      (intro steps; simp add: own_errors_def)+
qed

section \<open>Properties\<close>

text \<open>
  C27. A session that is given is the session of the reply: every method but \<open>closeSession\<close> and
  \<open>transaction\<close>, called with parameters that name a session, puts that session in the reply
  it returns.
\<close>

theorem replies_carry_the_session:
  assumes "getString E params SESSION_ID = Inr sid" and "params \<noteq> JNull"
    and "f \<in> set (session_methods E sub)" and "f params r s = (Inr r', t)"
  shows "jmember r' SESSION_ID = Some (JString sid)"
  using wp_Inr [OF methods_carry_session [OF assms(1-3)] assms(4)] by (simp add: carries_def)

theorem replies_carry_the_session_witness:
  "jmember (JObject [(''sessionId'', JString ''s'')]) SESSION_ID = Some (JString ''s'')"
proof (rule replies_carry_the_session)
  show "getString demo_env (JObject [(''object'', JString ''o''), (''sessionId'', JString ''s'')]) SESSION_ID
      = Inr ''s''"
    by (simp add: demo_getString_def)
  show "release demo_env \<in> set (session_methods demo_env None)"
    by (simp add: session_methods_def)
  show "release demo_env (JObject [(''object'', JString ''o''), (''sessionId'', JString ''s'')]) JNull demo_server
      = (Inr (JObject [(''sessionId'', JString ''s'')]),
         demo_server\<lparr>srv_world := \<lparr>dw_uuid = 0, dw_calls = [''release o'']\<rparr>\<rparr>)"
    by (simp add: release_def requireParams_def getOrCreateSessionId_def rethrow_kurento_def put_def
        demo_getString_def demo_env_def demo_call_def demo_server_def onWorld_def zoom_def
        andThen_def handle_def catch_call_def jset_def)
qed simp

text \<open>
  C26. The client sees library errors as RPC errors. Whatever the core library, the media objects, the
  factories, the resource check and the transport's subscription handler throw (\<open>P\<close> holds of every
  exception of theirs), a method with the conversion that ends with an exception ends with an error in the
  parameters, with the RPC error that has the code and message of a \<open>KurentoException\<close> thrown there
  or of one of the three the methods throw themselves, or with an exception that is no
  \<open>KurentoException\<close> and comes from there, from a null pointer or from a value of the wrong type. If
  the functions that read parameters throw none either, no \<open>KurentoException\<close> leaves such a method.
\<close>

theorem library_errors_become_rpc_errors:
  assumes "library_throws P E sub" and "f \<in> set (converting_methods E sub)" and "f params r s = (Inl e, t)"
  shows "parameter_error E e \<or>
    (\<exists>c msg. e = CallException (Kms c) msg (JObject [(''type'', JString (kms_type E c))]) \<and>
      (P (KurentoException c msg) \<or> (c, msg) \<in> set own_errors)) \<or>
    (\<not> is_KurentoException e \<and> (P e \<or> e = NullPointer \<or> e = JsonLogicError))"
  using throwsD [OF converting_methods_throw [OF assms(1,2)] assms(3)]
  by (simp add: method_error_def converted_def)

lemma checkResources_throws: "throws (checkResources os p) (\<lambda>e. \<not> is_CallException e)"
proof -
  have "\<not> is_CallException e" if "scaled_limit m p = Inl e" for m p e
    using that by (auto simp: scaled_limit_def to_rlim_def split: if_splits)
  moreover have "\<not> is_CallException e" if "getNumberOfThreads os = Inl e" for e
    using that by (auto simp: getNumberOfThreads_def get_int_field nth_field_def split: if_splits)
  moreover have "\<not> is_CallException e" if "getNumberOfOpenFiles os = Inl e" for e
    using that by (auto simp: getNumberOfOpenFiles_def split: option.splits)
  ultimately have "\<not> is_CallException e"
    if "limit_check what m p n = Inl e" "n = getNumberOfThreads os \<or> n = getNumberOfOpenFiles os" for what m n e
    using that by (auto simp: limit_check_def split: if_splits sum.splits)
  then show ?thesis
    unfolding throws_def checkResources_run by (auto split: sum.splits)
qed

text \<open>What the example's library throws: an unknown session, and a lack of resources.\<close>

definition demo_throws :: "exn \<Rightarrow> bool" where
  "demo_throws e \<longleftrightarrow> e = KurentoException INVALID_SESSION ''no session'' \<or>
     (\<exists>os p l l'. checkResources os p l = (Inl e, l'))"

lemma demo_library_throws: "library_throws demo_throws demo_env None"
  by (auto simp: library_throws_def throws_def demo_throws_def demo_env_def demo_call_def raise_def
      split: if_splits)

theorem library_errors_become_rpc_errors_witness:
  "\<exists>e c msg. fst (keepAlive demo_env (JObject [(''sessionId'', JString ''fake'')]) JNull demo_server) = Inl e \<and>
    e = CallException (Kms c) msg (JObject [(''type'', JString (kms_type demo_env c))]) \<and>
    (demo_throws (KurentoException c msg) \<or> (c, msg) \<in> set own_errors)"
proof -
  have run: "keepAlive demo_env (JObject [(''sessionId'', JString ''fake'')]) JNull demo_server
      = (Inl (call_exception demo_env INVALID_SESSION ''no session''), demo_server)"
    by (simp add: keepAlive_def requireParams_def rethrow_kurento_def demo_getString_def demo_server_def
        demo_env_def call_exception_def onWorld_def zoom_def andThen_def handle_def)
  have "\<not> parameter_error demo_env (call_exception demo_env INVALID_SESSION ''no session'')"
    by (auto simp: parameter_error_def call_exception_def demo_getString_def demo_getJson_def demo_missing_def
        split: option.splits json.splits)
  moreover have "\<not> demo_throws (call_exception demo_env INVALID_SESSION ''no session'')"
    using throwsD [OF checkResources_throws] by (fastforce simp: demo_throws_def call_exception_def)
  moreover have conv: "keepAlive demo_env \<in> set (converting_methods demo_env None)"
    by (simp add: converting_methods_def)
  note library_errors_become_rpc_errors [where f = "keepAlive demo_env" and E = demo_env,
      OF demo_library_throws conv run]
  ultimately obtain c msg where
    e: "call_exception demo_env INVALID_SESSION ''no session'' =
      CallException (Kms c) msg (JObject [(''type'', JString (kms_type demo_env c))])"
    and c: "demo_throws (KurentoException c msg) \<or> (c, msg) \<in> set own_errors"
    by (auto simp: call_exception_def)
  show ?thesis
    unfolding run fst_conv by (rule exI, rule exI [of _ c], rule exI [of _ msg]) (use e c in simp)
qed

text \<open>
  C29. \<open>closeSession\<close> releases the session if and only if the flag \<open>release\<close> reads true, and
  drops a reference otherwise, be the flag false or absent. The reply is left as it was, and an
  exception of the core library passes through unconverted.
\<close>

theorem closeSession_decides:
  assumes "getString E params SESSION_ID = Inr sid" and "params \<noteq> JNull"
    and "\<And>e. getBool E params ''release'' = Inl e \<Longrightarrow> is_CallException e"
    and "(if getBool E params ''release'' = Inr True then ms_releaseSession E sid
          else ms_unrefSession E sid) (srv_world s) = (out, w)"
  shows "closeSession E params r s =
    (case out of Inl e \<Rightarrow> Inl e | Inr _ \<Rightarrow> Inr r, s\<lparr>srv_world := w\<rparr>)"
proof (cases "getBool E params ''release''")
  case (Inl e)
  then obtain c m d where "e = CallException c m d" using assms(3) by (cases e) auto
  with Inl assms show ?thesis
    by (cases out) (simp_all add: closeSession_def requireParams_def)
next
  case (Inr b)
  with assms show ?thesis
    by (cases out; cases b) (simp_all add: closeSession_def requireParams_def)
qed

theorem closeSession_decides_witness:
  "closeSession demo_env (JObject [(''release'', JBool True), (''sessionId'', JString ''s'')]) JNull demo_server =
    (case Inr () :: exn + unit of Inl e \<Rightarrow> Inl e | Inr _ \<Rightarrow> Inr JNull,
     demo_server\<lparr>srv_world := \<lparr>dw_uuid = 0, dw_calls = [''releaseSession s'']\<rparr>\<rparr>)"
  by (rule closeSession_decides [where sid = "''s''"])
    (simp_all add: demo_env_def demo_getString_def demo_call_def demo_server_def)

text \<open>
  \<open>unsubscribe\<close>, unlike the methods that convert exceptions, converts nothing: a \<open>KurentoException\<close> of the
  core library leaves it as it is, without code and type in an RPC error.
\<close>

theorem unsubscribe_lets_errors_escape:
  assumes "getString E params SESSION_ID = Inr sid" and "getString E params OBJECT = Inr i"
    and "getString E params SUBSCRIPTION = Inr b" and "params \<noteq> JNull"
    and "ms_removeEventHandler E sid i b (srv_world s) = (Inl (KurentoException c m), w)"
  shows "unsubscribe E params r s = (Inl (KurentoException c m), s\<lparr>srv_world := w\<rparr>) \<and>
    \<not> is_CallException (KurentoException c m)"
  using assms by (simp add: unsubscribe_def requireParams_def)

theorem unsubscribe_lets_errors_escape_witness:
  "unsubscribe (demo_env\<lparr>ms_removeEventHandler := \<lambda>s i b. raise (KurentoException INVALID_SESSION b)\<rparr>)
      (JObject [(''object'', JString ''o''), (''sessionId'', JString ''s''), (''subscription'', JString ''b'')])
      JNull demo_server =
    (Inl (KurentoException INVALID_SESSION ''b''), demo_server\<lparr>srv_world := srv_world demo_server\<rparr>) \<and>
   \<not> is_CallException (KurentoException INVALID_SESSION ''b'')"
  by (rule unsubscribe_lets_errors_escape [where sid = "''s''" and i = "''o''"])
    (simp_all add: demo_env_def demo_getString_def)

text \<open>
  C28. Resources are checked before an object is created: when the check fails in the world the
  factory lookup left, \<open>create\<close> fails with the check's error, a \<open>NOT_ENOUGH_RESOURCES\<close> as an RPC
  error, and the world stays as the lookup left it: no constructor has run.
\<close>

theorem create_checks_resources_first:
  assumes "getString E params TYPE_KEY = Inr type" and "getString E params SESSION_ID = Inr sid"
    and "params \<noteq> JNull" and "mm_getFactory E type (srv_world s) = (Inr fac, w)"
    and "checkResources (osView E w) (srv_resourceLimitPercent s) (srv_limits s) = (Inl e, l)"
  shows "create E params r s =
    (Inl (case e of KurentoException c m \<Rightarrow> call_exception E c m | _ \<Rightarrow> e),
     s\<lparr>srv_world := w, srv_limits := l\<rparr>)"
  using assms
  by (cases e) (simp_all add: create_def requireParams_def rethrow_kurento_def checkResourcesNow_def)

theorem create_checks_resources_first_witness:
  "create demo_env (JObject [(''sessionId'', JString ''s''), (''type'', JString ''T'')]) JNull
      (demo_server\<lparr>srv_limits := \<lparr>lc_threads = 1, lc_files = 1\<rparr>\<rparr>) =
    (Inl (case KurentoException NOT_ENOUGH_RESOURCES ''Reached KMS threads limit: 0'' of
            KurentoException c m \<Rightarrow> call_exception demo_env c m
          | _ \<Rightarrow> KurentoException NOT_ENOUGH_RESOURCES ''Reached KMS threads limit: 0''),
     demo_server\<lparr>srv_limits := \<lparr>lc_threads = 1, lc_files = 1\<rparr>, srv_world := srv_world demo_server,
       srv_limits := \<lparr>lc_threads = 1, lc_files = 1\<rparr>\<rparr>)"
proof (rule create_checks_resources_first)
  have "scaled_limit 1 (4 / 5) = Inr 0" by code_simp
  moreover have "to_string_nat 0 = ''0''" by (simp add: digits_in_small digit_char_def)
  ultimately have "limit_check ''Reached KMS threads limit: '' 1 (4 / 5) (Inr 90) =
      Inl (KurentoException NOT_ENOUGH_RESOURCES ''Reached KMS threads limit: 0'')"
    by (simp add: limit_check_def limit_known_def RLIM_INFINITY_def long_to_rlim_def)
  then show "checkResources (osView demo_env (srv_world demo_server))
        (srv_resourceLimitPercent (demo_server\<lparr>srv_limits := \<lparr>lc_threads = 1, lc_files = 1\<rparr>\<rparr>))
        (srv_limits (demo_server\<lparr>srv_limits := \<lparr>lc_threads = 1, lc_files = 1\<rparr>\<rparr>)) =
      (Inl (KurentoException NOT_ENOUGH_RESOURCES ''Reached KMS threads limit: 0''), \<lparr>lc_threads = 1, lc_files = 1\<rparr>)"
    using demo_threads
    by (simp add: checkResources_run eff_threads_def demo_env_def demo_server_def)
qed (simp_all add: demo_getString_def demo_env_def demo_server_def)

end
