(* ===== verification/WebSocket_Transport.thy ===== *)
theory WebSocket_Transport
  imports Session_Registry WebSocket_Registrar Server_Methods C_Strings
begin

text \<open>
  \<open>server/transport/websocket/WebSocketTransport.cpp\<close> and \<open>WebSocketEventHandler.cpp\<close>: the two
  websocket servers (plain and TLS), the connections of the clients by session, the messages in
  and out, the subscriptions, and the thread that keeps sessions alive. The processor of the
  requests is the record \<open>processor\<close>, the interface of \<open>transport/Processor.hpp\<close>;
  \<open>server_processor\<close> is the instance of \<open>ServerMethods\<close>. The websocket library and the other
  libraries are the fields of \<open>ws_env\<close>, a parameter: its state is \<open>'n\<close>, a connection handle a
  number, \<open>True\<close> stands for the TLS server. A handle can outlive its connection; locking it then
  gives null.
\<close>

section \<open>The interfaces\<close>

record 'o ws_event_handler =
  eh_id :: nat
  eh_object :: 'o
  eh_session :: string

record ('p, 'o) processor =
  pr_process :: "string \<Rightarrow> string \<Rightarrow> string \<Rightarrow> ('p, exn, string \<times> string) prog"
  pr_keepAliveSession :: "string \<Rightarrow> ('p, exn, unit) prog"
  pr_connectEventHandler :: "'o \<Rightarrow> string \<Rightarrow> string \<Rightarrow> 'o ws_event_handler \<Rightarrow> ('p, exn, string) prog"
  pr_registerEventHandler :: "'o \<Rightarrow> string \<Rightarrow> string \<Rightarrow> 'o ws_event_handler \<Rightarrow> ('p, exn, unit) prog"

record ('p, 'o, 'n) ws_env =
  we_generateUUID :: "('p, exn, string) prog"
  we_getId :: "'o \<Rightarrow> string"
  we_handler_alive :: "'p \<Rightarrow> 'o ws_event_handler \<Rightarrow> bool"
  we_writeJson :: "json \<Rightarrow> string"
  net_alive :: "'n \<Rightarrow> nat \<Rightarrow> bool"
  net_resource :: "'n \<Rightarrow> nat \<Rightarrow> string"
  net_send :: "bool \<Rightarrow> nat \<Rightarrow> string \<Rightarrow> ('n, exn, unit) prog"
  net_close :: "bool \<Rightarrow> nat \<Rightarrow> ('n, exn, unit) prog"
  net_setup :: "bool \<Rightarrow> nat \<Rightarrow> ('n, exn, unit) prog" \<comment> \<open>event loop, socket options, backlog, handlers\<close>
  net_set_tls :: "string \<Rightarrow> string \<Rightarrow> ('n, exn, unit) prog" \<comment> \<open>key password, certificate file\<close>
  net_max_connections :: nat
  net_address :: "string \<Rightarrow> exn + string"
  net_listen_on :: "bool \<Rightarrow> string \<Rightarrow> nat \<Rightarrow> ('n, exn, unit) prog"
  net_listen :: "bool \<Rightarrow> bool \<Rightarrow> nat \<Rightarrow> ('n, exn, unit) prog" \<comment> \<open>server, IPv6, port\<close>
  net_start_accept :: "bool \<Rightarrow> ('n, exn, unit) prog"
  net_stop :: "bool \<Rightarrow> ('n, exn, unit) prog"
  fs_relative :: "string \<Rightarrow> bool"
  fs_join :: "string \<Rightarrow> string \<Rightarrow> string"
  fs_exists :: "'n \<Rightarrow> string \<Rightarrow> bool"

text \<open>The transport. Maps are association lists with distinct keys.\<close>

record ('p, 'o, 'n) transport =
  tr_connections :: "(string \<times> nat) list"
  tr_secure :: "(string \<times> bool) list"
  tr_reverse :: "(nat \<times> string) list"
  tr_handlers :: "(string \<times> 'o ws_event_handler) list"
  tr_fresh :: nat
  tr_n_threads :: int
  tr_path :: string
  tr_hasInsecure :: bool
  tr_hasSecure :: bool
  tr_threads :: nat \<comment> \<open>running service threads\<close>
  tr_keepAlive :: bool \<comment> \<open>the keep-alive thread runs\<close>
  tr_running :: bool
  tr_registrar :: "registrar option"
  tr_proc :: 'p
  tr_net :: 'n

definition onProc :: "('p, exn, 'a) prog \<Rightarrow> (('p, 'o, 'n) transport, exn, 'a) prog" where
  "onProc = zoom tr_proc (\<lambda>p st. st\<lparr>tr_proc := p\<rparr>)"

definition onNet :: "('n, exn, 'a) prog \<Rightarrow> (('p, 'o, 'n) transport, exn, 'a) prog" where
  "onNet = zoom tr_net (\<lambda>n st. st\<lparr>tr_net := n\<rparr>)"

definition modify :: "('s \<Rightarrow> 's) \<Rightarrow> ('s, 'e, unit) prog" where
  "modify f s = (Inr (), f s)"

section \<open>Connections\<close>

definition getConnection :: "string \<Rightarrow> (('p, 'o, 'n) transport, exn, nat) prog" where
  "getConnection sessionId st =
     (case map_of (tr_connections st) sessionId of
        Some conn \<Rightarrow> (Inr conn, st)
      | None \<Rightarrow> (Inl (OutOfRange (''Connection not found for sessionId: '' @ sessionId)), st))"

text \<open>
  The first half of \<open>storeConnection\<close>: the entries that contradict the new association go. The
  flag returned says whether it has to be written. Handles are compared by what they lock to.
\<close>

definition lock_handle :: "('p, 'o, 'n) ws_env \<Rightarrow> ('p, 'o, 'n) transport \<Rightarrow> nat \<Rightarrow> nat option" where
  "lock_handle W st h = (if net_alive W (tr_net st) h then Some h else None)"

definition forget_session ::
  "('p, 'o, 'n) ws_env \<Rightarrow> string \<Rightarrow> nat \<Rightarrow> ('p, 'o, 'n) transport \<Rightarrow> bool \<times> ('p, 'o, 'n) transport" where
  "forget_session W sessionId connection st =
     (case map_of (tr_connections st) sessionId of
        None \<Rightarrow> (True, st)
      | Some conn \<Rightarrow>
          if lock_handle W st conn \<noteq> lock_handle W st connection then
            (True, st\<lparr>tr_reverse := AList.delete conn (tr_reverse st),
                      tr_connections := AList.delete sessionId (tr_connections st),
                      tr_secure := AList.delete sessionId (tr_secure st)\<rparr>)
          else (False, st))"

definition forget_connection ::
  "string \<Rightarrow> nat \<Rightarrow> bool \<times> ('p, 'o, 'n) transport \<Rightarrow> bool \<times> ('p, 'o, 'n) transport" where
  "forget_connection sessionId connection x =
     (case x of (needsWrite, st) \<Rightarrow>
        (case map_of (tr_reverse st) connection of
           None \<Rightarrow> (True, st)
         | Some oldSession \<Rightarrow>
             if oldSession \<noteq> sessionId then
               (True, st\<lparr>tr_reverse := AList.delete connection (tr_reverse st),
                         tr_connections := AList.delete oldSession (tr_connections st)\<rparr>)
             else (needsWrite, st)))"

definition associate ::
  "('p, 'o, 'n) ws_env \<Rightarrow> string \<Rightarrow> nat \<Rightarrow> ('p, 'o, 'n) transport \<Rightarrow> bool \<times> ('p, 'o, 'n) transport" where
  "associate W sessionId connection st =
     (case forget_connection sessionId connection (forget_session W sessionId connection st) of
        (needsWrite, st) \<Rightarrow>
          (needsWrite,
           if needsWrite then
             st\<lparr>tr_connections := AList.update sessionId connection (tr_connections st),
                tr_reverse := AList.update connection sessionId (tr_reverse st)\<rparr>
           else st))"

definition ignore_invalid_session :: "('s, exn, unit) prog \<Rightarrow> ('s, exn, unit) prog" where
  "ignore_invalid_session m =
     handle m (\<lambda>e. case e of
                     KurentoException code msg \<Rightarrow>
                       if code \<noteq> INVALID_SESSION then raise e else ret ()
                   | _ \<Rightarrow> raise e)"

definition storeConnection ::
  "('p, 'o) processor \<Rightarrow> ('p, 'o, 'n) ws_env \<Rightarrow> nat \<Rightarrow> bool \<Rightarrow> string \<Rightarrow>
   (('p, 'o, 'n) transport, exn, unit) prog" where
  "storeConnection P W connection secure sessionId =
     (if sessionId = [] then ret ()
      else
        andThen (\<lambda>st. case associate W sessionId connection st of (b, st') \<Rightarrow> (Inr b, st')) (\<lambda>needsWrite.
        andThen
          (if needsWrite then ignore_invalid_session (onProc (pr_keepAliveSession P sessionId))
           else ret ()) (\<lambda>_.
        modify (\<lambda>st. st\<lparr>tr_secure := AList.update sessionId secure (tr_secure st)\<rparr>))))"

text \<open>An entry that is missing reads as \<open>False\<close>, and is inserted.\<close>

definition secure_flag :: "string \<Rightarrow> (('p, 'o, 'n) transport, exn, bool) prog" where
  "secure_flag sessionId st =
     (case map_of (tr_secure st) sessionId of
        Some b \<Rightarrow> (Inr b, st)
      | None \<Rightarrow> (Inr False, st\<lparr>tr_secure := AList.update sessionId False (tr_secure st)\<rparr>))"

definition send :: "('p, 'o, 'n) ws_env \<Rightarrow> string \<Rightarrow> string \<Rightarrow> (('p, 'o, 'n) transport, exn, unit) prog" where
  "send W sessionId message =
     andThen (getConnection sessionId) (\<lambda>hdl.
     catch_all
       (andThen (secure_flag sessionId) (\<lambda>secure. onNet (net_send W secure hdl message)))
       (ret ()))"

text \<open>An exception of the processor leaves the handler: the message gets no response.\<close>

definition processMessage ::
  "('p, 'o) processor \<Rightarrow> ('p, 'o, 'n) ws_env \<Rightarrow> bool \<Rightarrow> nat \<Rightarrow> string \<Rightarrow>
   (('p, 'o, 'n) transport, exn, unit) prog" where
  "processMessage P W secure hdl request =
     andThen (reads (\<lambda>st. case map_of (tr_reverse st) hdl of None \<Rightarrow> [] | Some s \<Rightarrow> s)) (\<lambda>sessionId.
     andThen (onProc (pr_process P request [] sessionId)) (\<lambda>(sessionId, response).
     andThen (storeConnection P W hdl secure sessionId) (\<lambda>_.
     handle (onNet (net_send W secure hdl response))
       (\<lambda>e. case e of WebSocketError _ \<Rightarrow> ret () | _ \<Rightarrow> raise e))))"

text \<open>The resource of the request without the leading slash and the query must be the path.\<close>

definition resource_path :: "string \<Rightarrow> string" where
  "resource_path resource =
     (let r = (if 1 \<le> length resource \<and> resource ! 0 = CHR ''/'' then drop 1 resource else resource)
      in case find_from CHR 0x3F r 0 of None \<Rightarrow> r | Some i \<Rightarrow> substr r 0 i)"

definition openHandler ::
  "('p, 'o, 'n) ws_env \<Rightarrow> bool \<Rightarrow> nat \<Rightarrow> (('p, 'o, 'n) transport, exn, unit) prog" where
  "openHandler W secure hdl st =
     (if resource_path (net_resource W (tr_net st) hdl) \<noteq> tr_path st then
        handle (onNet (net_close W secure hdl))
          (\<lambda>e. case e of WebSocketError _ \<Rightarrow> ret () | _ \<Rightarrow> raise e) st
      else (Inr (), st))"

definition closeHandler :: "nat \<Rightarrow> (('p, 'o, 'n) transport, exn, unit) prog" where
  "closeHandler hdl =
     modify (\<lambda>st.
       case map_of (tr_reverse st) hdl of
         None \<Rightarrow> st
       | Some sessionId \<Rightarrow>
           st\<lparr>tr_connections := AList.delete sessionId (tr_connections st),
              tr_reverse := AList.delete hdl (tr_reverse st),
              tr_secure := AList.delete sessionId (tr_secure st)\<rparr>)"

section \<open>Subscriptions and events\<close>

definition event_id :: "string \<Rightarrow> string \<Rightarrow> string \<Rightarrow> string" where
  "event_id sessionId objectId eventType = sessionId @ ''|'' @ objectId @ ''|'' @ eventType"

text \<open>The handler of an event is shared while it lives; \<open>tr_handlers\<close> holds weak pointers.\<close>

definition processSubscription ::
  "('p, 'o) processor \<Rightarrow> ('p, 'o, 'n) ws_env \<Rightarrow> 'o \<Rightarrow> string \<Rightarrow> string \<Rightarrow>
   (('p, 'o, 'n) transport, exn, string) prog" where
  "processSubscription P W obj sessionId eventType =
     (let eventId = event_id sessionId (we_getId W obj) eventType
      in andThen
           (reads (\<lambda>st.
              case map_of (tr_handlers st) eventId of
                None \<Rightarrow> None
              | Some h \<Rightarrow> if we_handler_alive W (tr_proc st) h then Some h else None)) (\<lambda>handler.
           case handler of
             None \<Rightarrow>
               andThen (\<lambda>st. (Inr \<lparr>eh_id = tr_fresh st, eh_object = obj, eh_session = sessionId\<rparr>,
                             st\<lparr>tr_fresh := Suc (tr_fresh st)\<rparr>)) (\<lambda>handler.
               andThen (onProc (pr_connectEventHandler P obj sessionId eventType handler)) (\<lambda>subscriptionId.
               andThen (modify (\<lambda>st. st\<lparr>tr_handlers := AList.update eventId handler (tr_handlers st)\<rparr>)) (\<lambda>_.
               ret subscriptionId)))
           | Some handler \<Rightarrow>
               andThen (onProc (we_generateUUID W)) (\<lambda>subscriptionId.
               andThen (onProc (pr_registerEventHandler P obj sessionId subscriptionId handler)) (\<lambda>_.
               ret subscriptionId))))"

definition event_message :: "json \<Rightarrow> json" where
  "event_message value =
     jset ''params'' (jset ''value'' value JNull)
       (jset ''method'' (JString ''onEvent'') (jset ''jsonrpc'' (JString ''2.0'') JNull))"

text \<open>An event is sent to the session of its handler; no exception leaves the handler.\<close>

definition sendEvent ::
  "('p, 'o, 'n) ws_env \<Rightarrow> 'o ws_event_handler \<Rightarrow> json \<Rightarrow> (('p, 'o, 'n) transport, exn, unit) prog" where
  "sendEvent W handler value =
     catch_all
       (handle (send W (eh_session handler) (we_writeJson W (event_message value)))
          (\<lambda>e. case e of WebSocketError _ \<Rightarrow> ret () | _ \<Rightarrow> raise e))
       (ret ())"

section \<open>Keeping sessions alive\<close>

text \<open>
  A round works on a copy of the sessions, in the order of the map. The loop waits between
  rounds; what the other threads do meanwhile is given as a list of state changes, and the loop
  runs as long as the list goes and \<open>running\<close> is set.
\<close>

fun keepAlive_all :: "('p, 'o) processor \<Rightarrow> string list \<Rightarrow> (('p, 'o, 'n) transport, exn, unit) prog" where
  "keepAlive_all P [] = ret ()"
| "keepAlive_all P (c # conns) =
     andThen (ignore_invalid_session (onProc (pr_keepAliveSession P c))) (\<lambda>_. keepAlive_all P conns)"

definition keepAlive_round :: "('p, 'o) processor \<Rightarrow> (('p, 'o, 'n) transport, exn, unit) prog" where
  "keepAlive_round P = andThen (reads (\<lambda>st. sort (map fst (tr_connections st)))) (keepAlive_all P)"

fun keepAliveSessions ::
  "('p, 'o) processor \<Rightarrow> (('p, 'o, 'n) transport \<Rightarrow> ('p, 'o, 'n) transport) list \<Rightarrow>
   (('p, 'o, 'n) transport, exn, unit) prog" where
  "keepAliveSessions P [] = ret ()"
| "keepAliveSessions P (others # rest) =
     andThen (reads tr_running) (\<lambda>running.
       if \<not> running then ret ()
       else
         andThen (keepAlive_round P) (\<lambda>_.
         andThen (modify others) (\<lambda>_.
         keepAliveSessions P rest)))"

section \<open>Construction\<close>

definition WEBSOCKET_IPV6_DEFAULT :: bool where "WEBSOCKET_IPV6_DEFAULT = True"
definition WEBSOCKET_PATH_DEFAULT :: string where "WEBSOCKET_PATH_DEFAULT = ''kurento''"
definition WEBSOCKET_THREADS_DEFAULT :: int where "WEBSOCKET_THREADS_DEFAULT = 10"
definition DEFAULT_LOCAL_ADDRESS :: string where "DEFAULT_LOCAL_ADDRESS = ''localhost''"

definition catch_websocket :: "('s, exn, bool) prog \<Rightarrow> ('s, exn, bool) prog" where
  "catch_websocket m = handle m (\<lambda>e. case e of WebSocketError _ \<Rightarrow> ret False | _ \<Rightarrow> raise e)"

text \<open>Listening on IPv6 if that is wanted, else or if that fails on IPv4; whether it worked.\<close>

definition listen_any ::
  "('p, 'o, 'n) ws_env \<Rightarrow> bool \<Rightarrow> bool \<Rightarrow> nat \<Rightarrow> (('p, 'o, 'n) transport, exn, bool) prog" where
  "listen_any W secure ipv6 port =
     andThen
       (if ipv6 then
          catch_websocket (andThen (onNet (net_listen W secure True port)) (\<lambda>_. ret True))
        else ret False) (\<lambda>try_ipv6.
     if \<not> try_ipv6 then
       catch_websocket (andThen (onNet (net_listen W secure False port)) (\<lambda>_. ret True))
     else ret True)"

definition initWebSocket ::
  "('p, 'o, 'n) ws_env \<Rightarrow> 't config_env \<Rightarrow> 't \<Rightarrow> (('p, 'o, 'n) transport, exn, unit) prog" where
  "initWebSocket W C config =
     (let ipv6 = get_or (cf_bool C config ''mediaServer.net.websocket.ipv6'') WEBSOCKET_IPV6_DEFAULT;
          address_str = cf_string C config ''mediaServer.net.websocket.address'';
          port = get_or (cf_port C config ''mediaServer.net.websocket.port'') 0;
          connqueue = get_or (cf_uint C config ''mediaServer.net.websocket.connqueue'') (net_max_connections W)
      in if port = 0 then ret ()
         else
           andThen (onNet (net_setup W False connqueue)) (\<lambda>_.
           andThen
             (case address_str of
                Some s \<Rightarrow>
                  andThen (lift (net_address W s)) (\<lambda>address.
                  catch_websocket (andThen (onNet (net_listen_on W False address port)) (\<lambda>_. ret True)))
              | None \<Rightarrow> listen_any W False ipv6 port) (\<lambda>listening.
           if \<not> listening then ret ()
           else modify (\<lambda>st. st\<lparr>tr_hasInsecure := True\<rparr>))))"

definition initSecureWebSocket ::
  "('p, 'o, 'n) ws_env \<Rightarrow> 't config_env \<Rightarrow> 't \<Rightarrow> (('p, 'o, 'n) transport, exn, unit) prog" where
  "initSecureWebSocket W C config =
     (let ipv6 = get_or (cf_bool C config ''mediaServer.net.websocket.ipv6'') WEBSOCKET_IPV6_DEFAULT;
          securePort = get_or (cf_port C config ''mediaServer.net.websocket.secure.port'') 0;
          connqueue = get_or (cf_uint C config ''mediaServer.net.websocket.connqueue'') (net_max_connections W);
          password = get_or (cf_string C config ''mediaServer.net.websocket.secure.password'') []
      in if securePort = 0 then ret ()
         else
           case cf_string C config ''mediaServer.net.websocket.secure.certificate'' of
             None \<Rightarrow> ret ()
           | Some certificate \<Rightarrow>
               andThen
                 (if fs_relative W certificate then
                    andThen (get_or_throw ''configPath'' (cf_string C config ''configPath'')) (\<lambda>dir.
                    ret (fs_join W dir certificate))
                  else ret certificate) (\<lambda>certificateFile.
               andThen (reads (\<lambda>st. fs_exists W (tr_net st) certificateFile)) (\<lambda>exists.
               if \<not> exists then ret ()
               else
                 andThen (onNet (net_setup W True connqueue)) (\<lambda>_.
                 andThen (onNet (net_set_tls W password certificateFile)) (\<lambda>_.
                 andThen (listen_any W True ipv6 securePort) (\<lambda>listening.
                 if \<not> listening then ret ()
                 else modify (\<lambda>st. st\<lparr>tr_hasSecure := True\<rparr>)))))))"

definition initRegistrar ::
  "'t config_env \<Rightarrow> 't \<Rightarrow> (('p, 'o, 'n) transport, exn, unit) prog" where
  "initRegistrar C config =
     (let registrarAddress = get_or (cf_string C config ''mediaServer.net.websocket.registrar.address'') [];
          localAddress =
            get_or (cf_string C config ''mediaServer.net.websocket.registrar.localAddress'') DEFAULT_LOCAL_ADDRESS;
          port = get_or (cf_port C config ''mediaServer.net.websocket.port'') 0;
          securePort = get_or (cf_port C config ''mediaServer.net.websocket.secure.port'') 0
      in if registrarAddress \<noteq> [] \<and> localAddress \<noteq> [] then
           modify (\<lambda>st. st\<lparr>tr_registrar :=
             Some (registrar_init registrarAddress localAddress port securePort (tr_path st))\<rparr>)
         else ret ())"

text \<open>The threads configured: an unsigned number, as an \<open>int\<close>, that is at least one.\<close>

definition config_threads :: "nat option \<Rightarrow> int" where
  "config_threads n =
     (case n of
        None \<Rightarrow> WEBSOCKET_THREADS_DEFAULT
      | Some k \<Rightarrow>
          let i = sint (word_of_nat k :: 32 word)
          in if i < 1 then WEBSOCKET_THREADS_DEFAULT else i)"

definition transport_init ::
  "('p, 'o, 'n) ws_env \<Rightarrow> 't config_env \<Rightarrow> 't \<Rightarrow> 'p \<Rightarrow> 'n \<Rightarrow>
   (exn + unit) \<times> ('p, 'o, 'n) transport" where
  "transport_init W C config p n =
     (let path = get_or (cf_string C config ''mediaServer.net.websocket.path'') WEBSOCKET_PATH_DEFAULT;
          n_threads = config_threads (cf_uint C config ''mediaServer.net.websocket.threads'')
      in andThen (initWebSocket W C config) (\<lambda>_.
         andThen (initSecureWebSocket W C config) (\<lambda>_.
         andThen (reads (\<lambda>st. tr_hasInsecure st \<or> tr_hasSecure st)) (\<lambda>listening.
         if \<not> listening then
           raise (RuntimeError
             ''Cannot open a WebSocket listener on the specified port (multiple KMS instances?)'')
         else initRegistrar C config)))
         \<lparr>tr_connections = [], tr_secure = [], tr_reverse = [], tr_handlers = [], tr_fresh = 0,
          tr_n_threads = n_threads, tr_path = path, tr_hasInsecure = False, tr_hasSecure = False,
          tr_threads = 0, tr_keepAlive = False, tr_running = False, tr_registrar = None,
          tr_proc = p, tr_net = n\<rparr>)"

definition start_registrar :: "('p, 'o, 'n) transport \<Rightarrow> ('p, 'o, 'n) transport" where
  "start_registrar st = st\<lparr>tr_registrar := map_option registrar_start (tr_registrar st)\<rparr>"

definition transport_start :: "('p, 'o, 'n) ws_env \<Rightarrow> (('p, 'o, 'n) transport, exn, unit) prog" where
  "transport_start W =
     andThen (reads tr_hasInsecure) (\<lambda>insecure.
     andThen (if insecure then onNet (net_start_accept W False) else ret ()) (\<lambda>_.
     andThen (reads tr_hasSecure) (\<lambda>secure.
     andThen (if secure then onNet (net_start_accept W True) else ret ()) (\<lambda>_.
     modify (\<lambda>st. start_registrar
       (st\<lparr>tr_threads := nat (tr_n_threads st), tr_running := True, tr_keepAlive := True\<rparr>))))))"

definition stop_registrar :: "(('p, 'o, 'n) transport, exn, unit) prog" where
  "stop_registrar st =
     (case tr_registrar st of
        None \<Rightarrow> (Inr (), st)
      | Some r \<Rightarrow> (case registrar_stop r of (out, r') \<Rightarrow> (out, st\<lparr>tr_registrar := Some r'\<rparr>)))"

text \<open>\<open>stop\<close> after \<open>start\<close>: the service threads end when the servers have stopped.\<close>

definition transport_stop :: "('p, 'o, 'n) ws_env \<Rightarrow> (('p, 'o, 'n) transport, exn, unit) prog" where
  "transport_stop W =
     andThen (modify (\<lambda>st. st\<lparr>tr_running := False\<rparr>)) (\<lambda>_.
     andThen (reads tr_hasInsecure) (\<lambda>insecure.
     andThen (if insecure then onNet (net_stop W False) else ret ()) (\<lambda>_.
     andThen (reads tr_hasSecure) (\<lambda>secure.
     andThen (if secure then onNet (net_stop W True) else ret ()) (\<lambda>_.
     andThen (modify (\<lambda>st. st\<lparr>tr_threads := 0\<rparr>)) (\<lambda>_.
     andThen stop_registrar (\<lambda>_.
     modify (\<lambda>st. st\<lparr>tr_keepAlive := False\<rparr>))))))))"

section \<open>The two views of the connections\<close>

definition inverse_maps :: "(string \<times> nat) list \<Rightarrow> (nat \<times> string) list \<Rightarrow> bool" where
  "inverse_maps c r \<longleftrightarrow>
     wf_map c \<and> wf_map r \<and> (\<forall>s h. map_of c s = Some h \<longleftrightarrow> map_of r h = Some s)"

definition maps_inverse :: "('p, 'o, 'n) transport \<Rightarrow> bool" where
  "maps_inverse st \<longleftrightarrow> inverse_maps (tr_connections st) (tr_reverse st)"

lemma inverse_mapsD: "inverse_maps c r \<Longrightarrow> map_of c s = Some h \<longleftrightarrow> map_of r h = Some s"
  by (simp add: inverse_maps_def)

lemma inverse_delete:
  assumes "inverse_maps c r" and "map_of c s = Some h"
  shows "inverse_maps (AList.delete s c) (AList.delete h r)"
proof -
  have "((map_of c)(s := None)) s' = Some h' \<longleftrightarrow> ((map_of r)(h := None)) h' = Some s'" for s' h'
    using inverse_mapsD [OF assms(1)] assms(2) by (metis fun_upd_apply option.distinct(1) option.inject)
  then show ?thesis using assms(1) by (simp add: inverse_maps_def)
qed

lemma inverse_update:
  assumes "inverse_maps c r" and "map_of c s \<in> {None, Some h}" and "map_of r h \<in> {None, Some s}"
  shows "inverse_maps (AList.update s h c) (AList.update h s r)"
proof -
  have "((map_of c)(s \<mapsto> h)) s' = Some h' \<longleftrightarrow> ((map_of r)(h \<mapsto> s)) h' = Some s'" for s' h'
    using inverse_mapsD [OF assms(1), of s' h'] inverse_mapsD [OF assms(1), of s h']
      inverse_mapsD [OF assms(1), of s' h] assms(2,3)
    by auto
  then show ?thesis using assms(1) by (simp add: inverse_maps_def)
qed

definition conn_of :: "('p, 'o, 'n) transport \<Rightarrow> string \<Rightarrow> nat option" where
  "conn_of st s = map_of (tr_connections st) s"

definition sess_of :: "('p, 'o, 'n) transport \<Rightarrow> nat \<Rightarrow> string option" where
  "sess_of st h = map_of (tr_reverse st) h"

definition drop_connection :: "('p, 'o, 'n) transport \<Rightarrow> nat \<Rightarrow> ('p, 'o, 'n) transport" where
  "drop_connection st h = snd (closeHandler h st)"

definition live :: "('p, 'o, 'n) ws_env \<Rightarrow> ('p, 'o, 'n) transport \<Rightarrow> nat \<Rightarrow> bool" where
  "live W st h \<longleftrightarrow> net_alive W (tr_net st) h"

lemma maps_inverseD:
  "maps_inverse st \<Longrightarrow> map_of (tr_connections st) s = Some h \<longleftrightarrow> map_of (tr_reverse st) h = Some s"
  by (simp add: maps_inverse_def inverse_mapsD)

lemma live_iff [simp]:
  assumes "live W st h"
  shows "lock_handle W st h' \<noteq> lock_handle W st h \<longleftrightarrow> h' \<noteq> h"
  using assms by (auto simp: lock_handle_def live_def)

lemma forget_session_props:
  assumes inv: "maps_inverse st" and live: "live W st h" and eq: "forget_session W s h st = (b, st')"
  shows "maps_inverse st' \<and> tr_net st' = tr_net st \<and>
    map_of (tr_reverse st') = (\<lambda>h'. if h' \<noteq> h \<and> map_of (tr_reverse st) h' = Some s then None
                                  else map_of (tr_reverse st) h') \<and>
    (\<not> b \<longrightarrow> st' = st \<and> map_of (tr_connections st) s = Some h)"
proof (cases "map_of (tr_connections st) s")
  case None
  then show ?thesis
    using eq inv maps_inverseD [OF inv, of s] by (auto simp: forget_session_def)
next
  case (Some c)
  have rev: "map_of (tr_reverse st) h' = Some s \<longleftrightarrow> h' = c" for h'
    using maps_inverseD [OF inv, of s h'] Some by auto
  show ?thesis
  proof (cases "c = h")
    case True
    then show ?thesis
      using eq inv Some rev
      by (auto simp: forget_session_def live_iff [OF live] intro!: ext)
  next
    case False
    then have st': "b" "st' = st\<lparr>tr_reverse := AList.delete c (tr_reverse st),
        tr_connections := AList.delete s (tr_connections st), tr_secure := AList.delete s (tr_secure st)\<rparr>"
      using eq Some live_iff [OF live, of c] by (auto simp: forget_session_def split: if_splits)
    show ?thesis
      using inv False Some rev inverse_delete [of "tr_connections st" "tr_reverse st" s c]
      by (auto simp: st' maps_inverse_def intro!: ext)
  qed
qed

lemma forget_connection_props:
  assumes inv: "maps_inverse st" and eq: "forget_connection s h (b, st) = (b', st')"
  shows "maps_inverse st' \<and> tr_net st' = tr_net st \<and>
    map_of (tr_reverse st') = (if map_of (tr_reverse st) h = Some s then map_of (tr_reverse st)
                               else (map_of (tr_reverse st))(h := None)) \<and>
    (if map_of (tr_reverse st) h = Some s then b' = b \<and> st' = st else b')"
proof (cases "map_of (tr_reverse st) h")
  case None
  then show ?thesis using eq inv by (auto simp: forget_connection_def)
next
  case (Some old)
  then have "map_of (tr_connections st) old = Some h" using maps_inverseD [OF inv] by simp
  then show ?thesis
    using eq inv Some inverse_delete [of "tr_connections st" "tr_reverse st" old h]
    by (auto simp: forget_connection_def maps_inverse_def split: if_splits)
qed

text \<open>Registering a session that no other connection has, on a connection that has no other session.\<close>

lemma register_inverse:
  assumes inv: "maps_inverse st" and h: "map_of (tr_reverse st) h = None \<or> map_of (tr_reverse st) h = Some s"
    and only: "\<And>h'. map_of (tr_reverse st) h' = Some s \<Longrightarrow> h' = h"
  shows "maps_inverse (st\<lparr>tr_connections := AList.update s h (tr_connections st),
    tr_reverse := AList.update h s (tr_reverse st)\<rparr>)"
proof -
  have "map_of (tr_connections st) s = None \<or> map_of (tr_connections st) s = Some h"
    using maps_inverseD [OF inv, of s] only by (cases "map_of (tr_connections st) s") auto
  then show ?thesis using inv h by (auto simp: maps_inverse_def intro!: inverse_update)
qed

lemma associate_props:
  assumes inv: "maps_inverse st" and live: "live W st h" and eq: "associate W s h st = (b, st')"
  shows "maps_inverse st' \<and> tr_net st' = tr_net st \<and> map_of (tr_connections st') s = Some h \<and>
    map_of (tr_reverse st') = (\<lambda>h'. if h' = h then Some s else if map_of (tr_reverse st) h' = Some s then None
                                  else map_of (tr_reverse st) h')"
proof -
  obtain b1 st1 where f: "forget_session W s h st = (b1, st1)" by (cases "forget_session W s h st")
  obtain b2 st2 where g: "forget_connection s h (b1, st1) = (b2, st2)" by (cases "forget_connection s h (b1, st1)")
  note F = forget_session_props [OF inv live f]
  then have inv1: "maps_inverse st1" by simp
  note G = forget_connection_props [OF inv1 g]
  then have inv2: "maps_inverse st2" by simp
  show ?thesis
  proof (cases b2)
    case False
    with G have s1: "map_of (tr_reverse st1) h = Some s" "b2 = b1" "st2 = st1" by (auto split: if_splits)
    then have "st1 = st" "map_of (tr_connections st) s = Some h" using F False by simp_all
    moreover have "b = b2" "st' = st2" using eq False by (simp_all add: associate_def f g)
    moreover have "map_of (tr_reverse st) h' = Some s \<longleftrightarrow> h' = h" for h'
      using maps_inverseD [OF inv, of s h'] calculation(2) by auto
    ultimately show ?thesis using inv s1 by (auto intro!: ext)
  next
    case True
    have st': "st' = st2\<lparr>tr_connections := AList.update s h (tr_connections st2),
                 tr_reverse := AList.update h s (tr_reverse st2)\<rparr>"
      using eq True by (simp add: associate_def f g)
    have R1: "map_of (tr_reverse st1) h' =
        (if h' \<noteq> h \<and> map_of (tr_reverse st) h' = Some s then None else map_of (tr_reverse st) h')" for h'
      using F by (simp only:)
    have R2: "map_of (tr_reverse st2) h' =
        (if map_of (tr_reverse st1) h \<noteq> Some s \<and> h' = h then None else map_of (tr_reverse st1) h')" for h'
      using G by (simp add: fun_upd_def)
    have R: "map_of (tr_reverse st2) h' =
        (if map_of (tr_reverse st) h' = Some s then None else map_of (tr_reverse st) h')" if "h' \<noteq> h" for h'
      using R1 [of h'] R2 [of h'] that by simp
    have "maps_inverse st'"
      unfolding st'
    proof (rule register_inverse [OF inv2])
      show "map_of (tr_reverse st2) h = None \<or> map_of (tr_reverse st2) h = Some s" using R2 [of h] by auto
      show "h' = h" if "map_of (tr_reverse st2) h' = Some s" for h'
        using R [of h'] that by (cases "h' = h") (auto split: if_splits)
    qed
    moreover have "map_of (tr_reverse st') = (\<lambda>h'. if h' = h then Some s
        else if map_of (tr_reverse st) h' = Some s then None else map_of (tr_reverse st) h')"
      by (rule ext) (simp add: st' R)
    ultimately show ?thesis using F G by (simp add: st')
  qed
qed

lemma drop_connection_props:
  assumes inv: "maps_inverse st"
  shows "maps_inverse (drop_connection st h) \<and> tr_net (drop_connection st h) = tr_net st \<and>
    map_of (tr_reverse (drop_connection st h)) = (map_of (tr_reverse st))(h := None)"
proof (cases "map_of (tr_reverse st) h")
  case None
  then show ?thesis using inv by (auto simp: drop_connection_def closeHandler_def modify_def)
next
  case (Some s)
  then have "map_of (tr_connections st) s = Some h" using maps_inverseD [OF inv] by simp
  then show ?thesis
    using inv Some inverse_delete [of "tr_connections st" "tr_reverse st" s h]
    by (simp add: drop_connection_def closeHandler_def modify_def maps_inverse_def)
qed

interpretation sr: session_registry "\<lambda>st s h. snd (associate W s h st)" drop_connection conn_of sess_of
    maps_inverse "live W"
  for W :: "('p, 'o, 'n) ws_env"
proof (unfold_locales, goal_cases)
  case (1 st h s)
  then show ?case using associate_props [of st W h s] by (cases "associate W s h st") simp
next
  case (2 st h)
  then show ?case using drop_connection_props [of st h] by simp
next
  case (3 st s h)
  then show ?case by (simp add: conn_of_def sess_of_def maps_inverseD)
next
  case (4 st s h h')
  show ?case by (auto simp: live_def associate_def forget_connection_def forget_session_def
      split: option.splits if_splits prod.splits)
next
  case (5 st h h')
  show ?case by (auto simp: live_def drop_connection_def closeHandler_def modify_def split: option.splits)
next
  case (6 st h s h')
  then show ?case using associate_props [of st W h s] by (cases "associate W s h st") (simp add: sess_of_def)
next
  case (7 st h h')
  then show ?case using drop_connection_props [of st h] by (simp add: sess_of_def)
qed

section \<open>Programs that keep a property of the transport\<close>

text \<open>Kept on every way out, exceptions included.\<close>

definition keeps :: "('s \<Rightarrow> bool) \<Rightarrow> ('s, 'e, 'a) prog \<Rightarrow> bool" where
  "keeps I m \<longleftrightarrow> (\<forall>s. I s \<longrightarrow> I (snd (m s)))"

lemma keepsD: "keeps I m \<Longrightarrow> m s = (out, t) \<Longrightarrow> I s \<Longrightarrow> I t"
  by (auto simp: keeps_def dest: spec [of _ s])

named_theorems keeps_intros "programs that keep a property"

lemma keeps_ret [keeps_intros]: "keeps I (ret x)"
  by (simp add: keeps_def)

lemma keeps_raise [keeps_intros]: "keeps I (raise e)"
  by (simp add: keeps_def)

lemma keeps_lift [keeps_intros]: "keeps I (lift r)"
  by (simp add: keeps_def)

lemma keeps_reads [keeps_intros]: "keeps I (reads f)"
  by (simp add: keeps_def)

lemma keeps_modify [keeps_intros]: "(\<And>s. I s \<Longrightarrow> I (f s)) \<Longrightarrow> keeps I (modify f)"
  by (simp add: keeps_def modify_def)

lemma keeps_andThen [keeps_intros]: "keeps I m \<Longrightarrow> (\<And>x. keeps I (f x)) \<Longrightarrow> keeps I (andThen m f)"
  by (fastforce simp: keeps_def andThen_def split: prod.split sum.split)

lemma keeps_handle [keeps_intros]: "keeps I m \<Longrightarrow> (\<And>e. keeps I (h e)) \<Longrightarrow> keeps I (handle m h)"
  by (fastforce simp: keeps_def handle_def split: prod.split sum.split)

lemma keeps_catch_all [keeps_intros]: "keeps I m \<Longrightarrow> keeps I h \<Longrightarrow> keeps I (catch_all m h)"
  by (simp add: catch_all_def keeps_handle)

lemma keeps_if [keeps_intros]: "(b \<Longrightarrow> keeps I m) \<Longrightarrow> (\<not> b \<Longrightarrow> keeps I n) \<Longrightarrow> keeps I (if b then m else n)"
  by simp

lemma keeps_option [keeps_intros]:
  "keeps I m \<Longrightarrow> (\<And>x. keeps I (f x)) \<Longrightarrow> keeps I (case p of None \<Rightarrow> m | Some x \<Rightarrow> f x)"
  by (simp split: option.split)

lemma keeps_prod [keeps_intros]: "(\<And>x y. keeps I (f x y)) \<Longrightarrow> keeps I (case p of (x, y) \<Rightarrow> f x y)"
  by (simp split: prod.split)

lemma keeps_ignore [keeps_intros]: "keeps I m \<Longrightarrow> keeps I (ignore_invalid_session m)"
  by (auto simp: ignore_invalid_session_def intro!: keeps_intros split: exn.split)

lemma keeps_ws_error [keeps_intros]: "keeps I (case e of WebSocketError _ \<Rightarrow> ret x | _ \<Rightarrow> raise e)"
  by (cases e) (simp_all add: keeps_ret keeps_raise)

lemma keeps_onProc: "(\<And>st p. I st \<Longrightarrow> I (st\<lparr>tr_proc := p\<rparr>)) \<Longrightarrow> keeps I (onProc m)"
  by (auto simp: keeps_def onProc_def zoom_def split: prod.split)

lemma keeps_onNet: "(\<And>st n. I st \<Longrightarrow> I (st\<lparr>tr_net := n\<rparr>)) \<Longrightarrow> keeps I (onNet m)"
  by (auto simp: keeps_def onNet_def zoom_def split: prod.split)

lemma maps_inverse_frame [simp]:
  "maps_inverse (st\<lparr>tr_proc := p\<rparr>) \<longleftrightarrow> maps_inverse st"
  "maps_inverse (st\<lparr>tr_net := n\<rparr>) \<longleftrightarrow> maps_inverse st"
  "maps_inverse (st\<lparr>tr_secure := f\<rparr>) \<longleftrightarrow> maps_inverse st"
  "maps_inverse (st\<lparr>tr_handlers := hs\<rparr>) \<longleftrightarrow> maps_inverse st"
  "maps_inverse (st\<lparr>tr_fresh := k\<rparr>) \<longleftrightarrow> maps_inverse st"
  "maps_inverse (st\<lparr>tr_hasInsecure := b\<rparr>) \<longleftrightarrow> maps_inverse st"
  "maps_inverse (st\<lparr>tr_hasSecure := b\<rparr>) \<longleftrightarrow> maps_inverse st"
  "maps_inverse (st\<lparr>tr_registrar := r\<rparr>) \<longleftrightarrow> maps_inverse st"
  by (simp_all add: maps_inverse_def)

lemma live_proc [simp]: "live W (st\<lparr>tr_proc := p\<rparr>) h \<longleftrightarrow> live W st h"
  by (simp add: live_def)

lemma storeConnection_inverse:
  assumes "maps_inverse st" and "live W st h" and "storeConnection P W h sec s st = (out, st')"
  shows "maps_inverse st'"
proof (cases "s = []")
  case True
  then show ?thesis using assms by (simp add: storeConnection_def)
next
  case False
  obtain b st1 where a: "associate W s h st = (b, st1)" by (cases "associate W s h st")
  have inv1: "maps_inverse st1" using associate_props [OF assms(1,2) a] by simp
  let ?rest = "andThen (if b then ignore_invalid_session (onProc (pr_keepAliveSession P s)) else ret ())
    (\<lambda>_. modify (\<lambda>st. st\<lparr>tr_secure := AList.update s sec (tr_secure st)\<rparr>))"
  have "keeps maps_inverse ?rest" by (intro keeps_intros keeps_onProc) simp_all
  moreover have "?rest st1 = (out, st')"
    using assms(3) False by (simp add: storeConnection_def andThen_def a)
  ultimately show ?thesis by (rule keepsD [where I = maps_inverse]) (rule inv1)
qed

lemma keeps_send_inverse: "keeps maps_inverse (send W s m)"
proof -
  have "keeps maps_inverse (getConnection s)" "keeps maps_inverse (secure_flag s)"
    by (auto simp: keeps_def getConnection_def secure_flag_def split: option.split)
  then show ?thesis unfolding send_def by (intro keeps_intros keeps_onNet) simp_all
qed

lemma processMessage_inverse:
  assumes "maps_inverse st" and "live W st h" and "processMessage P W sec h req st = (out, st')"
  shows "maps_inverse st'"
proof -
  let ?s = "case map_of (tr_reverse st) h of None \<Rightarrow> [] | Some s \<Rightarrow> s"
  obtain r p where pr: "pr_process P req [] ?s (tr_proc st) = (r, p)"
    by (cases "pr_process P req [] ?s (tr_proc st)")
  show ?thesis
  proof (cases r)
    case (Inl e)
    then show ?thesis
      using assms(1,3) pr by (auto simp: processMessage_def onProc_def zoom_def andThen_def)
  next
    case (Inr x)
    obtain s resp where x: "x = (s, resp)" by (cases x)
    obtain out1 st1 where sc: "storeConnection P W h sec s (st\<lparr>tr_proc := p\<rparr>) = (out1, st1)"
      by (cases "storeConnection P W h sec s (st\<lparr>tr_proc := p\<rparr>)")
    have inv1: "maps_inverse st1"
      by (rule storeConnection_inverse [OF _ _ sc]) (simp_all add: assms)
    let ?send = "handle (onNet (net_send W sec h resp)) (\<lambda>e. case e of WebSocketError _ \<Rightarrow> ret () | _ \<Rightarrow> raise e)"
    have "keeps maps_inverse ?send"
      by (intro keeps_intros keeps_onNet) simp_all
    then have "maps_inverse t" if "?send st1 = (o', t)" for o' t using that by (rule keepsD [where I = maps_inverse]) (rule inv1)
    then show ?thesis
      using assms(3) pr Inr x sc inv1
      by (auto simp: processMessage_def onProc_def zoom_def andThen_def split: sum.splits)
  qed
qed

lemma keeps_subscription_inverse: "keeps maps_inverse (processSubscription P W obj s t)"
proof -
  have "keeps maps_inverse (\<lambda>st. (Inr \<lparr>eh_id = tr_fresh st, eh_object = obj, eh_session = s\<rparr>,
      st\<lparr>tr_fresh := Suc (tr_fresh st)\<rparr>))"
    by (simp add: keeps_def)
  then show ?thesis
    unfolding processSubscription_def Let_def by (intro keeps_intros keeps_onProc) simp_all
qed

lemma keeps_sendEvent_inverse: "keeps maps_inverse (sendEvent W h v)"
  unfolding sendEvent_def by (intro keeps_intros keeps_send_inverse)

lemma keeps_keepAlive_all_inverse: "keeps maps_inverse (keepAlive_all P conns)"
  by (induction conns; unfold keepAlive_all.simps; intro keeps_intros keeps_onProc; simp)

lemma keeps_keepAlive_inverse: "keeps maps_inverse (keepAlive_round P)"
  unfolding keepAlive_round_def by (intro keeps_intros keeps_keepAlive_all_inverse)

lemma keeps_close_inverse: "keeps maps_inverse (closeHandler h)"
  using drop_connection_props by (fastforce simp: keeps_def drop_connection_def)

lemma keeps_open_inverse: "keeps maps_inverse (openHandler W sec h)"
proof -
  have "keeps maps_inverse (handle (onNet (net_close W sec h))
      (\<lambda>e. case e of WebSocketError _ \<Rightarrow> ret () | _ \<Rightarrow> raise e))"
    by (intro keeps_intros keeps_onNet) simp_all
  then show ?thesis by (auto simp: keeps_def openHandler_def)
qed

section \<open>The handlers interleaved\<close>

text \<open>
  What can happen to a transport, each event with any outcome, an exception included. A message
  arrives on a connection that is alive.
\<close>

inductive ws_step ::
  "('p, 'o) processor \<Rightarrow> ('p, 'o, 'n) ws_env \<Rightarrow> ('p, 'o, 'n) transport \<Rightarrow> ('p, 'o, 'n) transport \<Rightarrow> bool"
  for P W where
  message: "live W st h \<Longrightarrow> processMessage P W sec h req st = (out, st') \<Longrightarrow> ws_step P W st st'"
| opened: "openHandler W sec h st = (out, st') \<Longrightarrow> ws_step P W st st'"
| closed: "closeHandler h st = (out, st') \<Longrightarrow> ws_step P W st st'"
| subscribed: "processSubscription P W obj s t st = (out, st') \<Longrightarrow> ws_step P W st st'"
| event: "sendEvent W eh v st = (out, st') \<Longrightarrow> ws_step P W st st'"
| keep_alive: "keepAlive_round P st = (out, st') \<Longrightarrow> ws_step P W st st'"

inductive ws_steps ::
  "('p, 'o) processor \<Rightarrow> ('p, 'o, 'n) ws_env \<Rightarrow> ('p, 'o, 'n) transport \<Rightarrow> ('p, 'o, 'n) transport \<Rightarrow> bool"
  for P W where
  ws_none: "ws_steps P W st st"
| ws_more: "ws_steps P W st st' \<Longrightarrow> ws_step P W st' st'' \<Longrightarrow> ws_steps P W st st''"

lemma ws_step_inverse: "ws_step P W st st' \<Longrightarrow> maps_inverse st \<Longrightarrow> maps_inverse st'"
proof (induction rule: ws_step.induct)
  case (message st h sec req out st')
  then show ?case by (intro processMessage_inverse [of st W h P sec req out st'])
next
  case (opened sec h st out st')
  then show ?case by (rule keepsD [OF keeps_open_inverse])
next
  case (closed h st out st')
  then show ?case by (rule keepsD [OF keeps_close_inverse])
next
  case (subscribed obj s t st out st')
  then show ?case by (rule keepsD [OF keeps_subscription_inverse])
next
  case (event eh v st out st')
  then show ?case by (rule keepsD [OF keeps_sendEvent_inverse])
next
  case (keep_alive st out st')
  then show ?case by (rule keepsD [OF keeps_keepAlive_inverse])
qed

lemma ws_steps_inverse: "ws_steps P W st st' \<Longrightarrow> maps_inverse st \<Longrightarrow> maps_inverse st'"
  by (induction rule: ws_steps.induct) (auto intro: ws_step_inverse)

lemma inverse_maps_Nil [simp]: "inverse_maps [] []"
  by (simp add: inverse_maps_def)

lemma config_threads_positive: "1 \<le> config_threads n \<and> config_threads n < 2 ^ 31"
proof (cases n)
  case (Some k)
  have "sint (word_of_nat k :: 32 word) < 2 ^ 31"
    using sint_lt [of "word_of_nat k :: 32 word"] by simp
  then show ?thesis by (simp add: config_threads_def WEBSOCKET_THREADS_DEFAULT_def Some Let_def)
qed (simp add: config_threads_def WEBSOCKET_THREADS_DEFAULT_def)

text \<open>The constructor's steps leave what it set up before them.\<close>

definition fresh_transport :: "string \<Rightarrow> int \<Rightarrow> ('p, 'o, 'n) transport \<Rightarrow> bool" where
  "fresh_transport path n st \<longleftrightarrow>
     tr_connections st = [] \<and> tr_reverse st = [] \<and> tr_secure st = [] \<and> tr_handlers st = [] \<and>
     tr_path st = path \<and> tr_n_threads st = n \<and> \<not> tr_running st"

lemma keeps_catch_websocket [keeps_intros]: "keeps I m \<Longrightarrow> keeps I (catch_websocket m)"
  unfolding catch_websocket_def by (intro keeps_intros)

lemma keeps_get_or_throw [keeps_intros]: "keeps I (get_or_throw p x)"
  unfolding get_or_throw_def by (intro keeps_intros)

lemma keeps_listen_any: "keeps (fresh_transport path n) (listen_any W sec ipv6 port)"
  unfolding listen_any_def by (intro keeps_intros keeps_onNet; simp add: fresh_transport_def)

lemma keeps_init:
  "keeps (fresh_transport path n) (initWebSocket W C config)"
  "keeps (fresh_transport path n) (initSecureWebSocket W C config)"
  "keeps (fresh_transport path n) (initRegistrar C config)"
  unfolding initWebSocket_def initSecureWebSocket_def initRegistrar_def Let_def
  by (intro keeps_intros keeps_onNet keeps_listen_any; simp add: fresh_transport_def)+

lemma transport_init_run:
  assumes "transport_init W C config p n = (out, st)"
  shows "fresh_transport (get_or (cf_string C config ''mediaServer.net.websocket.path'') WEBSOCKET_PATH_DEFAULT)
      (config_threads (cf_uint C config ''mediaServer.net.websocket.threads'')) st \<and>
    (out = Inr () \<longrightarrow> tr_hasInsecure st \<or> tr_hasSecure st)"
proof -
  let ?path = "get_or (cf_string C config ''mediaServer.net.websocket.path'') WEBSOCKET_PATH_DEFAULT"
  let ?n = "config_threads (cf_uint C config ''mediaServer.net.websocket.threads'')"
  let ?m = "andThen (initWebSocket W C config) (\<lambda>_. andThen (initSecureWebSocket W C config) (\<lambda>_.
    andThen (reads (\<lambda>st. tr_hasInsecure st \<or> tr_hasSecure st)) (\<lambda>listening.
      if \<not> listening then raise (RuntimeError
        ''Cannot open a WebSocket listener on the specified port (multiple KMS instances?)'')
      else initRegistrar C config)))"
  let ?st0 = "\<lparr>tr_connections = [], tr_secure = [], tr_reverse = [], tr_handlers = [], tr_fresh = 0,
    tr_n_threads = ?n, tr_path = ?path, tr_hasInsecure = False, tr_hasSecure = False,
    tr_threads = 0, tr_keepAlive = False, tr_running = False, tr_registrar = None, tr_proc = p, tr_net = n\<rparr>"
  have run: "?m ?st0 = (out, st)" using assms by (simp add: transport_init_def Let_def)
  have K: "keeps (fresh_transport ?path ?n) ?m" by (intro keeps_intros keeps_init)
  have "fresh_transport ?path ?n ?st0" by (simp add: fresh_transport_def)
  note fresh = keepsD [where I = "fresh_transport ?path ?n" and m = ?m, OF K run this]
  have "wp ?m (\<lambda>_ st. tr_hasInsecure st \<or> tr_hasSecure st) (\<lambda>_ _. True) ?st0"
    unfolding wp_andThen
    by (rule wp_all; (rule TrueI)?; rule wp_all; (rule TrueI)?)
      (auto simp: wp_simps initRegistrar_def Let_def wp_def modify_def)
  from wp_Inr [OF this] fresh show ?thesis using run by blast
qed

section \<open>A concrete transport\<close>

definition demo_ws_env :: "(string list, string, (bool \<times> nat \<times> string) list) ws_env" where
  "demo_ws_env =
     \<lparr>we_generateUUID = ret ''uuid'', we_getId = (\<lambda>obj. obj), we_handler_alive = (\<lambda>_ _. True),
      we_writeJson = (\<lambda>_. ''json''), net_alive = (\<lambda>_ _. True), net_resource = (\<lambda>_ _. ''/kurento''),
      net_send = (\<lambda>sec h msg n. (Inr (), n @ [(sec, h, msg)])), net_close = (\<lambda>_ _. ret ()),
      net_setup = (\<lambda>_ _. ret ()), net_set_tls = (\<lambda>_ _. ret ()), net_max_connections = 128,
      net_address = Inr, net_listen_on = (\<lambda>_ _ _. ret ()), net_listen = (\<lambda>_ _ _. ret ()),
      net_start_accept = (\<lambda>_. ret ()), net_stop = (\<lambda>_. ret ()), fs_relative = (\<lambda>_. False),
      fs_join = (\<lambda>d f. d @ f), fs_exists = (\<lambda>_ _. True)\<rparr>"

definition demo_processor :: "(string list, string) processor" where
  "demo_processor =
     \<lparr>pr_process = (\<lambda>req resp sid p. (Inr (''s'', ''reply''), p @ [req])),
      pr_keepAliveSession = (\<lambda>s p. (if s = ''bad'' then Inl (KurentoException (OtherKms 1) ''no'') else Inr (),
                                  p @ [s])),
      pr_connectEventHandler = (\<lambda>obj s t h p. (Inr ''subscription'', p)),
      pr_registerEventHandler = (\<lambda>obj s b h. ret ())\<rparr>"

definition demo_ports :: "(string \<times> string) list" where
  "demo_ports = [(''mediaServer.net.websocket.port'', ''8888'')]"

definition demo_transport :: "(string list, string, (bool \<times> nat \<times> string) list) transport" where
  "demo_transport =
     \<lparr>tr_connections = [], tr_secure = [], tr_reverse = [], tr_handlers = [], tr_fresh = 0,
      tr_n_threads = 10, tr_path = ''kurento'', tr_hasInsecure = True, tr_hasSecure = False,
      tr_threads = 0, tr_keepAlive = False, tr_running = False, tr_registrar = None,
      tr_proc = [], tr_net = []\<rparr>"

lemma demo_transport_init: "transport_init demo_ws_env demo_config demo_ports [] [] = (Inr (), demo_transport)"
  by (simp add: transport_init_def demo_config_def demo_ports_def demo_ws_env_def initWebSocket_def
      initSecureWebSocket_def initRegistrar_def listen_any_def catch_websocket_def onNet_def zoom_def
      andThen_def handle_def modify_def get_or_def config_threads_def WEBSOCKET_THREADS_DEFAULT_def
      WEBSOCKET_PATH_DEFAULT_def WEBSOCKET_IPV6_DEFAULT_def DEFAULT_LOCAL_ADDRESS_def demo_transport_def)

definition demo_transport1 :: "(string list, string, (bool \<times> nat \<times> string) list) transport" where
  "demo_transport1 = demo_transport
     \<lparr>tr_connections := [(''s'', 1)], tr_reverse := [(1, ''s'')], tr_secure := [(''s'', False)],
      tr_proc := [''hello'', ''s''], tr_net := [(False, 1, ''reply'')]\<rparr>"

lemma demo_message:
  "processMessage demo_processor demo_ws_env False 1 ''hello'' demo_transport = (Inr (), demo_transport1)"
  by (simp add: processMessage_def demo_transport_def demo_transport1_def demo_processor_def demo_ws_env_def
      storeConnection_def associate_def forget_session_def forget_connection_def ignore_invalid_session_def
      onProc_def onNet_def zoom_def andThen_def handle_def modify_def)

lemma demo_live [simp]: "live demo_ws_env st h"
  by (simp add: live_def demo_ws_env_def)

lemma demo_steps: "ws_steps demo_processor demo_ws_env demo_transport demo_transport1"
  by (rule ws_steps.ws_more [OF ws_steps.ws_none ws_step.message [OF demo_live demo_message]])

lemma demo_transport1_inverse: "maps_inverse demo_transport1"
  by (simp add: maps_inverse_def inverse_maps_def demo_transport1_def wf_map_def)

section \<open>Properties\<close>

text \<open>
  The two views of the connections never disagree: in every state a constructed transport can
  reach through messages, connections opening and closing, subscriptions, events and keep-alive
  rounds, each with any outcome, a session has a connection exactly if that connection has that
  session, and a connection serves one session only.
\<close>

theorem sessions_and_connections_agree:
  assumes "transport_init W C config p n = (out, st0)" and "ws_steps P W st0 st"
  shows "(conn_of st s = Some h \<longleftrightarrow> sess_of st h = Some s) \<and>
    (conn_of st s = Some h \<longrightarrow> conn_of st s' = Some h \<longrightarrow> s' = s)"
proof -
  have "maps_inverse st0"
    using transport_init_run [OF assms(1)] by (simp add: fresh_transport_def maps_inverse_def)
  then have "maps_inverse st" by (rule ws_steps_inverse [OF assms(2)])
  then show ?thesis using sr.inverse sr.one_connection by blast
qed

theorem sessions_and_connections_agree_witness:
  "conn_of demo_transport1 ''s'' = Some 1 \<and> sess_of demo_transport1 1 = Some ''s'' \<and>
    conn_of demo_transport1 ''t'' \<noteq> Some 1"
  using sessions_and_connections_agree [OF demo_transport_init demo_steps, of "''s''" 1 "''t''"]
  by (simp add: conn_of_def demo_transport1_def)

text \<open>
  C11. The last word counts: from a consistent state, whatever the history of registrations on live
  connections and of closed connections, a session's connection is the one the history, read
  event by event, leaves it with: a registration takes a session from its old connection and a
  connection from its old session, a closed connection loses its session.
\<close>

theorem connection_history:
  assumes "maps_inverse st" and "sr.all_live W st es"
  shows "conn_of (sr.replay W st es) s = Some h \<longleftrightarrow> sr.last_session (sess_of st h) es h = Some s"
  using assms by (rule sr.replay_reaches)

theorem connection_history_witness:
  "conn_of (sr.replay demo_ws_env demo_transport1 [(Some ''s'', 2), (None, 1)]) ''s'' = Some 2 \<longleftrightarrow>
     sr.last_session (sess_of demo_transport1 2) [(Some ''s'', 2), (None, 1)] 2 = Some ''s''"
  by (rule connection_history [OF demo_transport1_inverse]) (simp add: sr.all_live_def)

text \<open>
  C16. A reply tells the transport where its session is: after a message whose reply names a
  session, on a live connection, that session has this connection and its kind, and what is sent
  to the session goes out on it through the right server.
\<close>

theorem events_follow_the_last_message:
  assumes "maps_inverse st" and "live W st h"
    and "pr_process P req [] (case sess_of st h of None \<Rightarrow> [] | Some s \<Rightarrow> s) (tr_proc st) = (Inr (sid, resp), p)"
    and "sid \<noteq> []" and "processMessage P W sec h req st = (Inr (), st')"
  shows "conn_of st' sid = Some h \<and> map_of (tr_secure st') sid = Some sec \<and>
    send W sid msg st' = catch_all (onNet (net_send W sec h msg)) (ret ()) st'"
proof -
  obtain b st1 where a: "associate W sid h (st\<lparr>tr_proc := p\<rparr>) = (b, st1)"
    by (cases "associate W sid h (st\<lparr>tr_proc := p\<rparr>)")
  have c1: "map_of (tr_connections st1) sid = Some h"
    using associate_props [OF _ _ a] assms(1,2) by simp
  let ?I = "\<lambda>st'. tr_connections st' = tr_connections st1"
  let ?J = "\<lambda>st'. ?I st' \<and> map_of (tr_secure st') sid = Some sec"
  let ?m = "if b then ignore_invalid_session (onProc (pr_keepAliveSession P sid)) else ret ()"
  let ?n = "handle (onNet (net_send W sec h resp)) (\<lambda>e. case e of WebSocketError _ \<Rightarrow> ret () | _ \<Rightarrow> raise e)"
  have keep: "keeps ?I ?m" by (intro keeps_intros keeps_onProc) simp
  have send: "keeps ?J ?n" by (intro keeps_intros keeps_onNet) simp
  from assms(5) obtain st2 st3 where m: "?m st1 = (Inr (), st2)"
    and st3: "st3 = st2\<lparr>tr_secure := AList.update sid sec (tr_secure st2)\<rparr>" and n: "?n st3 = (Inr (), st')"
    using assms(3,4)
    by (auto simp: processMessage_def storeConnection_def onProc_def zoom_def sess_of_def modify_def a
        elim!: andThen_InrE split: prod.splits)
  have "?I st2" by (rule keepsD [where I = ?I and m = ?m, OF keep m HOL.refl])
  then have J: "?J st3" by (simp add: st3)
  have "?J st'" by (rule keepsD [where I = ?J and m = ?n, OF send n J])
  then show ?thesis
    using c1 by (simp add: conn_of_def send_def getConnection_def secure_flag_def andThen_def catch_all_def handle_def)
qed

theorem events_follow_the_last_message_witness:
  "conn_of demo_transport1 ''s'' = Some 1 \<and> map_of (tr_secure demo_transport1) ''s'' = Some False \<and>
   send demo_ws_env ''s'' ''event'' demo_transport1 =
     catch_all (onNet (net_send demo_ws_env False 1 ''event'')) (ret ()) demo_transport1"
  by (rule events_follow_the_last_message [OF _ demo_live _ _ demo_message])
    (simp_all add: demo_transport_def maps_inverse_def demo_processor_def)

text \<open>
  C36. A failing keep-alive makes a TLS client deaf to events: when the first message of a session
  arrives over TLS and keeping the session alive fails with anything but \<open>INVALID_SESSION\<close>, the
  message gets no reply and the session is left with a connection but no note of its kind, so an
  event for it goes out on that connection through the plain server.
\<close>

theorem failed_keepalive_forgets_tls:
  assumes "conn_of st sid = None" and "sess_of st h = None" and "sid \<noteq> []"
    and "map_of (tr_secure st) sid = None"
    and "pr_keepAliveSession P sid (tr_proc st) = (Inl (KurentoException c m), p)" and "c \<noteq> INVALID_SESSION"
  shows "\<exists>st'. storeConnection P W h True sid st = (Inl (KurentoException c m), st') \<and>
    conn_of st' sid = Some h \<and> tr_net st' = tr_net st \<and>
    fst (send W sid msg st') = Inr () \<and>
    tr_net (snd (send W sid msg st')) = snd (net_send W False h msg (tr_net st))"
  using assms
  by (simp add: storeConnection_def associate_def forget_session_def forget_connection_def conn_of_def
      sess_of_def ignore_invalid_session_def onProc_def onNet_def zoom_def andThen_def handle_def
      send_def getConnection_def secure_flag_def catch_all_def split: prod.split sum.split)

theorem failed_keepalive_forgets_tls_witness:
  "\<exists>st'. storeConnection demo_processor demo_ws_env 1 True ''bad'' demo_transport =
      (Inl (KurentoException (OtherKms 1) ''no''), st') \<and>
    conn_of st' ''bad'' = Some 1 \<and> tr_net st' = tr_net demo_transport \<and>
    fst (send demo_ws_env ''bad'' ''event'' st') = Inr () \<and>
    tr_net (snd (send demo_ws_env ''bad'' ''event'' st')) =
      snd (net_send demo_ws_env False 1 ''event'' (tr_net demo_transport))"
  by (rule failed_keepalive_forgets_tls)
    (simp_all add: demo_transport_def demo_processor_def conn_of_def sess_of_def)

text \<open>
  The note of a session's kind can outlive the session: when a connection changes from one
  session to another and then closes, the connections are as before but the first session's note
  stays, for good.
\<close>

theorem old_session_note_is_kept:
  assumes "maps_inverse st" and "live W st h" and "sess_of st h = Some old" and "old \<noteq> sid" and "sid \<noteq> []"
    and "map_of (tr_secure st) old = Some b" and "storeConnection P W h sec sid st = (Inr (), st')"
  shows "conn_of st' old = None \<and> map_of (tr_secure (drop_connection st' h)) old = Some b \<and>
    conn_of (drop_connection st' h) old = None"
proof -
  obtain x st1 where a: "associate W sid h st = (x, st1)" by (cases "associate W sid h st")
  note A = associate_props [OF assms(1,2) a]
  let ?I = "\<lambda>st'. tr_connections st' = tr_connections st1 \<and> tr_reverse st' = tr_reverse st1 \<and>
    map_of (tr_secure st') old = Some b"
  have "map_of (tr_secure st1) old = Some b"
    using a assms(4,6)
    by (auto simp: associate_def forget_session_def forget_connection_def split: option.splits if_splits)
  then have start: "?I st1" using a by simp
  let ?m = "andThen (if x then ignore_invalid_session (onProc (pr_keepAliveSession P sid)) else ret ())
      (\<lambda>_. modify (\<lambda>st. st\<lparr>tr_secure := AList.update sid sec (tr_secure st)\<rparr>))"
  have keep: "keeps ?I ?m" using assms(4) by (intro keeps_intros keeps_onProc) simp_all
  have run: "?m st1 = (Inr (), st')"
    using assms(5,7) a by (simp add: storeConnection_def andThen_def)
  note I = keepsD [where I = ?I and m = ?m, OF keep run start]
  have inv: "maps_inverse st'" using storeConnection_inverse [OF assms(1,2,7)] .
  have "map_of (tr_connections st) old = Some h"
    using maps_inverseD [OF assms(1), of old h] assms(3) by (simp add: sess_of_def)
  then have "map_of (tr_reverse st) h' = Some old \<longleftrightarrow> h' = h" for h'
    using maps_inverseD [OF assms(1), of old h'] by auto
  then have "conn_of st' old \<noteq> Some h'" for h'
    using maps_inverseD [OF inv, of old h'] I A assms(4) by (auto simp: conn_of_def)
  then have none: "conn_of st' old = None" by (cases "conn_of st' old") auto
  then have "conn_of (drop_connection st' h) old = None" using sr.conn_drop [OF inv, of h old] by simp
  moreover have "map_of (tr_secure (drop_connection st' h)) old = Some b"
    using I A assms(4) by (simp add: drop_connection_def closeHandler_def modify_def)
  ultimately show ?thesis using none by simp
qed

theorem old_session_note_is_kept_witness:
  "conn_of (demo_transport1\<lparr>tr_connections := [(''t'', 1)], tr_reverse := [(1, ''t'')],
        tr_secure := [(''s'', False), (''t'', False)], tr_proc := [''hello'', ''s'', ''t'']\<rparr>) ''s'' = None \<and>
   map_of (tr_secure (drop_connection (demo_transport1\<lparr>tr_connections := [(''t'', 1)], tr_reverse := [(1, ''t'')],
        tr_secure := [(''s'', False), (''t'', False)], tr_proc := [''hello'', ''s'', ''t'']\<rparr>) 1)) ''s'' = Some False \<and>
   conn_of (drop_connection (demo_transport1\<lparr>tr_connections := [(''t'', 1)], tr_reverse := [(1, ''t'')],
        tr_secure := [(''s'', False), (''t'', False)], tr_proc := [''hello'', ''s'', ''t'']\<rparr>) 1) ''s'' = None"
proof (rule old_session_note_is_kept [OF demo_transport1_inverse demo_live])
  show "storeConnection demo_processor demo_ws_env 1 False ''t'' demo_transport1 =
    (Inr (), demo_transport1\<lparr>tr_connections := [(''t'', 1)], tr_reverse := [(1, ''t'')],
      tr_secure := [(''s'', False), (''t'', False)], tr_proc := [''hello'', ''s'', ''t'']\<rparr>)"
    by (simp add: storeConnection_def associate_def forget_session_def forget_connection_def
        ignore_invalid_session_def onProc_def zoom_def andThen_def handle_def modify_def
        demo_transport1_def demo_processor_def)
qed (simp_all add: sess_of_def demo_transport1_def)

lemma ignore_invalid_ok:
  assumes "\<And>e q. m s = (Inl e, q) \<Longrightarrow> \<exists>msg. e = KurentoException INVALID_SESSION msg"
  shows "ignore_invalid_session m s = (Inr (), snd (m s))"
proof (cases "m s")
  case (Pair r t)
  with assms show ?thesis by (cases r) (auto simp: ignore_invalid_session_def handle_def)
qed

lemma keepAlive_all_run:
  assumes "\<And>s p e q. s \<in> set conns \<Longrightarrow> pr_keepAliveSession P s p = (Inl e, q) \<Longrightarrow>
      \<exists>m. e = KurentoException INVALID_SESSION m"
  shows "keepAlive_all P conns st =
    (Inr (), st\<lparr>tr_proc := fold (\<lambda>s p. snd (pr_keepAliveSession P s p)) conns (tr_proc st)\<rparr>)"
  using assms
proof (induction conns arbitrary: st)
  case (Cons s conns)
  have "ignore_invalid_session (onProc (pr_keepAliveSession P s)) st =
      (Inr (), st\<lparr>tr_proc := snd (pr_keepAliveSession P s (tr_proc st))\<rparr>)"
    using Cons.prems [of s "tr_proc st"]
    by (subst ignore_invalid_ok) (auto simp: onProc_def zoom_def split: prod.splits)
  moreover let ?st' = "st\<lparr>tr_proc := snd (pr_keepAliveSession P s (tr_proc st))\<rparr>"
  have "keepAlive_all P conns ?st' =
      (Inr (), ?st'\<lparr>tr_proc := fold (\<lambda>s p. snd (pr_keepAliveSession P s p)) conns (tr_proc ?st')\<rparr>)"
  proof (rule Cons.IH)
    show "\<exists>m. e = KurentoException INVALID_SESSION m"
      if "s' \<in> set conns" "pr_keepAliveSession P s' p = (Inl e, q)" for s' p e q
      using Cons.prems [of s' p e q] that by simp
  qed
  ultimately show ?case by simp
qed simp

text \<open>
  C34. A round of keep-alives reaches every connected session: if a failing keep-alive fails only
  because the session is not known, the round ends without an exception and has kept alive every
  session that had a connection when it began, each once, in the order of the map, whether some
  of them are unknown or not.
\<close>

theorem keep_alive_reaches_every_session:
  assumes "\<And>s p e q. conn_of st s \<noteq> None \<Longrightarrow> pr_keepAliveSession P s p = (Inl e, q) \<Longrightarrow>
      \<exists>m. e = KurentoException INVALID_SESSION m"
    and "maps_inverse st"
  shows "\<exists>conns. distinct conns \<and> sorted conns \<and> set conns = {s. conn_of st s \<noteq> None} \<and>
    keepAlive_round P st =
      (Inr (), st\<lparr>tr_proc := fold (\<lambda>s p. snd (pr_keepAliveSession P s p)) conns (tr_proc st)\<rparr>)"
proof -
  let ?conns = "sort (map fst (tr_connections st))"
  have set: "set ?conns = {s. conn_of st s \<noteq> None}"
    by (auto simp: conn_of_def map_of_eq_None_iff)
  have "distinct ?conns" using assms(2) by (simp add: maps_inverse_def inverse_maps_def wf_map_def)
  moreover have "keepAlive_round P st =
      (Inr (), st\<lparr>tr_proc := fold (\<lambda>s p. snd (pr_keepAliveSession P s p)) ?conns (tr_proc st)\<rparr>)"
    unfolding keepAlive_round_def
    by (subst andThen_Inr [OF reads_run], rule keepAlive_all_run) (use assms(1) set in auto)
  moreover have "sorted ?conns" by (rule sorted_sort)
  ultimately show ?thesis using set by (intro exI [of _ ?conns] conjI)
qed

theorem keep_alive_reaches_every_session_witness:
  "\<exists>conns. distinct conns \<and> sorted conns \<and> set conns = {s. conn_of demo_transport1 s \<noteq> None} \<and>
    keepAlive_round demo_processor demo_transport1 =
      (Inr (), demo_transport1\<lparr>tr_proc :=
        fold (\<lambda>s p. snd (pr_keepAliveSession demo_processor s p)) conns (tr_proc demo_transport1)\<rparr>)"
  by (rule keep_alive_reaches_every_session [OF _ demo_transport1_inverse])
    (auto simp: conn_of_def demo_transport1_def demo_processor_def split: if_splits)

text \<open>
  One session ends the keep-alive of all: any other \<open>KurentoException\<close> for one connected
  session leaves the loop of the thread, whatever the other threads would have done next and
  however many rounds were to come.
\<close>

theorem keep_alive_thread_dies:
  assumes "map fst (tr_connections st) = [c]" and "tr_running st"
    and "pr_keepAliveSession P c (tr_proc st) = (Inl (KurentoException code m), p)" and "code \<noteq> INVALID_SESSION"
  shows "keepAliveSessions P (others # rest) st = (Inl (KurentoException code m), st\<lparr>tr_proc := p\<rparr>)"
  using assms
  by (simp add: keepAlive_round_def ignore_invalid_session_def onProc_def zoom_def andThen_def handle_def)

theorem keep_alive_thread_dies_witness:
  "keepAliveSessions demo_processor [id, id]
      (demo_transport\<lparr>tr_connections := [(''bad'', 1)], tr_reverse := [(1, ''bad'')], tr_running := True\<rparr>) =
    (Inl (KurentoException (OtherKms 1) ''no''),
     demo_transport\<lparr>tr_connections := [(''bad'', 1)], tr_reverse := [(1, ''bad'')], tr_running := True,
       tr_proc := [''bad'']\<rparr>)"
  by (rule keep_alive_thread_dies) (simp_all add: demo_transport_def demo_processor_def)

text \<open>
  A transport that could be constructed serves: at least one of its servers listens, it will
  run at least one and fewer than \<open>2^31\<close> service threads, whatever the configuration says, and it
  starts without connections.
\<close>

theorem constructed_transport_listens:
  assumes "transport_init W C config p n = (Inr (), st)"
  shows "(tr_hasInsecure st \<or> tr_hasSecure st) \<and> 1 \<le> tr_n_threads st \<and> tr_n_threads st < 2 ^ 31 \<and>
    (\<forall>s. conn_of st s = None) \<and> \<not> tr_running st"
  using transport_init_run [OF assms] config_threads_positive
  by (simp add: fresh_transport_def conn_of_def)

theorem constructed_transport_listens_witness:
  "(tr_hasInsecure demo_transport \<or> tr_hasSecure demo_transport) \<and> 1 \<le> tr_n_threads demo_transport \<and>
    tr_n_threads demo_transport < 2 ^ 31 \<and> (\<forall>s. conn_of demo_transport s = None) \<and> \<not> tr_running demo_transport"
  by (rule constructed_transport_listens [OF demo_transport_init])

text \<open>
  C33. Subscriptions to the same event share one handler: when there is none for the session, object
  and event, or the one noted has expired, a subscription connects a new handler of that object and
  session and notes it; a second subscription, in any state that still has the note, registers that
  very handler if it is alive, and connects nothing, and connects another handler if it has expired.
\<close>

theorem subscriptions_share_a_handler:
  assumes "\<And>h. map_of (tr_handlers st) (event_id s (we_getId W obj) t) = Some h \<Longrightarrow>
      \<not> we_handler_alive W (tr_proc st) h"
    and "processSubscription P W obj s t st = (Inr sub1, st1)"
  shows "\<exists>h. eh_object h = obj \<and> eh_session h = s \<and>
    map_of (tr_handlers st1) (event_id s (we_getId W obj) t) = Some h \<and>
    pr_connectEventHandler P obj s t h (tr_proc st) = (Inr sub1, tr_proc st1) \<and>
    (\<forall>st2. map_of (tr_handlers st2) (event_id s (we_getId W obj) t) = Some h \<longrightarrow>
      (if we_handler_alive W (tr_proc st2) h then
         processSubscription P W obj s t st2 =
           andThen (onProc (we_generateUUID W)) (\<lambda>sub2.
           andThen (onProc (pr_registerEventHandler P obj s sub2 h)) (\<lambda>_. ret sub2)) st2
       else
         fst (processSubscription P W obj s t st2) =
           fst (pr_connectEventHandler P obj s t \<lparr>eh_id = tr_fresh st2, eh_object = obj, eh_session = s\<rparr>
             (tr_proc st2))))"
proof -
  define h where "h = \<lparr>eh_id = tr_fresh st, eh_object = obj, eh_session = s\<rparr>"
  let ?id = "event_id s (we_getId W obj) t"
  obtain r p where c: "pr_connectEventHandler P obj s t h (tr_proc st) = (r, p)"
    by (cases "pr_connectEventHandler P obj s t h (tr_proc st)")
  have "(case map_of (tr_handlers st) ?id of None \<Rightarrow> None
      | Some h \<Rightarrow> if we_handler_alive W (tr_proc st) h then Some h else None) = None"
    using assms(1) by (simp split: option.split)
  then have "r = Inr sub1"
    and st1: "st1 = st\<lparr>tr_fresh := Suc (tr_fresh st), tr_proc := p,
      tr_handlers := AList.update ?id h (tr_handlers st)\<rparr>"
    using c assms(2) by (auto simp: processSubscription_def Let_def onProc_def zoom_def andThen_def
        modify_def h_def split: sum.splits)
  moreover have "processSubscription P W obj s t st2 =
      andThen (onProc (we_generateUUID W)) (\<lambda>sub2.
      andThen (onProc (pr_registerEventHandler P obj s sub2 h)) (\<lambda>_. ret sub2)) st2"
    if "map_of (tr_handlers st2) ?id = Some h" "we_handler_alive W (tr_proc st2) h" for st2
    unfolding processSubscription_def Let_def by (subst andThen_Inr [OF reads_run]) (simp add: that)
  moreover have "fst (processSubscription P W obj s t st2) =
      fst (pr_connectEventHandler P obj s t \<lparr>eh_id = tr_fresh st2, eh_object = obj, eh_session = s\<rparr> (tr_proc st2))"
    if "map_of (tr_handlers st2) ?id = Some h" "\<not> we_handler_alive W (tr_proc st2) h" for st2
    using that by (simp add: processSubscription_def Let_def onProc_def zoom_def andThen_def modify_def
        split: sum.split prod.split)
  ultimately show ?thesis using c by (intro exI [of _ h]) (simp add: h_def)
qed

text \<open>A handler noted for the event has expired; the second subscription finds the new one.\<close>

definition demo_expiring :: "(string list, string, (bool \<times> nat \<times> string) list) ws_env" where
  "demo_expiring = demo_ws_env\<lparr>we_handler_alive := (\<lambda>p h. eh_id h \<noteq> 7)\<rparr>"

definition demo_expired :: "(string list, string, (bool \<times> nat \<times> string) list) transport" where
  "demo_expired = demo_transport\<lparr>tr_handlers :=
     [(event_id ''s'' ''o'' ''t'', \<lparr>eh_id = 7, eh_object = ''o'', eh_session = ''s''\<rparr>)]\<rparr>"

theorem subscriptions_share_a_handler_witness:
  "\<exists>h st1. processSubscription demo_processor demo_expiring ''o'' ''s'' ''t'' demo_expired = (Inr ''subscription'', st1) \<and>
    eh_object h = ''o'' \<and> eh_session h = ''s'' \<and> map_of (tr_handlers st1) (event_id ''s'' ''o'' ''t'') = Some h \<and>
    processSubscription demo_processor demo_expiring ''o'' ''s'' ''t'' st1 = (Inr ''uuid'', st1)"
proof -
  let ?run = "processSubscription demo_processor demo_expiring ''o'' ''s'' ''t'' demo_expired"
  note defs = demo_expired_def demo_expiring_def demo_transport_def demo_processor_def demo_ws_env_def
    processSubscription_def Let_def onProc_def zoom_def andThen_def modify_def
  obtain r st1 where run: "?run = (r, st1)" by (cases ?run)
  then have r: "r = Inr ''subscription''" and alive: "\<And>h. map_of (tr_handlers st1) (event_id ''s'' ''o'' ''t'') = Some h \<Longrightarrow>
      we_handler_alive demo_expiring (tr_proc st1) h"
    by (auto simp: defs)
  have id: "event_id ''s'' (we_getId demo_expiring ''o'') ''t'' = event_id ''s'' ''o'' ''t''"
    by (simp add: demo_expiring_def demo_ws_env_def)
  have "\<exists>h. eh_object h = ''o'' \<and> eh_session h = ''s'' \<and> map_of (tr_handlers st1) (event_id ''s'' ''o'' ''t'') = Some h \<and>
      processSubscription demo_processor demo_expiring ''o'' ''s'' ''t'' st1 =
        andThen (onProc (we_generateUUID demo_expiring)) (\<lambda>sub2.
        andThen (onProc (pr_registerEventHandler demo_processor ''o'' ''s'' sub2 h)) (\<lambda>_. ret sub2)) st1"
    using subscriptions_share_a_handler [OF _ run [unfolded r]] alive
    unfolding id by (fastforce simp: demo_expired_def demo_expiring_def)
  then show ?thesis
    using run r by (auto simp: demo_processor_def demo_expiring_def demo_ws_env_def onProc_def zoom_def andThen_def)
qed

text \<open>
  The key of a shared handler is ambiguous: without a bar in sessions and object ids it tells
  subscriptions apart, with one it does not, so two different subscriptions get one key.
\<close>

theorem event_ids_are_ambiguous:
  "(CHR ''|'' \<notin> set s \<longrightarrow> CHR ''|'' \<notin> set s' \<longrightarrow> CHR ''|'' \<notin> set i \<longrightarrow> CHR ''|'' \<notin> set i' \<longrightarrow>
      event_id s i t = event_id s' i' t' \<longrightarrow> s = s' \<and> i = i' \<and> t = t') \<and>
   event_id ''s|o'' ''p'' ''t'' = event_id ''s'' ''o'' ''p|t''"
proof -
  have split: "a @ CHR ''|'' # b = a' @ CHR ''|'' # b' \<Longrightarrow> a = a' \<and> b = b'"
    if "CHR ''|'' \<notin> set a" "CHR ''|'' \<notin> set a'" for a a' b b' :: string
    using that
  proof (induction a arbitrary: a')
    case Nil
    then show ?case by (cases a') auto
  next
    case (Cons x a)
    then show ?case by (cases a') auto
  qed
  show ?thesis by (auto simp: event_id_def dest: split)
qed

theorem event_ids_are_ambiguous_witness:
  "event_id ''s'' ''o'' ''t'' \<noteq> event_id ''s'' ''o'' ''u'' \<and>
   event_id ''s|o'' ''p'' ''t'' = event_id ''s'' ''o'' ''p|t''"
  using event_ids_are_ambiguous [of "''s''" "''s''" "''o''" "''o''" "''t''" "''u''"] by simp

end
