(* ===== verification/Server_Rpc.thy ===== *)
theory Server_Rpc
  imports Server_Methods C_Strings
begin

text \<open>
  The rest of \<open>server/ServerMethods.cpp\<close>: a request from its text to the text of its response
  (\<open>process\<close>), the hooks of the request cache, transactions with their references to earlier
  results, and the constructor with its table of methods. The dispatcher, \<open>JsonRpc::Handler\<close>,
  belongs to a library: it is the parameter \<open>H\<close>, given the hooks and the table. A transaction
  calls the dispatcher again, so the dispatcher is tied to itself with a bound on the nesting,
  \<open>StackOverflow\<close> at the bound.
\<close>

section \<open>The dispatcher and what it is given\<close>

record 's rpc_config =
  cfg_pre :: "(json \<Rightarrow> json \<Rightarrow> ('s, exn, bool \<times> json) prog) option"
  cfg_post :: "(json \<Rightarrow> json \<Rightarrow> ('s, exn, json) prog) option"
  cfg_methods :: "(string \<times> (json \<Rightarrow> json \<Rightarrow> ('s, exn, json) prog)) list"

text \<open>A request and the response value so far, to the flag returned and the response.\<close>

type_synonym 's rpc_process = "json \<Rightarrow> json \<Rightarrow> ('s, exn, bool \<times> json) prog"

type_synonym 's rpc_handler = "'s rpc_config \<Rightarrow> 's rpc_process"

section \<open>Sessions of requests and responses\<close>

definition quoted :: "string \<Rightarrow> string" where
  "quoted s = CHR 0x27 # s @ [CHR 0x27]"

text \<open>\<open>value[k]\<close> as a reference: what it reads, and the value with the member in place.\<close>

definition jref :: "string \<Rightarrow> json \<Rightarrow> exn + json \<times> json" where
  "jref k v =
     (case jget v k of
        Inl e \<Rightarrow> Inl e
      | Inr w \<Rightarrow> (case jput k w v of Inl e \<Rightarrow> Inl e | Inr v' \<Rightarrow> Inr (w, v')))"

definition getSessionId :: "('w, 'o, 'f, 'h) kms_env \<Rightarrow> json \<Rightarrow> ('w server, exn, string) prog" where
  "getSessionId E resp =
     andThen (lift (isMember resp JSON_RPC_ERROR)) (\<lambda>isError.
       if isError then ret []
       else
         andThen (lift (getJson E resp JSON_RPC_RESULT)) (\<lambda>result.
         lift (getString E result SESSION_ID)))"

definition injectSessionId ::
  "('w, 'o, 'f, 'h) kms_env \<Rightarrow> json \<Rightarrow> string \<Rightarrow> ('w server, exn, json) prog" where
  "injectSessionId E req sessionId =
     catch_call
       (andThen (lift (jref JSON_RPC_PARAMS req)) (\<lambda>(params, req).
          catch_call
            (andThen (lift (getString E params SESSION_ID)) (\<lambda>_. ret req))
            (andThen (put SESSION_ID (JString sessionId) params) (\<lambda>params.
             put JSON_RPC_PARAMS params req))))
       (ret req)"

section \<open>The request cache's hooks\<close>

definition cached_response :: "string \<Rightarrow> string \<Rightarrow> ('w server, exn, json) prog" where
  "cached_response sessionId requestId s = (getCachedResponse (srv_cache s) sessionId requestId, s)"

definition cache_response :: "string \<Rightarrow> string \<Rightarrow> json \<Rightarrow> ('w server, exn, unit) prog" where
  "cache_response sessionId requestId response s =
     (Inr (), s\<lparr>srv_cache := addResponse (srv_cache s) sessionId requestId response\<rparr>)"

text \<open>Any exception, of whatever kind, means that the request is processed.\<close>

definition preProcess ::
  "('w, 'o, 'f, 'h) kms_env \<Rightarrow> json \<Rightarrow> json \<Rightarrow> ('w server, exn, bool \<times> json) prog" where
  "preProcess E request response =
     catch_all
       (andThen (lift (getString E request JSON_RPC_ID)) (\<lambda>requestId.
        andThen (lift (getJson E request JSON_RPC_PARAMS)) (\<lambda>params.
        andThen (lift (getString E params SESSION_ID)) (\<lambda>sessionId.
        andThen (cached_response sessionId requestId) (\<lambda>cached.
        ret (False, cached))))))
       (ret (True, response))"

text \<open>
  The session of a response: of its result, else of the request's parameters. A reading function
  throws no \<open>CacheException\<close>, so only the lookup can lead to the branch that adds.
\<close>

definition cache_key ::
  "('w, 'o, 'f, 'h) kms_env \<Rightarrow> json \<Rightarrow> json \<Rightarrow> ('w server, exn, string \<times> string) prog" where
  "cache_key E request response =
     andThen (lift (getString E request JSON_RPC_ID)) (\<lambda>requestId.
     andThen
       (catch_call
          (andThen (lift (getJson E response JSON_RPC_RESULT)) (\<lambda>result.
           lift (getString E result SESSION_ID)))
          (andThen (lift (getJson E request JSON_RPC_PARAMS)) (\<lambda>params.
           lift (getString E params SESSION_ID)))) (\<lambda>sessionId.
     ret (sessionId, requestId)))"

definition postProcess ::
  "('w, 'o, 'f, 'h) kms_env \<Rightarrow> json \<Rightarrow> json \<Rightarrow> ('w server, exn, json) prog" where
  "postProcess E request response =
     catch_call
       (andThen (cache_key E request response) (\<lambda>(sessionId, requestId).
        andThen
          (handle
             (andThen (cached_response sessionId requestId) (\<lambda>_. ret ()))
             (\<lambda>e. case e of CacheException _ \<Rightarrow> cache_response sessionId requestId response
                          | _ \<Rightarrow> raise e)) (\<lambda>_.
        ret response)))
       (ret response)"

section \<open>Transactions\<close>

definition malformed :: "('w, 'o, 'f, 'h) kms_env \<Rightarrow> string \<Rightarrow> exn" where
  "malformed E msg = call_exception E MALFORMED_TRANSACTION msg"

text \<open>\<open>responses[index]\<close> as a reference: the element, and the array grown to hold it.\<close>

definition jref_index :: "int \<Rightarrow> json \<Rightarrow> exn + json \<times> json" where
  "jref_index i v =
     (case jindex v i of
        Inl e \<Rightarrow> Inl e
      | Inr w \<Rightarrow> (case jput_index (nat i) w v of Inl e \<Rightarrow> Inl e | Inr v' \<Rightarrow> Inr (w, v')))"

definition insertResult ::
  "('w, 'o, 'f, 'h) kms_env \<Rightarrow> json \<Rightarrow> int \<Rightarrow> ('w server, exn, json \<times> json) prog" where
  "insertResult E responses index =
     catch_call
       (andThen (lift (jref_index index responses)) (\<lambda>(resp, responses).
        andThen (lift (getJson E resp JSON_RPC_RESULT)) (\<lambda>result.
        andThen (lift (jget result VALUE)) (\<lambda>value.
        ret (value, responses)))))
       (raise (malformed E (''Result not found on request '' @ to_string_int index)))"

definition NEW_REF :: string where
  "NEW_REF = ''newref:''"

text \<open>\<open>std::stoi\<close>.\<close>

definition stoi :: "string \<Rightarrow> exn + int" where
  "stoi s =
     (case strtol10 s of
        None \<Rightarrow> Inl (InvalidArgument ''stoi'')
      | Some i \<Rightarrow> if - (2 ^ 31) \<le> i \<and> i < 2 ^ 31 then Inr i else Inl (OutOfRange ''stoi''))"

definition injectRef ::
  "('w, 'o, 'f, 'h) kms_env \<Rightarrow> json \<Rightarrow> json \<Rightarrow> ('w server, exn, json \<times> json) prog" where
  "injectRef E params responses =
     (if isConvString E params then
        let param = asString E params
        in if length NEW_REF < length param \<and> substr param 0 (length NEW_REF) = NEW_REF then
             let ref = drop (length NEW_REF) param
             in handle
                  (andThen (lift (stoi ref)) (\<lambda>index. insertResult E responses index))
                  (\<lambda>e. case e of
                         InvalidArgument _ \<Rightarrow>
                           raise (malformed E (''Invalid index of newref '' @ quoted ref))
                       | _ \<Rightarrow> raise e)
           else ret (params, responses)
      else ret (params, responses))"

text \<open>Every member of an object and every element of an array, in order, to any depth.\<close>

fun injectRefs ::
  "('w, 'o, 'f, 'h) kms_env \<Rightarrow> json \<Rightarrow> json \<Rightarrow> ('w server, exn, json \<times> json) prog"
and injectRefs_elements ::
  "('w, 'o, 'f, 'h) kms_env \<Rightarrow> json list \<Rightarrow> json \<Rightarrow> ('w server, exn, json list \<times> json) prog"
and injectRefs_members ::
  "('w, 'o, 'f, 'h) kms_env \<Rightarrow> (string \<times> json) list \<Rightarrow> json \<Rightarrow>
   ('w server, exn, (string \<times> json) list \<times> json) prog" where
  "injectRefs E (JObject ms) responses =
     andThen (injectRefs_members E ms responses) (\<lambda>(ms, responses). ret (JObject ms, responses))"
| "injectRefs E (JArray vs) responses =
     andThen (injectRefs_elements E vs responses) (\<lambda>(vs, responses). ret (JArray vs, responses))"
| "injectRefs E params responses = injectRef E params responses"
| "injectRefs_elements E [] responses = ret ([], responses)"
| "injectRefs_elements E (v # vs) responses =
     andThen (injectRefs E v responses) (\<lambda>(v, responses).
     andThen (injectRefs_elements E vs responses) (\<lambda>(vs, responses).
     ret (v # vs, responses)))"
| "injectRefs_members E [] responses = ret ([], responses)"
| "injectRefs_members E ((k, v) # ms) responses =
     andThen (injectRefs E v responses) (\<lambda>(v, responses).
     andThen (injectRefs_members E ms responses) (\<lambda>(ms, responses).
     ret ((k, v) # ms, responses)))"

text \<open>
  One operation of a transaction, with its index: it gets the session, its id must be the index
  and becomes a fresh one, its references are replaced. Then the dispatcher answers it.
\<close>

definition transaction_request ::
  "('w, 'o, 'f, 'h) kms_env \<Rightarrow> string \<Rightarrow> string \<Rightarrow> nat \<Rightarrow> json \<Rightarrow> json \<Rightarrow>
   ('w server, exn, json \<times> json) prog" where
  "transaction_request E uniqueId sessionId i operation responses =
     andThen (lift (jref JSON_RPC_PARAMS operation)) (\<lambda>(reqParams, operation).
     andThen (put SESSION_ID (JString sessionId) reqParams) (\<lambda>reqParams.
     andThen (lift (jget operation JSON_RPC_ID)) (\<lambda>opId.
     andThen
       (if \<not> isConvUInt E opId then ret False
        else andThen (lift (asUInt E opId)) (\<lambda>n. ret (n = i))) (\<lambda>idOk.
     if \<not> idOk then
       raise (malformed E (''Id of request '' @ quoted (to_string_nat i) @ '' should be '' @
         quoted (to_string_nat i)))
     else
       andThen
         (catch_all
            (andThen (lift (asUInt E opId)) (\<lambda>n.
             put JSON_RPC_ID (JString (uniqueId @ ''_'' @ to_string_nat n)) operation))
            (ret operation)) (\<lambda>operation.
       andThen (injectRefs E reqParams responses) (\<lambda>(reqParams, responses).
       andThen (put JSON_RPC_PARAMS reqParams operation) (\<lambda>operation.
       ret (operation, responses))))))))"

definition transaction_step ::
  "('w, 'o, 'f, 'h) kms_env \<Rightarrow> 'w server rpc_process \<Rightarrow> string \<Rightarrow> string \<Rightarrow> nat \<Rightarrow> json \<Rightarrow> json \<Rightarrow>
   ('w server, exn, bool \<times> json) prog" where
  "transaction_step E dispatch uniqueId sessionId i operation responses =
     andThen (transaction_request E uniqueId sessionId i operation responses) (\<lambda>(operation, responses).
     andThen (lift (jref_index (int i) responses)) (\<lambda>(resp, responses).
     andThen (dispatch operation resp) (\<lambda>(more, resp).
     andThen (put JSON_RPC_ID (JInt (int i)) resp) (\<lambda>resp.
     andThen (lift (jput_index i resp responses)) (\<lambda>responses.
     ret (more, responses))))))"

fun transaction_loop ::
  "('w, 'o, 'f, 'h) kms_env \<Rightarrow> 'w server rpc_process \<Rightarrow> string \<Rightarrow> string \<Rightarrow> nat \<Rightarrow> json list \<Rightarrow> json \<Rightarrow>
   ('w server, exn, json) prog" where
  "transaction_loop E dispatch uniqueId sessionId i [] responses = ret responses"
| "transaction_loop E dispatch uniqueId sessionId i (operation # operations) responses =
     andThen (transaction_step E dispatch uniqueId sessionId i operation responses) (\<lambda>(more, responses).
       if \<not> more then ret responses
       else transaction_loop E dispatch uniqueId sessionId (Suc i) operations responses)"

definition transaction ::
  "('w, 'o, 'f, 'h) kms_env \<Rightarrow> 'w server rpc_process \<Rightarrow> json \<Rightarrow> json \<Rightarrow> ('w server, exn, json) prog" where
  "transaction E dispatch params response =
     andThen (generateUUID E) (\<lambda>uniqueId.
     andThen (requireParams params) (\<lambda>_.
     andThen (getOrCreateSessionId E params) (\<lambda>(sessionId, _).
     andThen (lift (getArray E params ''operations'')) (\<lambda>operations.
     andThen (transaction_loop E dispatch uniqueId sessionId 0 (elements operations) JNull) (\<lambda>responses.
     andThen (put VALUE (if responses = JNull then JArray [] else responses) response) (\<lambda>response.
     put SESSION_ID (JString sessionId) response))))))"

section \<open>The table of methods and a request\<close>

definition rpc_methods ::
  "('w, 'o, 'f, 'h) kms_env \<Rightarrow> ('w, 'o) subscription_handler option \<Rightarrow> 'w server rpc_process \<Rightarrow>
   (string \<times> (json \<Rightarrow> json \<Rightarrow> ('w server, exn, json) prog)) list" where
  "rpc_methods E sub dispatch =
     [(''connect'', connect E), (''create'', create E), (''invoke'', invoke E),
      (''subscribe'', subscribe E sub), (''unsubscribe'', unsubscribe E), (''release'', release E),
      (''ref'', ref_object E), (''unref'', unref_object E), (''keepAlive'', keepAlive E),
      (''describe'', describe E), (''transaction'', transaction E dispatch), (''ping'', ping E),
      (''closeSession'', closeSession E)]"

definition rpc_setup ::
  "('w, 'o, 'f, 'h) kms_env \<Rightarrow> ('w, 'o) subscription_handler option \<Rightarrow> bool \<Rightarrow> 'w server rpc_process \<Rightarrow>
   'w server rpc_config" where
  "rpc_setup E sub disableRequestCache dispatch =
     \<lparr>cfg_pre = (if disableRequestCache then None else Some (preProcess E)),
      cfg_post = (if disableRequestCache then None else Some (postProcess E)),
      cfg_methods = rpc_methods E sub dispatch\<rparr>"

text \<open>The dispatcher on the server's own table; \<open>depth\<close> bounds the nesting of transactions.\<close>

primrec dispatch ::
  "('w, 'o, 'f, 'h) kms_env \<Rightarrow> 'w server rpc_handler \<Rightarrow> ('w, 'o) subscription_handler option \<Rightarrow> bool \<Rightarrow>
   nat \<Rightarrow> 'w server rpc_process" where
  "dispatch E H sub disableRequestCache 0 = (\<lambda>request response. raise StackOverflow)"
| "dispatch E H sub disableRequestCache (Suc depth) =
     H (rpc_setup E sub disableRequestCache (dispatch E H sub disableRequestCache depth))"

text \<open>
  \<open>process\<close>: the session the response belongs to and the response's text, which stays as given
  when the response is null. A response that tells no session keeps the one known.
\<close>

definition process ::
  "('w, 'o, 'f, 'h) kms_env \<Rightarrow> 'w server rpc_process \<Rightarrow> string \<Rightarrow> string \<Rightarrow> string \<Rightarrow>
   ('w server, exn, string \<times> string) prog" where
  "process E handler_process requestStr responseStr sessionId =
     (case parseJson E requestStr of
        None \<Rightarrow> raise (CallException (Rpc PARSE_ERROR) ''Parse error.'' JNull)
      | Some request \<Rightarrow>
          andThen (if sessionId \<noteq> [] then injectSessionId E request sessionId else ret request) (\<lambda>request.
          andThen (handler_process request JNull) (\<lambda>(_, response).
          andThen (catch_call (getSessionId E response) (ret sessionId)) (\<lambda>newSessionId.
          ret (newSessionId, if response \<noteq> JNull then writeJson E response else responseStr)))))"

section \<open>The constructor\<close>

definition REQUEST_TIMEOUT :: nat where
  "REQUEST_TIMEOUT = 20000"

definition DEFAULT_RESOURCE_LIMIT_PERCENT :: rat where
  "DEFAULT_RESOURCE_LIMIT_PERCENT = f32_round (4 / 5)"

text \<open>
  The constructor reads its configuration, reads the system's limits once, names the instance
  and registers the server manager. The flag returned is \<open>disableRequestCache\<close>: whether the
  dispatcher is used without the hooks of the cache.
\<close>

definition server_methods_init ::
  "('w, 'o, 'f, 'h) kms_env \<Rightarrow> 't config_env \<Rightarrow> 't \<Rightarrow> string \<Rightarrow> limit_cache \<Rightarrow>
   ('w, exn, 'w \<Rightarrow> 'w server \<times> bool) prog" where
  "server_methods_init E C config version limits =
     andThen (reads (ms_getCollectorInterval E)) (\<lambda>interval.
     andThen (ms_setCollectorInterval E
       (get_or (cf_int C config ''mediaServer.resources.garbageCollectorPeriod'') interval)) (\<lambda>_.
     andThen (ret (get_or (cf_bool C config ''mediaServer.resources.disableRequestCache'') False))
       (\<lambda>disableRequestCache.
     andThen (ret (get_or (cf_float C config ''mediaServer.resources.exceptionLimit'')
       DEFAULT_RESOURCE_LIMIT_PERCENT)) (\<lambda>percent.
     andThen (reads (\<lambda>w. snd (getMaxThreads (osView E w) limits))) (\<lambda>limits1.
     andThen (reads (\<lambda>w. snd (getMaxOpenFiles (osView E w) limits1))) (\<lambda>limits2.
     andThen (\<lambda>w. case genUUID E w of (u, w') \<Rightarrow> (Inr u, w')) (\<lambda>instanceId.
     andThen (reads (mm_getModules E)) (\<lambda>modules.
     andThen (ms_setServerManager E
       \<lparr>si_version = version, si_modules = map snd modules, si_type = ''KMS'',
        si_capabilities = [''transactions'']\<rparr>) (\<lambda>_.
     ret (\<lambda>w. (\<lparr>srv_cache = request_cache_init REQUEST_TIMEOUT, srv_limits = limits2,
                srv_resourceLimitPercent = percent, srv_instanceId = instanceId, srv_world = w\<rparr>,
              disableRequestCache)))))))))))"

section \<open>Requests and sessions\<close>

text \<open>A request as a client sends it: an object whose parameters, if any, are an object.\<close>

definition plain_request :: "json \<Rightarrow> bool" where
  "plain_request req \<longleftrightarrow>
     isObject req \<and>
     (case jmember req JSON_RPC_PARAMS of None \<Rightarrow> True | Some params \<Rightarrow> objectLike params)"

definition request_session :: "json \<Rightarrow> json option" where
  "request_session req =
     (case jmember req JSON_RPC_PARAMS of None \<Rightarrow> None | Some params \<Rightarrow> jmember params SESSION_ID)"

lemma jget_objectLike [simp]:
  "objectLike v \<Longrightarrow> jget v k = Inr (case jmember v k of None \<Rightarrow> JNull | Some w \<Rightarrow> w)"
  by (cases v) (auto simp: objectLike_def)

lemma jref_objectLike [simp]:
  "objectLike v \<Longrightarrow> jref k v =
     (let w = (case jmember v k of None \<Rightarrow> JNull | Some w \<Rightarrow> w) in Inr (w, jset k w v))"
  by (simp add: jref_def Let_def)

lemma plain_request_objectLike: "plain_request req \<Longrightarrow> objectLike req"
  by (simp add: plain_request_def objectLike_def)

lemma reads_string:
  "reads_members E \<Longrightarrow> jmember v k = Some (JString x) \<Longrightarrow> getString E v k = Inr x"
  by (simp add: reads_members_def)

lemma reads_json: "reads_members E \<Longrightarrow> jmember v k = Some w \<Longrightarrow> getJson E v k = Inr w"
  by (simp add: reads_members_def)

lemma reads_missing:
  assumes "reads_members E" and "jmember v k = None" and "objectLike v"
  obtains c m d c' m' d' where "getString E v k = Inl (CallException c m d)"
    and "getJson E v k = Inl (CallException c' m' d')"
  using assms unfolding reads_members_def objectLike_def by blast

lemma injectSessionId_run:
  assumes "reads_members E" and "plain_request req"
    and "\<forall>v. request_session req = Some v \<longrightarrow> (\<exists>x. v = JString x)"
  defines "params \<equiv> case jmember req JSON_RPC_PARAMS of None \<Rightarrow> JNull | Some p \<Rightarrow> p"
  shows "injectSessionId E req sid s =
    (Inr (jset JSON_RPC_PARAMS
       (case request_session req of None \<Rightarrow> jset SESSION_ID (JString sid) params | Some _ \<Rightarrow> params)
       req), s)"
proof -
  have obj: "objectLike req" using assms(2) by (rule plain_request_objectLike)
  have params: "objectLike params"
    using assms(2) by (simp add: plain_request_def params_def split: option.splits)
  have sess: "request_session req = jmember params SESSION_ID"
    by (simp add: request_session_def params_def split: option.split)
  show ?thesis
  proof (cases "jmember params SESSION_ID")
    case None
    obtain c m d where "getString E params SESSION_ID = Inl (CallException c m d)"
      using reads_missing [OF assms(1) None params] by blast
    with None show ?thesis
      by (simp add: injectSessionId_def obj params sess put_def flip: params_def)
  next
    case (Some v)
    then obtain x where x: "v = JString x" using assms(3) sess by auto
    have "getString E params SESSION_ID = Inr x" using reads_string [OF assms(1)] Some x by simp
    with Some show ?thesis
      by (simp add: injectSessionId_def obj params sess flip: params_def)
  qed
qed

section \<open>The cache's hooks\<close>

text \<open>A request with the id and session by which its response is cached.\<close>

definition keyed_request :: "json \<Rightarrow> string \<Rightarrow> string \<Rightarrow> bool" where
  "keyed_request req sid rid \<longleftrightarrow>
     jmember req JSON_RPC_ID = Some (JString rid) \<and> request_session req = Some (JString sid)"

lemma keyed_request_reads:
  assumes "reads_members E" and "keyed_request req sid rid"
  obtains params where "getString E req JSON_RPC_ID = Inr rid"
    and "getJson E req JSON_RPC_PARAMS = Inr params" and "getString E params SESSION_ID = Inr sid"
proof -
  from assms(2) obtain params where
    "jmember req JSON_RPC_ID = Some (JString rid)"
    "jmember req JSON_RPC_PARAMS = Some params" "jmember params SESSION_ID = Some (JString sid)"
    by (auto simp: keyed_request_def request_session_def split: option.splits)
  with that show thesis by (simp add: assms(1) reads_string reads_json)
qed

lemma preProcess_run:
  assumes "reads_members E" and "keyed_request req sid rid"
  shows "preProcess E req resp s =
    (Inr (case getCachedResponse (srv_cache s) sid rid of Inr v \<Rightarrow> (False, v) | Inl _ \<Rightarrow> (True, resp)), s)"
proof -
  obtain params where "getString E req JSON_RPC_ID = Inr rid"
    "getJson E req JSON_RPC_PARAMS = Inr params" "getString E params SESSION_ID = Inr sid"
    using keyed_request_reads [OF assms] .
  then show ?thesis
    by (cases "getCachedResponse (srv_cache s) sid rid") (simp_all add: preProcess_def cached_response_def)
qed

text \<open>The response tells the session of the request, or none.\<close>

definition response_session_fits :: "json \<Rightarrow> string \<Rightarrow> bool" where
  "response_session_fits resp sid \<longleftrightarrow>
     objectLike resp \<and>
     (case jmember resp JSON_RPC_RESULT of
        None \<Rightarrow> True
      | Some result \<Rightarrow>
          objectLike result \<and> jmember result SESSION_ID \<in> {None, Some (JString sid)})"



section \<open>References to earlier results\<close>

text \<open>What a reference stands for, and a value with its references replaced.\<close>

definition ref_index :: "string \<Rightarrow> int option" where
  "ref_index x =
     (if length NEW_REF < length x \<and> take (length NEW_REF) x = NEW_REF
      then (case stoi (drop (length NEW_REF) x) of Inr i \<Rightarrow> Some i | Inl _ \<Rightarrow> None) else None)"

definition is_ref :: "string \<Rightarrow> bool" where
  "is_ref x \<longleftrightarrow> length NEW_REF < length x \<and> take (length NEW_REF) x = NEW_REF"

definition response_value :: "json list \<Rightarrow> int \<Rightarrow> json option" where
  "response_value rs i =
     (if 0 \<le> i \<and> nat i < length rs then
        (case jmember (rs ! nat i) JSON_RPC_RESULT of
           Some result \<Rightarrow> if objectLike result then Some (case jmember result VALUE of None \<Rightarrow> JNull | Some v \<Rightarrow> v)
                          else None
         | None \<Rightarrow> None)
      else None)"

fun replace_refs :: "(string \<Rightarrow> json) \<Rightarrow> json \<Rightarrow> json" where
  "replace_refs f (JObject ms) = JObject (map (\<lambda>(k, v). (k, replace_refs f v)) ms)"
| "replace_refs f (JArray vs) = JArray (map (replace_refs f) vs)"
| "replace_refs f (JString x) = (if is_ref x then f x else JString x)"
| "replace_refs f v = v"

fun refs_in :: "json \<Rightarrow> string list" where
  "refs_in (JObject ms) = concat (map (\<lambda>(k, v). refs_in v) ms)"
| "refs_in (JArray vs) = concat (map refs_in vs)"
| "refs_in (JString x) = (if is_ref x then [x] else [])"
| "refs_in v = []"

text \<open>
  The documented conversion to strings: a string converts to itself, and what another value
  converts to (a number, a truth value, nothing for null) is not a reference.
\<close>

definition converts_strings :: "('w, 'o, 'f, 'h) kms_env \<Rightarrow> bool" where
  "converts_strings E \<longleftrightarrow>
     (\<forall>x. isConvString E (JString x) \<and> asString E (JString x) = x) \<and>
     (\<forall>v. (\<nexists>x. v = JString x) \<longrightarrow> \<not> is_ref (asString E v))"

lemma jref_index_old: "nat i < length rs \<Longrightarrow> 0 \<le> i \<Longrightarrow> jref_index i (JArray rs) = Inr (rs ! nat i, JArray rs)"
  by (simp add: jref_index_def grow_def)

lemma insertResult_run:
  assumes "reads_members E" and "response_value rs i = Some w"
  shows "insertResult E (JArray rs) i s = (Inr (w, JArray rs), s)"
proof -
  from assms(2) obtain result where *: "0 \<le> i" "nat i < length rs"
    "jmember (rs ! nat i) JSON_RPC_RESULT = Some result" "objectLike result"
    "w = (case jmember result VALUE of None \<Rightarrow> JNull | Some v \<Rightarrow> v)"
    by (auto simp: response_value_def split: if_splits option.splits)
  then show ?thesis
    using reads_json [OF assms(1) *(3)] by (simp add: insertResult_def jref_index_old)
qed

lemma injectRef_other: "converts_strings E \<Longrightarrow> (\<nexists>x. v = JString x) \<Longrightarrow> injectRef E v rs s = (Inr (v, rs), s)"
  by (auto simp: injectRef_def converts_strings_def is_ref_def substr_def Let_def)

lemma injectRef_string:
  assumes "converts_strings E"
  shows "injectRef E (JString x) rs s =
    (if is_ref x then
       (case stoi (drop (length NEW_REF) x) of
          Inr i \<Rightarrow>
            handle (insertResult E rs i)
              (\<lambda>e. case e of InvalidArgument _ \<Rightarrow>
                       raise (malformed E (''Invalid index of newref '' @ quoted (drop (length NEW_REF) x)))
                   | _ \<Rightarrow> raise e) s
        | Inl (InvalidArgument _) \<Rightarrow>
            (Inl (malformed E (''Invalid index of newref '' @ quoted (drop (length NEW_REF) x))), s)
        | Inl e \<Rightarrow> (Inl e, s))
     else (Inr (JString x, rs), s))"
proof -
  have conv: "isConvString E (JString x)" "asString E (JString x) = x"
    using assms by (simp_all add: converts_strings_def)
  show ?thesis
    by (auto simp: injectRef_def conv is_ref_def substr_def Let_def handle_def andThen_def
        split: sum.split exn.split)
qed

lemma injectRefs_elements_run:
  assumes "\<And>v s. v \<in> set vs \<Longrightarrow> injectRefs E v rs s = (Inr (g v, rs), s)"
  shows "injectRefs_elements E vs rs s = (Inr (map g vs, rs), s)"
  using assms by (induction vs arbitrary: s) simp_all

lemma injectRefs_members_run:
  assumes "\<And>k v s. (k, v) \<in> set ms \<Longrightarrow> injectRefs E v rs s = (Inr (g v, rs), s)"
  shows "injectRefs_members E ms rs s = (Inr (map (\<lambda>(k, v). (k, g v)) ms, rs), s)"
  using assms
proof (induction ms arbitrary: s)
  case (Cons m ms)
  obtain k v where m: "m = (k, v)" by (cases m)
  have "injectRefs E v rs s = (Inr (g v, rs), s)" by (rule Cons.prems [of k]) (simp add: m)
  moreover have "injectRefs_members E ms rs s = (Inr (map (\<lambda>(k, v). (k, g v)) ms, rs), s)"
    using Cons.IH Cons.prems by (meson list.set_intros(2))
  ultimately show ?case by (simp add: m)
qed simp

lemma injectRefs_run:
  assumes E: "reads_members E" "converts_strings E"
    and "\<forall>x \<in> set (refs_in v). \<exists>i. ref_index x = Some i \<and> response_value rs i = Some (f x)"
  shows "injectRefs E v (JArray rs) s = (Inr (replace_refs f v, JArray rs), s)"
  using assms(3)
proof (induction v arbitrary: s)
  case (JString x)
  show ?case
  proof (cases "is_ref x")
    case True
    then obtain i where i: "ref_index x = Some i" "response_value rs i = Some (f x)"
      using JString by auto
    then have "stoi (drop (length NEW_REF) x) = Inr i"
      by (auto simp: ref_index_def split: if_splits sum.splits)
    then show ?thesis
      using True insertResult_run [OF E(1) i(2)] by (simp add: injectRef_string [OF E(2)])
  qed (simp add: injectRef_string [OF E(2)])
next
  case (JArray vs)
  have "injectRefs E v (JArray rs) s = (Inr (replace_refs f v, JArray rs), s)" if "v \<in> set vs" for v s
    using that JArray by auto
  then show ?case by (simp add: injectRefs_elements_run)
next
  case (JObject ms)
  have "injectRefs E v (JArray rs) s = (Inr (replace_refs f v, JArray rs), s)" if "(k, v) \<in> set ms" for k v s
    using that JObject by fastforce
  then show ?case by (simp add: injectRefs_members_run)
qed (simp_all add: injectRef_other [OF E(2)])

lemma is_ref_NEW_REF [simp]: "is_ref (NEW_REF @ x) \<longleftrightarrow> x \<noteq> []"
  by (simp add: is_ref_def)

lemma stoi_to_string_nat: "stoi (to_string_nat n) = (if n < 2 ^ 31 then Inr (int n) else Inl (OutOfRange ''stoi''))"
proof -
  have "int n < 2 ^ 31 \<longleftrightarrow> n < 2 ^ 31" by (metis of_nat_less_iff of_nat_numeral of_nat_power)
  then show ?thesis by (auto simp: stoi_def strtol_to_string_nat clamp_long_def)
qed

lemma ref_index_printed: "n < 2 ^ 31 \<Longrightarrow> ref_index (NEW_REF @ to_string_nat n) = Some (int n)"
  by (simp add: ref_index_def stoi_to_string_nat)

text \<open>What \<open>injectRefs\<close> does to the responses themselves: nothing.\<close>

lemma insertResult_keeps_responses:
  assumes "reads_members E" and "insertResult E rs i s = (Inr (w, rs'), t)" and "rs = JNull \<or> isArray rs"
  shows "rs' = rs \<and> t = s"
proof -
  obtain c m d where null: "getJson E JNull JSON_RPC_RESULT = Inl (CallException c m d)"
    by (rule reads_missing [OF assms(1), of JNull JSON_RPC_RESULT]) auto
  show ?thesis
  proof (cases "0 \<le> i \<and> nat i < length (elements rs)")
    case True
    then obtain vs where vs: "rs = JArray vs" using assms(3) by (cases rs) auto
    then show ?thesis
      using assms(2) True jref_index_old [of i vs]
      by (auto simp: insertResult_def catch_call_def handle_def andThen_def split: sum.splits if_splits)
  next
    case False
    then have "jindex rs i = (if i < 0 then Inl JsonLogicError else Inr JNull)"
      using assms(3) by (cases rs) auto
    moreover have "\<exists>q. jput_index (nat i) JNull rs = Inr q" using assms(3) by (cases rs) auto
    ultimately have "jref_index i rs = Inl JsonLogicError \<or> (\<exists>q. jref_index i rs = Inr (JNull, q))"
      by (auto simp: jref_index_def)
    then have "\<exists>e. insertResult E rs i s = (Inl e, s)"
      using null by (auto simp: insertResult_def catch_call_def handle_def andThen_def)
    then show ?thesis using assms(2) by simp
  qed
qed

lemma injectRef_keeps_responses:
  assumes "reads_members E" and "injectRef E v rs s = (Inr (w, rs'), t)" and "rs = JNull \<or> isArray rs"
  shows "rs' = rs \<and> t = s"
  using assms(2) insertResult_keeps_responses [OF assms(1) _ assms(3)]
  by (auto simp: injectRef_def Let_def handle_def andThen_def
      split: if_splits sum.splits exn.splits prod.splits)

lemma injectRefs_keeps_responses:
  assumes "reads_members E" and "rs = JNull \<or> isArray rs"
  shows "injectRefs E v rs s = (Inr (w, rs'), t) \<Longrightarrow> rs' = rs \<and> t = s"
proof (induction v arbitrary: w rs' s t)
  case (JArray vs)
  have "rs' = rs \<and> t = s" if "injectRefs_elements E us rs s = (Inr (w, rs'), t)" "set us \<subseteq> set vs"
    for us w rs' s t
    using that
    by (induction us arbitrary: w rs' s t)
      (auto elim!: andThen_InrE dest!: JArray.IH split: prod.splits)
  then show ?case using JArray.prems by (fastforce elim!: andThen_InrE split: prod.splits)
next
  case (JObject ms)
  have "rs' = rs \<and> t = s" if "injectRefs_members E us rs s = (Inr (w, rs'), t)" "set us \<subseteq> set ms"
    for us w rs' s t
    using that
  proof (induction us arbitrary: w rs' s t)
    case (Cons u us)
    obtain k v where u: "u = (k, v)" by (cases u)
    then have "v \<in> Basic_BNFs.snds u" "u \<in> set ms" using Cons.prems(2) by auto
    note IH = JObject.IH [OF this(2,1)]
    show ?case using Cons.prems IH Cons.IH
      by (fastforce simp: u elim!: andThen_InrE split: prod.splits)
  qed auto
  then show ?case using JObject.prems by (fastforce elim!: andThen_InrE split: prod.splits)
qed (auto dest: injectRef_keeps_responses [OF assms(1) _ assms(2)])

lemma injectRefs_members_keep:
  assumes "injectRefs_members E ms rs s = (Inr (ms', rs'), t)" and "map_of ms k = Some (JString x)"
    and "converts_strings E" and "\<not> is_ref x"
  shows "map_of ms' k = Some (JString x)"
  using assms(1,2)
proof (induction ms arbitrary: s rs ms')
  case (Cons m ms)
  obtain k' v where m: "m = (k', v)" by (cases m)
  from Cons.prems(1) obtain v' rs1 s1 ms1 where
    "injectRefs E v rs s = (Inr (v', rs1), s1)"
    "injectRefs_members E ms rs1 s1 = (Inr (ms1, rs'), t)" "ms' = (k', v') # ms1"
    by (auto simp: m elim!: andThen_InrE split: prod.splits)
  then show ?case
    using Cons m by (auto simp: injectRef_string [OF assms(3)] assms(4) split: if_splits)
qed simp

lemma injectRefs_object:
  assumes "injectRefs E p rs s = (Inr (p', rs'), t)" and "isObject p"
    and "jmember p k = Some (JString x)" and "converts_strings E" and "\<not> is_ref x"
  shows "jmember p' k = Some (JString x)"
  using assms injectRefs_members_keep [OF _ _ assms(4,5)]
  by (cases p) (fastforce elim!: andThen_InrE split: prod.splits)+

text \<open>A member that is a reference to a result becomes the value of that result.\<close>

lemma injectRefs_members_replace:
  assumes "injectRefs_members E ms (JArray rs) s = (Inr (ms', rs'), t)" and "map_of ms k = Some (JString x)"
    and "reads_members E" and "converts_strings E" and "ref_index x = Some i" and "response_value rs i = Some w"
  shows "map_of ms' k = Some w"
  using assms(1,2)
proof (induction ms arbitrary: s ms')
  case (Cons m ms)
  obtain k' v where m: "m = (k', v)" by (cases m)
  from Cons.prems(1) obtain v' rs1 s1 ms1 where
    v: "injectRefs E v (JArray rs) s = (Inr (v', rs1), s1)"
    "injectRefs_members E ms rs1 s1 = (Inr (ms1, rs'), t)" "ms' = (k', v') # ms1"
    by (auto simp: m elim!: andThen_InrE split: prod.splits)
  have rs1: "rs1 = JArray rs" using injectRefs_keeps_responses [OF assms(3) _ v(1)] by simp
  have only: "y = x" if "y \<in> set (refs_in (JString x))" for y using that by (cases "is_ref x") simp_all
  have "\<forall>y \<in> set (refs_in (JString x)). \<exists>i. ref_index y = Some i \<and> response_value rs i = Some w"
  proof
    fix y assume "y \<in> set (refs_in (JString x))"
    then have "y = x" by (rule only)
    then show "\<exists>i. ref_index y = Some i \<and> response_value rs i = Some w" using assms(5,6) by blast
  qed
  then have run: "injectRefs E (JString x) (JArray rs) s = (Inr (replace_refs (\<lambda>_. w) (JString x), JArray rs), s)"
    using injectRefs_run [OF assms(3,4), of "JString x" rs "\<lambda>_. w" s] by blast
  have "is_ref x" using assms(5) by (simp add: ref_index_def is_ref_def split: if_splits)
  then show ?case using Cons v rs1 run by (auto simp: m split: if_splits)
qed simp

lemma injectRefs_object_replace:
  assumes "injectRefs E p (JArray rs) s = (Inr (p', rs'), t)" and "isObject p"
    and "jmember p k = Some (JString x)"
    and "reads_members E" and "converts_strings E" and "ref_index x = Some i" and "response_value rs i = Some w"
  shows "jmember p' k = Some w"
proof (cases p)
  case (JObject ms)
  then show ?thesis
    using assms(1,3) injectRefs_members_replace [OF _ _ assms(4-7), of ms]
    by (auto elim!: andThen_InrE split: prod.splits)
qed (use assms(2) in simp_all)

section \<open>Transactions\<close>







text \<open>The requests a transaction hands to the dispatcher: its session, a fresh id.\<close>

definition belongs_to :: "string \<Rightarrow> string \<Rightarrow> json \<Rightarrow> bool" where
  "belongs_to uid sid req \<longleftrightarrow>
     request_session req = Some (JString sid) \<and>
     (\<exists>i. jmember req JSON_RPC_ID = Some (JString (uid @ ''_'' @ to_string_nat i)))"

lemma jref_isObject: "jref k v = Inr (w, v') \<Longrightarrow> isObject v'"
  by (auto simp: jref_def dest: jput_isObject split: sum.splits)

lemma isObject_objectLike: "isObject v \<Longrightarrow> objectLike v"
  by (simp add: objectLike_def)

lemma wp_injectRefs_object:
  assumes "converts_strings E" and "\<not> is_ref x" and "isObject p" and "jmember p k = Some (JString x)"
    and "\<And>p rs t. jmember p k = Some (JString x) \<Longrightarrow> Q (p, rs) t" and "\<And>e t. X e t"
  shows "wp (injectRefs E p rs) Q X s"
  using injectRefs_object [OF _ assms(3,4,1,2), of rs s] assms(5,6)
  by (fastforce simp: wp_def split: prod.split sum.split)

lemma wp_transaction_request:
  assumes E: "converts_strings E" and sid: "\<not> is_ref sid"
  shows "wp (transaction_request E uid sid i operation rs) (\<lambda>x _. belongs_to uid sid (fst x)) (\<lambda>_ _. True) s"
  unfolding transaction_request_def
  by (auto simp: wp_simps jput_jmember jput_isObject belongs_to_def request_session_def
        isObject_objectLike split: sum.split prod.split dest!: jref_isObject
      | rule wp_injectRefs_object [OF E sid, where k = SESSION_ID])+

text \<open>A session that is a reference to a result is replaced by that result.\<close>

lemma wp_injectRefs_replace:
  assumes "reads_members E" and "converts_strings E" and "ref_index x = Some i" and "response_value rs i = Some w"
    and "isObject p" and "jmember p k = Some (JString x)"
    and "\<And>p rs t. jmember p k = Some w \<Longrightarrow> Q (p, rs) t" and "\<And>e t. X e t"
  shows "wp (injectRefs E p (JArray rs)) Q X s"
  using injectRefs_object_replace [OF _ assms(5,6,1-4), of s] assms(7,8)
  by (fastforce simp: wp_def split: prod.split sum.split)

lemma wp_transaction_request_replaces:
  assumes "reads_members E" and "converts_strings E" and "ref_index sid = Some k" and "response_value rs k = Some w"
  shows "wp (transaction_request E uid sid i operation (JArray rs))
    (\<lambda>x _. request_session (fst x) = Some w) (\<lambda>_ _. True) s"
  unfolding transaction_request_def
  by (auto simp: wp_simps jput_jmember jput_isObject request_session_def
        isObject_objectLike split: sum.split prod.split dest!: jref_isObject
      | rule wp_injectRefs_replace [OF assms, where k = SESSION_ID])+

lemma andThen_cong_wp:
  "wp m P (\<lambda>_ _. True) s \<Longrightarrow> (\<And>x t. P x t \<Longrightarrow> f x t = g x t) \<Longrightarrow> andThen m f s = andThen m g s"
  by (auto simp: wp_def andThen_def split: prod.splits sum.splits)

lemma transaction_loop_cong:
  assumes E: "converts_strings E" "\<not> is_ref sid"
    and d: "\<And>req resp. belongs_to uid sid req \<Longrightarrow> d req resp = d' req resp"
  shows "transaction_loop E d uid sid i ops rs s = transaction_loop E d' uid sid i ops rs s"
proof (induction ops arbitrary: i rs s)
  case (Cons operation ops)
  have "transaction_step E d uid sid i operation rs s = transaction_step E d' uid sid i operation rs s"
    unfolding transaction_step_def
    by (rule andThen_cong_wp [OF wp_transaction_request [OF E]])
      (auto simp: d andThen_def split: prod.split sum.split)
  then show ?case
    unfolding transaction_loop.simps by (rule andThen_cong_run) (auto simp: Cons.IH)
qed simp

lemma getSessionId_fits:
  assumes E: "reads_members E" and resp: "response_session_fits resp sid"
  shows "\<exists>x. catch_call (getSessionId E resp) (ret conn) s = (Inr x, s)"
proof -
  have obj: "objectLike resp" using resp by (simp add: response_session_fits_def)
  then have err: "isMember resp JSON_RPC_ERROR = Inr (jmember resp JSON_RPC_ERROR \<noteq> None)"
    by (cases resp) (auto simp: objectLike_def)
  show ?thesis
  proof (cases "jmember resp JSON_RPC_ERROR = None")
    case False
    then show ?thesis by (simp add: getSessionId_def err catch_call_def handle_def andThen_def)
  next
    case True
    show ?thesis
    proof (cases "jmember resp JSON_RPC_RESULT")
      case None
      obtain c m d where "getJson E resp JSON_RPC_RESULT = Inl (CallException c m d)"
        using reads_missing [OF E None obj] by blast
      then show ?thesis using True by (simp add: getSessionId_def err catch_call_def handle_def andThen_def)
    next
      case (Some result)
      then have r: "objectLike result" "jmember result SESSION_ID \<in> {None, Some (JString sid)}"
        using resp by (simp_all add: response_session_fits_def)
      have js: "getJson E resp JSON_RPC_RESULT = Inr result" using reads_json [OF E Some] .
      show ?thesis
      proof (cases "jmember result SESSION_ID")
        case None
        obtain c m d where "getString E result SESSION_ID = Inl (CallException c m d)"
          using reads_missing [OF E None r(1)] by blast
        then show ?thesis using True js by (simp add: getSessionId_def err catch_call_def handle_def andThen_def)
      next
        case (Some v)
        then have "getString E result SESSION_ID = Inr sid" using r(2) reads_string [OF E] by simp
        then show ?thesis using True js by (simp add: getSessionId_def err catch_call_def handle_def andThen_def)
      qed
    qed
  qed
qed

section \<open>A concrete dispatcher\<close>

text \<open>What is used of the library's dispatcher: it asks the first hook, if there is one.\<close>

definition asks_cache_first :: "'s rpc_handler \<Rightarrow> bool" where
  "asks_cache_first H \<longleftrightarrow>
     (\<forall>cfg pre req resp s r t. cfg_pre cfg = Some pre \<longrightarrow> pre req resp s = (Inr (False, r), t) \<longrightarrow>
        (\<exists>b. H cfg req resp s = (Inr (b, r), t)))"

definition demo_handler :: "'s rpc_handler" where
  "demo_handler cfg req resp =
     andThen (case cfg_pre cfg of None \<Rightarrow> ret (True, resp) | Some pre \<Rightarrow> pre req resp) (\<lambda>(goOn, resp).
       if \<not> goOn then ret (True, resp)
       else
         (case jmember req ''method'' of
            Some (JString m) \<Rightarrow>
              (case map_of (cfg_methods cfg) m of
                 None \<Rightarrow> ret (False, JObject [(''error'', JString m)])
               | Some f \<Rightarrow>
                   andThen (f (case jmember req JSON_RPC_PARAMS of None \<Rightarrow> JNull | Some p \<Rightarrow> p) JNull)
                     (\<lambda>result.
                   andThen (ret (JObject [(''result'', result)])) (\<lambda>response.
                   case cfg_post cfg of
                     None \<Rightarrow> ret (True, response)
                   | Some post \<Rightarrow> andThen (post req response) (\<lambda>response. ret (True, response)))))
          | _ \<Rightarrow> ret (False, JObject [(''error'', JNull)])))"

lemma demo_handler_asks_cache_first: "asks_cache_first demo_handler"
  by (auto simp: asks_cache_first_def demo_handler_def)



lemma demo_converts_strings: "converts_strings demo_env"
  by (auto simp: converts_strings_def demo_env_def is_ref_def split: json.split)

text \<open>A request whose response is cached, from its text to the text of the response.\<close>

lemma process_cached:
  assumes "reads_members E" and "asks_cache_first H"
    and "parseJson E str = Some req" and "plain_request req" and "keyed_request req sid rid"
    and "getCachedResponse (srv_cache s) sid rid = Inr v"
    and "response_session_fits v sid" and "v \<noteq> JNull"
  shows "\<exists>session. process E (dispatch E H sub False (Suc depth)) str out conn s =
    (Inr (session, writeJson E v), s)"
proof -
  define req' where "req' = (if conn \<noteq> [] then jset JSON_RPC_PARAMS
    (case jmember req JSON_RPC_PARAMS of None \<Rightarrow> JNull | Some p \<Rightarrow> p) req else req)"
  have sess: "request_session req = Some (JString sid)"
    using assms(5) by (simp add: keyed_request_def)
  have inj: "(if conn \<noteq> [] then injectSessionId E req conn else ret req) s = (Inr req', s)"
    using injectSessionId_run [OF assms(1,4), of conn s] sess by (simp add: req'_def)
  have "keyed_request req' sid rid"
    using assms(5) by (auto simp: keyed_request_def request_session_def req'_def split: option.splits)
  then have "preProcess E req' JNull s = (Inr (False, v), s)"
    using preProcess_run [OF assms(1)] assms(6) by simp
  then obtain b where disp: "dispatch E H sub False (Suc depth) req' JNull s = (Inr (b, v), s)"
    using assms(2) by (fastforce simp: asks_cache_first_def rpc_setup_def)
  obtain x where "catch_call (getSessionId E v) (ret conn) s = (Inr x, s)"
    using getSessionId_fits [OF assms(1,7)] by blast
  then show ?thesis
    using inj disp assms(8) by (simp add: process_def assms(3) andThen_def)
qed

section \<open>Properties\<close>

text \<open>
  C5. A repeated request is not executed again: while a response is cached for the request's
  session and id, \<open>process\<close> returns the text of that response, at any depth and whatever session
  the connection has, and nothing changes, neither the cache nor the limits nor the world. This
  rests on the dispatcher asking the hook first.
\<close>

theorem repeated_request_is_not_executed:
  assumes "reads_members E" and "asks_cache_first H"
    and "parseJson E str = Some req" and "plain_request req" and "keyed_request req sid rid"
    and "getCachedResponse (srv_cache s) sid rid = Inr v"
    and "response_session_fits v sid" and "v \<noteq> JNull"
  shows "\<exists>session. process E (dispatch E H sub False (Suc depth)) str out conn s =
    (Inr (session, writeJson E v), s)"
  by (rule process_cached [OF assms])

definition demo_request :: json where
  "demo_request = JObject [(''id'', JString ''1''), (''method'', JString ''ping''),
     (''params'', JObject [(''sessionId'', JString ''s'')])]"

definition demo_response :: json where
  "demo_response = JObject [(''result'', JObject [(''sessionId'', JString ''s'')])]"

theorem repeated_request_is_not_executed_witness:
  "\<exists>session. process (demo_env\<lparr>parseJson := \<lambda>_. Some demo_request\<rparr>)
      (dispatch (demo_env\<lparr>parseJson := \<lambda>_. Some demo_request\<rparr>) demo_handler None False (Suc 3))
      ''text'' [] ''c''
      (demo_server\<lparr>srv_cache := addResponse (srv_cache demo_server) ''s'' ''1'' demo_response\<rparr>) =
    (Inr (session, writeJson (demo_env\<lparr>parseJson := \<lambda>_. Some demo_request\<rparr>) demo_response),
     demo_server\<lparr>srv_cache := addResponse (srv_cache demo_server) ''s'' ''1'' demo_response\<rparr>)"
proof (rule repeated_request_is_not_executed [where req = demo_request and sid = "''s''" and rid = "''1''"])
  show "reads_members (demo_env\<lparr>parseJson := \<lambda>_. Some demo_request\<rparr>)"
    using demo_reads_members by (simp add: reads_members_def)
  show "getCachedResponse (srv_cache (demo_server\<lparr>srv_cache := addResponse (srv_cache demo_server) ''s'' ''1''
      demo_response\<rparr>)) ''s'' ''1'' = Inr demo_response"
    using rc.get_add [OF cache_inv_init] by (simp add: demo_server_def)
qed (simp_all add: demo_handler_asks_cache_first demo_request_def demo_response_def plain_request_def
    keyed_request_def request_session_def response_session_fits_def objectLike_def)



text \<open>
  C25. \<open>injectSessionId\<close> gives the connection's session to a request that names none and changes
  nothing else: the session a request names stays, and so does every other parameter and every
  other member.
\<close>

theorem injectSessionId_only_fills_in:
  assumes "reads_members E" and "plain_request req"
    and "\<forall>v. request_session req = Some v \<longrightarrow> (\<exists>x. v = JString x)"
  shows "\<exists>req' params'. injectSessionId E req sid s = (Inr req', s) \<and>
    jmember req' JSON_RPC_PARAMS = Some params' \<and>
    jmember params' SESSION_ID =
      (case request_session req of None \<Rightarrow> Some (JString sid) | Some v \<Rightarrow> Some v) \<and>
    (\<forall>k. k \<noteq> JSON_RPC_PARAMS \<longrightarrow> jmember req' k = jmember req k) \<and>
    (\<forall>k. k \<noteq> SESSION_ID \<longrightarrow> jmember params' k =
       (case jmember req JSON_RPC_PARAMS of None \<Rightarrow> None | Some p \<Rightarrow> jmember p k))"
  using injectSessionId_run [OF assms, of sid s]
  by (cases "jmember req JSON_RPC_PARAMS"; cases "request_session req")
    (simp_all add: request_session_def)

theorem injectSessionId_only_fills_in_witness:
  "\<exists>req' params'. injectSessionId demo_env (JObject [(''method'', JString ''ping'')]) ''s'' demo_server =
      (Inr req', demo_server) \<and>
    jmember req' JSON_RPC_PARAMS = Some params' \<and>
    jmember params' SESSION_ID =
      (case request_session (JObject [(''method'', JString ''ping'')]) of
         None \<Rightarrow> Some (JString ''s'') | Some v \<Rightarrow> Some v) \<and>
    (\<forall>k. k \<noteq> JSON_RPC_PARAMS \<longrightarrow> jmember req' k = jmember (JObject [(''method'', JString ''ping'')]) k) \<and>
    (\<forall>k. k \<noteq> SESSION_ID \<longrightarrow> jmember params' k =
       (case jmember (JObject [(''method'', JString ''ping'')]) JSON_RPC_PARAMS of
          None \<Rightarrow> None | Some p \<Rightarrow> jmember p k))"
  by (rule injectSessionId_only_fills_in [OF demo_reads_members])
    (simp_all add: plain_request_def request_session_def)

text \<open>
  C7. \<open>injectRefs\<close> is substitution: when every reference in the parameters names an earlier
  response with a result, the parameters come back with each reference, at any depth, replaced
  by that result's value and everything else as it was, and the responses are left alone.
\<close>

theorem injectRefs_substitutes:
  assumes "reads_members E" and "converts_strings E"
    and "\<forall>x \<in> set (refs_in v). \<exists>i. ref_index x = Some i \<and> response_value rs i = Some (f x)"
  shows "injectRefs E v (JArray rs) s = (Inr (replace_refs f v, JArray rs), s)"
  using assms by (rule injectRefs_run)

theorem injectRefs_substitutes_witness:
  "injectRefs demo_env (JObject [(''object'', JString ''newref:0''), (''other'', JString ''newref'')])
      (JArray [JObject [(''result'', JObject [(''value'', JString ''pipeline'')])]]) demo_server =
    (Inr (replace_refs (\<lambda>_. JString ''pipeline'')
        (JObject [(''object'', JString ''newref:0''), (''other'', JString ''newref'')]),
      JArray [JObject [(''result'', JObject [(''value'', JString ''pipeline'')])]]), demo_server)"
proof (rule injectRefs_substitutes [OF demo_reads_members demo_converts_strings], intro ballI)
  fix x
  assume "x \<in> set (refs_in (JObject [(''object'', JString ''newref:0''), (''other'', JString ''newref'')]))"
  then have x: "x = NEW_REF @ to_string_nat 0"
    by (simp add: is_ref_def NEW_REF_def digits_in_small digit_char_def)
  show "\<exists>i. ref_index x = Some i \<and>
      response_value [JObject [(''result'', JObject [(''value'', JString ''pipeline'')])]] i =
        Some (JString ''pipeline'')"
    by (rule exI [of _ "int 0"])
      (simp add: x ref_index_printed [of 0] response_value_def objectLike_def)
qed

text \<open>
  A reference with an index beyond the range of \<open>int\<close> is not reported as a malformed
  transaction: \<open>std::out_of_range\<close> leaves \<open>injectRefs\<close>, and it is not an RPC error.
\<close>

theorem large_reference_escapes:
  assumes "converts_strings E" and "2 ^ 31 \<le> n"
  shows "injectRefs E (JString (NEW_REF @ to_string_nat n)) responses s =
      (Inl (OutOfRange ''stoi''), s) \<and> \<not> is_CallException (OutOfRange ''stoi'')"
  using assms(2) by (simp add: injectRef_string [OF assms(1)] stoi_to_string_nat)

theorem large_reference_escapes_witness:
  "injectRefs demo_env (JString (NEW_REF @ to_string_nat 3000000000)) JNull demo_server =
      (Inl (OutOfRange ''stoi''), demo_server) \<and> \<not> is_CallException (OutOfRange ''stoi'')"
  by (rule large_reference_escapes [OF demo_converts_strings]) simp



text \<open>
  C9. The dispatcher sees requests of the transaction's session only, be that session given or fresh,
  unless the session is written like a reference to an earlier result: two dispatchers that agree on
  requests with that session and an id made of the fresh identifier and an index give the same
  transaction. So an operation that names a session of its own is run in the transaction's, and no
  operation is answered from the cache for an id the client chose.
\<close>

theorem transaction_stays_in_its_session:
  assumes "converts_strings E" and "genUUID E (srv_world s) = (uid, w)"
    and "getOrCreateSessionId E params (s\<lparr>srv_world := w\<rparr>) = (Inr (sid, given), s1)" and "\<not> is_ref sid"
    and "\<And>req resp. belongs_to uid sid req \<Longrightarrow> d req resp = d' req resp"
  shows "transaction E d params r s = transaction E d' params r s"
proof -
  have "transaction_loop E d uid sid i ops rs t = transaction_loop E d' uid sid i ops rs t" for i ops rs t
    using assms(1,4,5) by (rule transaction_loop_cong)
  then show ?thesis
    by (simp add: transaction_def generateUUID_run [OF assms(2)] requireParams_def andThen_def assms(3)
        split: sum.split)
qed

text \<open>One operation, which names a session of its own, and a dispatcher that accepts only those of \<open>s\<close>.\<close>

definition demo_foreign :: json where
  "demo_foreign = JObject
     [(''operations'', JArray [JObject [(''id'', JInt 0), (''params'', JObject [(''sessionId'', JString ''mine'')])]]),
      (''sessionId'', JString ''s'')]"

lemma demo_foreign_run:
  "transaction demo_env (\<lambda>_ _. ret (True, JNull)) demo_foreign JNull demo_server =
     (Inr (JObject [(''sessionId'', JString ''s''), (''value'', JArray [JObject [(''id'', JInt 0)]])]),
      demo_server\<lparr>srv_world := \<lparr>dw_uuid = 1, dw_calls = []\<rparr>\<rparr>)"
  by (simp add: transaction_def demo_foreign_def requireParams_def getOrCreateSessionId_def
      transaction_step_def transaction_request_def injectRef_def put_def demo_getString_def demo_env_def
      demo_server_def generateUUID_def onWorld_def zoom_def jref_def jref_index_def jset_def grow_def
      andThen_def catch_call_def catch_all_def handle_def substr_def NEW_REF_def)

theorem transaction_stays_in_its_session_witness:
  "transaction demo_env (\<lambda>req resp. if belongs_to ''u0'' ''s'' req then ret (True, JNull) else raise NullPointer)
      demo_foreign JNull demo_server =
     (Inr (JObject [(''sessionId'', JString ''s''), (''value'', JArray [JObject [(''id'', JInt 0)]])]),
      demo_server\<lparr>srv_world := \<lparr>dw_uuid = 1, dw_calls = []\<rparr>\<rparr>)"
proof -
  have uuid: "genUUID demo_env (srv_world demo_server) = (''u0'', \<lparr>dw_uuid = 1, dw_calls = []\<rparr>)"
    by (simp add: demo_env_def demo_server_def digits_in_small digit_char_def)
  have "getOrCreateSessionId demo_env demo_foreign (demo_server\<lparr>srv_world := \<lparr>dw_uuid = 1, dw_calls = []\<rparr>\<rparr>) =
      (Inr (''s'', True), demo_server\<lparr>srv_world := \<lparr>dw_uuid = 1, dw_calls = []\<rparr>\<rparr>)"
    by (simp add: getOrCreateSessionId_def demo_foreign_def demo_getString_def catch_call_def handle_def andThen_def)
  moreover have "\<not> is_ref ''s''" by (simp add: is_ref_def NEW_REF_def)
  ultimately show ?thesis
    using transaction_stays_in_its_session [OF demo_converts_strings uuid, of demo_foreign "''s''" True _
        "\<lambda>req resp. if belongs_to ''u0'' ''s'' req then ret (True, JNull) else raise NullPointer"
        "\<lambda>_ _. ret (True, JNull)" JNull] demo_foreign_run
    by simp
qed

text \<open>
  C15. A session written like a reference leaves the transaction: if the session's name is \<open>newref:\<close> and
  the index of an operation whose result has a value, the request made of every later operation
  is in the session that value names, whatever it is.
\<close>

theorem session_like_a_reference_is_replaced:
  assumes "reads_members E" and "converts_strings E" and "k < 2 ^ 31" and "response_value rs (int k) = Some v"
    and "transaction_request E uid (NEW_REF @ to_string_nat k) i operation (JArray rs) s = (Inr (req, rs'), t)"
  shows "request_session req = Some v"
  using wp_Inr [OF wp_transaction_request_replaces [OF assms(1,2) ref_index_printed [OF assms(3)] assms(4)] assms(5)]
  by simp

theorem session_like_a_reference_is_replaced_witness:
  "request_session (JObject [(''id'', JString ''u_1''), (''params'', JObject [(''sessionId'', JString ''other'')])]) =
     Some (JString ''other'')"
proof (rule session_like_a_reference_is_replaced [OF demo_reads_members demo_converts_strings, of 0])
  let ?rs = "[JObject [(''id'', JInt 0), (''result'', JObject [(''value'', JString ''other'')])]]"
  show "response_value ?rs (int 0) = Some (JString ''other'')"
    by (simp add: response_value_def objectLike_def)
  have zero: "to_string_nat 0 = ''0''" "to_string_nat (Suc 0) = ''1''" "stoi ''0'' = Inr 0"
    using stoi_to_string_nat [of 0] by (simp_all add: digits_in_small digit_char_def)
  show "transaction_request demo_env ''u'' (NEW_REF @ to_string_nat 0) 1 (JObject [(''id'', JInt 1)]) (JArray ?rs) demo_server =
      (Inr (JObject [(''id'', JString ''u_1''), (''params'', JObject [(''sessionId'', JString ''other'')])], JArray ?rs),
       demo_server)"
    by (simp add: transaction_request_def injectRef_def put_def demo_env_def jref_def jset_def
        insertResult_def jref_index_def grow_def demo_getJson_def zero
        andThen_def catch_call_def catch_all_def handle_def substr_def NEW_REF_def)
qed simp

end
