(* ===== verification/Processor_Interface.thy ===== *)
theory Processor_Interface
  imports WebSocket_Transport Server_Rpc
begin

text \<open>
  The interface \<open>transport/Processor.hpp\<close> between the transport and the request processor, as the
  transport relies on it: keeping a session alive and the operations on event handlers leave a
  part of the processor, its \<open>view\<close>, as it is; only messages may change it. \<open>ServerMethods\<close> is
  the instance, with the response cache as the view.
\<close>

definition server_processor ::
  "('w, 'o, 'f, 'o ws_event_handler) kms_env \<Rightarrow> 'w server rpc_process \<Rightarrow> ('w server, 'o) processor" where
  "server_processor E handler_process =
     \<lparr>pr_process = process E handler_process,
      pr_keepAliveSession = keepAliveSession E,
      pr_connectEventHandler = connectEventHandler E,
      pr_registerEventHandler = registerEventHandler E\<rparr>"

locale quiet_processor =
  fixes P :: "('p, 'o) processor" and view :: "'p \<Rightarrow> 'v"
  assumes view_keepAlive: "view (snd (pr_keepAliveSession P s p)) = view p"
    and view_connect: "view (snd (pr_connectEventHandler P obj s t h p)) = view p"
    and view_register: "view (snd (pr_registerEventHandler P obj s b h p)) = view p"
begin

definition keeps_view :: "(('p, 'o, 'n) transport, exn, 'a) prog \<Rightarrow> bool" where
  "keeps_view m \<longleftrightarrow> (\<forall>v. keeps (\<lambda>st. view (tr_proc st) = v) m)"

lemma keeps_viewI: "(\<And>v. keeps (\<lambda>st. view (tr_proc st) = v) m) \<Longrightarrow> keeps_view m"
  by (simp add: keeps_view_def)

lemma keeps_viewD: "keeps_view m \<Longrightarrow> view (tr_proc (snd (m st))) = view (tr_proc st)"
  by (simp add: keeps_view_def keeps_def)

lemma view_onProc:
  "(\<And>p. view (snd (m p)) = view p) \<Longrightarrow> keeps (\<lambda>st. view (tr_proc st) = v) (onProc m)"
  by (auto simp: keeps_def onProc_def zoom_def split: prod.split) (metis snd_conv)

lemma view_onNet: "keeps (\<lambda>st. view (tr_proc st) = v) (onNet m)"
  by (rule keeps_onNet) simp

lemma keepAlive_all_view: "keeps (\<lambda>st. view (tr_proc st) = v) (keepAlive_all P conns)"
  by (induction conns; unfold keepAlive_all.simps; intro keeps_intros view_onProc view_keepAlive)

lemma keepAlive_round_view: "keeps_view (keepAlive_round P)"
  unfolding keepAlive_round_def by (intro keeps_viewI keeps_intros keepAlive_all_view)

lemma send_view: "keeps_view (send W s m)"
proof (rule keeps_viewI)
  fix v
  have "keeps (\<lambda>st. view (tr_proc st) = v) (getConnection s)"
    "keeps (\<lambda>st. view (tr_proc st) = v) (secure_flag s)"
    by (auto simp: keeps_def getConnection_def secure_flag_def split: option.split)
  then show "keeps (\<lambda>st. view (tr_proc st) = v) (send W s m)"
    unfolding send_def by (intro keeps_intros view_onNet)
qed

lemma sendEvent_view: "keeps_view (sendEvent W h value)"
  unfolding sendEvent_def
  by (intro keeps_viewI keeps_intros send_view [unfolded keeps_view_def, rule_format])

lemma closeHandler_view: "keeps_view (closeHandler h)"
  unfolding closeHandler_def by (intro keeps_viewI keeps_modify) (simp split: option.split)

lemma openHandler_view: "keeps_view (openHandler W sec h)"
proof (rule keeps_viewI)
  fix v
  have "keeps (\<lambda>st. view (tr_proc st) = v) (handle (onNet (net_close W sec h))
      (\<lambda>e. case e of WebSocketError _ \<Rightarrow> ret () | _ \<Rightarrow> raise e))"
    by (intro keeps_intros view_onNet)
  then show "keeps (\<lambda>st. view (tr_proc st) = v) (openHandler W sec h)"
    by (auto simp: keeps_def openHandler_def)
qed

lemma processSubscription_view:
  assumes "\<And>p. view (snd (we_generateUUID W p)) = view p"
  shows "keeps_view (processSubscription P W obj s t)"
proof (rule keeps_viewI)
  fix v
  have "keeps (\<lambda>st. view (tr_proc st) = v) (\<lambda>st. (Inr \<lparr>eh_id = tr_fresh st, eh_object = obj, eh_session = s\<rparr>,
      st\<lparr>tr_fresh := Suc (tr_fresh st)\<rparr>))"
    by (simp add: keeps_def)
  then show "keeps (\<lambda>st. view (tr_proc st) = v) (processSubscription P W obj s t)"
    unfolding processSubscription_def Let_def
    by (intro keeps_intros view_onProc view_connect view_register assms) simp_all
qed

lemma storeConnection_view: "keeps_view (storeConnection P W h sec s)"
proof (rule keeps_viewI)
  fix v
  have "keeps (\<lambda>st. view (tr_proc st) = v)
      (\<lambda>st. case associate W s h st of (b, st') \<Rightarrow> (Inr b, st'))"
    by (auto simp: keeps_def associate_def forget_session_def forget_connection_def
        split: option.split prod.split if_splits)
  then show "keeps (\<lambda>st. view (tr_proc st) = v) (storeConnection P W h sec s)"
    unfolding storeConnection_def
    by (intro keeps_intros view_onProc view_keepAlive) simp_all
qed

end

interpretation sp: quiet_processor "server_processor E handler_process" srv_cache
  for E :: "('w, 'o, 'f, 'o ws_event_handler) kms_env" and handler_process
proof (unfold_locales, goal_cases)
  case (1 s p)
  then show ?case by (simp add: server_processor_def keepAliveSession_def)
next
  case (2 obj s t h p)
  have "wp (connectEventHandler E obj s t h) (\<lambda>_ q. srv_cache q = srv_cache p) (\<lambda>_ q. srv_cache q = srv_cache p) p"
    by (simp add: connectEventHandler_def registerEventHandler_def wp_simps)
      (rule wp_all; simp add: wp_simps wp_all split: prod.split)
  then show ?case by (auto simp: server_processor_def wp_def split: prod.splits sum.splits)
next
  case (3 obj s b h p)
  then show ?case by (simp add: server_processor_def registerEventHandler_def)
qed

section \<open>A concrete transport over a concrete server\<close>

definition demo_server_ws :: "(demo_world server, string, (bool \<times> nat \<times> string) list) ws_env" where
  "demo_server_ws =
     \<lparr>we_generateUUID = generateUUID (demo_env_of :: (demo_world, string, string, unit) kms_env),
      we_getId = (\<lambda>obj. obj), we_handler_alive = (\<lambda>_ _. True),
      we_writeJson = (\<lambda>_. ''json''), net_alive = (\<lambda>_ _. True), net_resource = (\<lambda>_ _. ''/kurento''),
      net_send = (\<lambda>sec h msg n. (Inr (), n @ [(sec, h, msg)])), net_close = (\<lambda>_ _. ret ()),
      net_setup = (\<lambda>_ _. ret ()), net_set_tls = (\<lambda>_ _. ret ()), net_max_connections = 128,
      net_address = Inr, net_listen_on = (\<lambda>_ _ _. ret ()), net_listen = (\<lambda>_ _ _. ret ()),
      net_start_accept = (\<lambda>_. ret ()), net_stop = (\<lambda>_. ret ()), fs_relative = (\<lambda>_. False),
      fs_join = (\<lambda>d f. d @ f), fs_exists = (\<lambda>_ _. True)\<rparr>"

definition demo_server_transport :: "(demo_world server, string, (bool \<times> nat \<times> string) list) transport" where
  "demo_server_transport =
     \<lparr>tr_connections = [(''s'', 1)], tr_secure = [(''s'', False)], tr_reverse = [(1, ''s'')], tr_handlers = [],
      tr_fresh = 0, tr_n_threads = 10, tr_path = ''kurento'', tr_hasInsecure = True, tr_hasSecure = False,
      tr_threads = 0, tr_keepAlive = False, tr_running = False, tr_registrar = None,
      tr_proc = demo_server, tr_net = []\<rparr>"

definition demo_dispatch :: "demo_world server rpc_process" where
  "demo_dispatch = (\<lambda>request response. ret (True, response))"

section \<open>Properties\<close>

text \<open>
  Only messages touch the response cache: with \<open>ServerMethods\<close> as the processor, keep-alive
  rounds, events, connections opening and closing, registering a connection, and subscriptions
  leave the cached responses as they are, on every way out.
\<close>

theorem transport_leaves_the_cache:
  fixes E :: "('w, 'o, 'f, 'o ws_event_handler) kms_env"
  assumes "P = server_processor E d"
  shows "srv_cache (tr_proc (snd (keepAlive_round P st))) = srv_cache (tr_proc st) \<and>
    srv_cache (tr_proc (snd (storeConnection P W h sec s st))) = srv_cache (tr_proc st) \<and>
    srv_cache (tr_proc (snd (sendEvent W eh value st))) = srv_cache (tr_proc st) \<and>
    srv_cache (tr_proc (snd (openHandler W sec h st))) = srv_cache (tr_proc st) \<and>
    srv_cache (tr_proc (snd (closeHandler h st))) = srv_cache (tr_proc st) \<and>
    (we_generateUUID W = generateUUID E \<longrightarrow>
      srv_cache (tr_proc (snd (processSubscription P W obj s t st))) = srv_cache (tr_proc st))"
proof -
  have "srv_cache (snd (we_generateUUID W p)) = srv_cache p" if "we_generateUUID W = generateUUID E" for p
    using that by (simp add: generateUUID_def)
  note quiet = this
  have "srv_cache (tr_proc (snd (processSubscription P W obj s t st))) = srv_cache (tr_proc st)"
    if "we_generateUUID W = generateUUID E"
    unfolding assms(1) by (rule sp.keeps_viewD, rule sp.processSubscription_view, rule quiet [OF that])
  then show ?thesis
    unfolding assms(1)
    by (simp add: sp.keeps_viewD sp.keepAlive_round_view sp.storeConnection_view sp.sendEvent_view
        sp.openHandler_view sp.closeHandler_view)
qed

theorem transport_leaves_the_cache_witness:
  "srv_cache (tr_proc (snd (keepAlive_round (server_processor demo_env_of demo_dispatch) demo_server_transport))) =
      srv_cache demo_server \<and>
   srv_cache (tr_proc (snd (processSubscription (server_processor demo_env_of demo_dispatch) demo_server_ws
      ''o'' ''s'' ''t'' demo_server_transport))) = srv_cache demo_server"
  using transport_leaves_the_cache [OF HOL.refl, of demo_env_of demo_dispatch demo_server_transport demo_server_ws
      1 False "''s''" "\<lparr>eh_id = 0, eh_object = ''o'', eh_session = ''s''\<rparr>" JNull "''o''" "''t''"]
  by (simp add: demo_server_ws_def demo_server_transport_def generateUUID_def demo_env_def)

text \<open>
  A message that does not parse is never answered: \<open>process\<close> throws a parse error before it
  does anything, the exception leaves the message handler, and neither the connections nor the
  network nor the server have changed, so no error response was sent.
\<close>

theorem unparsable_message_is_not_answered:
  assumes "parseJson E req = None"
  shows "processMessage (server_processor E d) W sec h req st =
    (Inl (CallException (Rpc PARSE_ERROR) ''Parse error.'' JNull), st)"
  using assms
  by (simp add: processMessage_def server_processor_def process_def onProc_def zoom_def andThen_def)

theorem unparsable_message_is_not_answered_witness:
  "processMessage (server_processor demo_env_of demo_dispatch) demo_server_ws True 1 ''{'' demo_server_transport =
    (Inl (CallException (Rpc PARSE_ERROR) ''Parse error.'' JNull), demo_server_transport)"
  by (rule unparsable_message_is_not_answered) (simp add: demo_env_def)

end
