(* ===== verification/Handler_Threads.thy ===== *)
theory Handler_Threads
  imports WebSocket_Transport
begin

text \<open>
  The handlers of \<open>WebSocketTransport.cpp\<close> as the service threads run them: each is cut where it
  takes or releases the transport's mutex, or calls the processor or the library without it. A task
  is a handler before one of its sections; the sections of different tasks come in any order. Run
  without interruption, the sections of a handler are the handler.
\<close>

section \<open>Sections\<close>

datatype 'o ws_task =
    Reads bool nat string \<comment> \<open>a message: its connection and text\<close>
  | Processes bool nat string string \<comment> \<open>with the session of the connection\<close>
  | Stores bool nat string string \<comment> \<open>with the response's session, and the response\<close>
  | Replies bool nat string
  | Opens bool nat
  | Closes nat
  | Subscribes 'o string string
  | Notifies "'o ws_event_handler" json
  | Delivers bool nat string
  | Copies \<comment> \<open>a round of the keep-alive thread\<close>
  | KeepsAlive "string list"

text \<open>
  The sections of \<open>processMessage\<close>: the lookup of the connection's session, the request, the reply.
  Between them is \<open>storeConnection\<close>, which holds the mutex throughout. The request is one section here
  although the processor takes and releases locks of its own within it; what other threads may do
  there is the subject of \<open>Server_Invariants\<close>.
\<close>

definition session_section :: "nat \<Rightarrow> (('p, 'o, 'n) transport, exn, string) prog" where
  "session_section hdl = reads (\<lambda>st. case map_of (tr_reverse st) hdl of None \<Rightarrow> [] | Some s \<Rightarrow> s)"

definition request_section ::
  "('p, 'o) processor \<Rightarrow> string \<Rightarrow> string \<Rightarrow> (('p, 'o, 'n) transport, exn, string \<times> string) prog" where
  "request_section P request sessionId = onProc (pr_process P request [] sessionId)"

definition reply_section ::
  "('p, 'o, 'n) ws_env \<Rightarrow> bool \<Rightarrow> nat \<Rightarrow> string \<Rightarrow> (('p, 'o, 'n) transport, exn, unit) prog" where
  "reply_section W secure hdl response =
     handle (onNet (net_send W secure hdl response)) (\<lambda>e. case e of WebSocketError _ \<Rightarrow> ret () | _ \<Rightarrow> raise e)"

text \<open>
  The sections of an event: \<open>send\<close> with the mutex, up to the connection and its kind, and without it.
\<close>

definition lookup_section :: "string \<Rightarrow> (('p, 'o, 'n) transport, exn, bool \<times> nat) prog" where
  "lookup_section sessionId =
     andThen (getConnection sessionId) (\<lambda>hdl.
     andThen (secure_flag sessionId) (\<lambda>secure.
     ret (secure, hdl)))"

definition deliver_section ::
  "('p, 'o, 'n) ws_env \<Rightarrow> bool \<Rightarrow> nat \<Rightarrow> string \<Rightarrow> (('p, 'o, 'n) transport, exn, unit) prog" where
  "deliver_section W secure hdl message = onNet (net_send W secure hdl message)"

text \<open>The sections of a round of the keep-alive thread: the copy with the mutex, each session without it.\<close>

definition copy_section :: "(('p, 'o, 'n) transport, exn, string list) prog" where
  "copy_section = reads (\<lambda>st. sort (map fst (tr_connections st)))"

definition keepAlive_section ::
  "('p, 'o) processor \<Rightarrow> string \<Rightarrow> (('p, 'o, 'n) transport, exn, unit) prog" where
  "keepAlive_section P c = ignore_invalid_session (onProc (pr_keepAliveSession P c))"

lemmas section_defs = session_section_def request_section_def reply_section_def lookup_section_def
  deliver_section_def copy_section_def keepAlive_section_def

text \<open>One section of a task: what remains of the handler, or the exception that leaves it.\<close>

fun task_step ::
  "('p, 'o) processor \<Rightarrow> ('p, 'o, 'n) ws_env \<Rightarrow> 'o ws_task \<Rightarrow>
   (('p, 'o, 'n) transport, exn, 'o ws_task option) prog" where
  "task_step P W (Reads secure hdl request) =
     andThen (session_section hdl) (\<lambda>sessionId. ret (Some (Processes secure hdl request sessionId)))"
| "task_step P W (Processes secure hdl request sessionId) =
     andThen (request_section P request sessionId) (\<lambda>(sessionId, response).
     ret (Some (Stores secure hdl sessionId response)))"
| "task_step P W (Stores secure hdl sessionId response) =
     andThen (storeConnection P W hdl secure sessionId) (\<lambda>_. ret (Some (Replies secure hdl response)))"
| "task_step P W (Replies secure hdl response) =
     andThen (reply_section W secure hdl response) (\<lambda>_. ret None)"
| "task_step P W (Opens secure hdl) = andThen (openHandler W secure hdl) (\<lambda>_. ret None)"
| "task_step P W (Closes hdl) = andThen (closeHandler hdl) (\<lambda>_. ret None)"
| "task_step P W (Subscribes obj sessionId eventType) =
     andThen (processSubscription P W obj sessionId eventType) (\<lambda>_. ret None)"
| "task_step P W (Notifies handler value) =
     catch_all
       (andThen (lookup_section (eh_session handler)) (\<lambda>(secure, hdl).
        ret (Some (Delivers secure hdl (we_writeJson W (event_message value))))))
       (ret None)"
| "task_step P W (Delivers secure hdl message) =
     catch_all (andThen (deliver_section W secure hdl message) (\<lambda>_. ret None)) (ret None)"
| "task_step P W Copies = andThen copy_section (\<lambda>conns. ret (Some (KeepsAlive conns)))"
| "task_step P W (KeepsAlive []) = ret None"
| "task_step P W (KeepsAlive (c # conns)) =
     andThen (keepAlive_section P c) (\<lambda>_. ret (Some (KeepsAlive conns)))"

declare task_step.simps [simp del]

lemma lookup_event:
  "andThen (lookup_section s) (\<lambda>(secure, hdl). f secure hdl) =
     andThen (getConnection s) (\<lambda>hdl. andThen (secure_flag s) (\<lambda>secure. f secure hdl))"
  by (auto simp: lookup_section_def andThen_def fun_eq_iff split: prod.split sum.split)

lemmas task_sections [simp] =
  task_step.simps [unfolded lookup_event session_section_def request_section_def reply_section_def
    deliver_section_def copy_section_def keepAlive_section_def]

text \<open>A handler that no other interrupts, with a bound on the number of its sections.\<close>

primrec run_task ::
  "('p, 'o) processor \<Rightarrow> ('p, 'o, 'n) ws_env \<Rightarrow> nat \<Rightarrow> 'o ws_task \<Rightarrow> (('p, 'o, 'n) transport, exn, unit) prog" where
  "run_task P W 0 t = raise StackOverflow"
| "run_task P W (Suc n) t =
     andThen (task_step P W t) (\<lambda>rest. case rest of None \<Rightarrow> ret () | Some t' \<Rightarrow> run_task P W n t')"

text \<open>The number of sections a handler may still run.\<close>

fun sections :: "'o ws_task \<Rightarrow> ('p, 'o, 'n) transport \<Rightarrow> nat" where
  "sections (Reads _ _ _) st = 4"
| "sections (Processes _ _ _ _) st = 3"
| "sections (Stores _ _ _ _) st = 2"
| "sections (Notifies _ _) st = 2"
| "sections Copies st = length (tr_connections st) + 2"
| "sections (KeepsAlive conns) st = length conns + 1"
| "sections _ st = 1"

section \<open>The handlers are their sections\<close>

lemma andThen_ret: "andThen m (\<lambda>x. ret x) = m" "andThen (ret x) f = f x"
  by (auto simp: andThen_def fun_eq_iff split: prod.split sum.split)

lemma andThen_ret_unit: "andThen m (\<lambda>_. ret ()) = m"
  by (auto simp: andThen_def fun_eq_iff split: prod.split sum.split)

lemma run_message: "run_task P W (Suc (Suc (Suc (Suc n)))) (Reads secure hdl request) = processMessage P W secure hdl request"
  by (simp add: processMessage_def andThen_assoc andThen_ret andThen_ret_unit case_prod_unfold
      del: ret_run cong: prod.case_cong)

lemma run_single:
  "run_task P W (Suc n) (Opens secure hdl) = openHandler W secure hdl"
  "run_task P W (Suc n) (Closes hdl) = closeHandler hdl"
  "andThen (processSubscription P W obj s t) (\<lambda>_. ret ()) = run_task P W (Suc n) (Subscribes obj s t)"
  by (simp_all add: andThen_assoc andThen_ret andThen_ret_unit del: ret_run)

lemma run_event: "run_task P W (Suc (Suc n)) (Notifies handler value) = sendEvent W handler value"
  by (rule ext)
    (auto simp: sendEvent_def send_def catch_all_def handle_def andThen_def getConnection_def secure_flag_def
      split: option.split prod.split sum.split exn.split)

lemma run_keepAlive_all: "length conns \<le> n \<Longrightarrow> run_task P W (Suc n) (KeepsAlive conns) = keepAlive_all P conns"
proof (induction conns arbitrary: n)
  case (Cons c conns)
  then obtain k where k: "n = Suc k" "length conns \<le> k" by (cases n) auto
  show ?case
    using Cons.IH [OF k(2)] by (simp add: k(1) andThen_assoc andThen_ret del: ret_run)
qed (simp add: andThen_ret del: ret_run)

lemma run_round:
  "length (tr_connections st) \<le> n \<Longrightarrow> run_task P W (Suc (Suc n)) Copies st = keepAlive_round P st"
  using run_keepAlive_all [of "sort (map fst (tr_connections st))" n P W]
  by (simp add: keepAlive_round_def andThen_def)

section \<open>Tasks interleaved\<close>

text \<open>
  Any handler may start at any time, and any task may run its next section. The connection a message
  came on is alive as long as its handler runs: the library holds on to it.
\<close>

fun starts :: "'o ws_task \<Rightarrow> bool" where
  "starts (Reads _ _ _) = True"
| "starts (Opens _ _) = True"
| "starts (Closes _) = True"
| "starts (Subscribes _ _ _) = True"
| "starts (Notifies _ _) = True"
| "starts Copies = True"
| "starts _ = False"

fun held :: "('p, 'o, 'n) ws_env \<Rightarrow> ('p, 'o, 'n) transport \<Rightarrow> 'o ws_task \<Rightarrow> bool" where
  "held W st (Reads _ hdl _) = live W st hdl"
| "held W st (Processes _ hdl _ _) = live W st hdl"
| "held W st (Stores _ hdl _ _) = live W st hdl"
| "held W st _ = True"

definition remains :: "exn + 'o ws_task option \<Rightarrow> 'o ws_task list" where
  "remains out = (case out of Inr (Some t) \<Rightarrow> [t] | _ \<Rightarrow> [])"

inductive pool_step ::
  "('p, 'o) processor \<Rightarrow> ('p, 'o, 'n) ws_env \<Rightarrow> ('o ws_task \<Rightarrow> bool) \<Rightarrow>
   'o ws_task list \<times> ('p, 'o, 'n) transport \<Rightarrow> 'o ws_task list \<times> ('p, 'o, 'n) transport \<Rightarrow> bool"
  for P W allowed where
  enters: "starts t \<Longrightarrow> allowed t \<Longrightarrow> pool_step P W allowed (ts, st) (t # ts, st)"
| runs: "held W st t \<Longrightarrow> task_step P W t st = (out, st') \<Longrightarrow>
    pool_step P W allowed (ts @ t # us, st) (ts @ remains out @ us, st')"

abbreviation pool_runs where
  "pool_runs P W allowed \<equiv> (pool_step P W allowed)\<^sup>*\<^sup>*"

lemma pool_induct [consumes 1, case_names start enters runs]:
  assumes "pool_runs P W allowed (ts0, st0) (ts, st)" and "Q ts0 st0"
    and "\<And>t ts st. Q ts st \<Longrightarrow> starts t \<Longrightarrow> allowed t \<Longrightarrow> Q (t # ts) st"
    and "\<And>t ts us st out st'. Q (ts @ t # us) st \<Longrightarrow> held W st t \<Longrightarrow> task_step P W t st = (out, st') \<Longrightarrow>
      Q (ts @ remains out @ us) st'"
  shows "Q ts st"
  using assms(1)
proof (induction rule: rtranclp_induct2)
  case refl
  show ?case by (rule assms(2))
next
  case (step ts st ts' st')
  from step.hyps(2) show ?case
  proof cases
    case (enters t)
    then show ?thesis using assms(3) [OF step.IH] by simp
  next
    case (runs t out us vs)
    then show ?thesis using assms(4) [of us t vs st out st'] step.IH by simp
  qed
qed

section \<open>The connections\<close>

lemma task_keeps_inverse:
  assumes "maps_inverse st" and "held W st t" and "task_step P W t st = (out, st')"
  shows "maps_inverse st'"
proof -
  note end_state = keepsD [where I = maps_inverse and m = "task_step P W t", OF _ assms(3,1)]
  show ?thesis
  proof (cases t)
    case (Stores sec h s response)
    obtain r st1 where sc: "storeConnection P W h sec s st = (r, st1)" by (cases "storeConnection P W h sec s st")
    have "maps_inverse st1" by (rule storeConnection_inverse [OF assms(1) _ sc]) (use assms(2) Stores in simp)
    then show ?thesis using assms(3) Stores sc by (auto simp: andThen_def split: sum.splits)
  next
    case (Opens sec h)
    have "keeps maps_inverse (task_step P W t)"
      unfolding Opens task_sections by (intro keeps_intros keeps_open_inverse)
    then show ?thesis by (rule end_state)
  next
    case (Closes h)
    have "keeps maps_inverse (task_step P W t)"
      unfolding Closes task_sections by (intro keeps_intros keeps_close_inverse)
    then show ?thesis by (rule end_state)
  next
    case (Subscribes obj s e)
    have "keeps maps_inverse (task_step P W t)"
      unfolding Subscribes task_sections by (intro keeps_intros keeps_subscription_inverse)
    then show ?thesis by (rule end_state)
  next
    case (Notifies eh v)
    have "keeps maps_inverse (getConnection (eh_session eh))" "keeps maps_inverse (secure_flag (eh_session eh))"
      by (auto simp: keeps_def getConnection_def secure_flag_def split: option.split)
    then have "keeps maps_inverse (task_step P W t)" unfolding Notifies task_sections by (intro keeps_intros)
    then show ?thesis by (rule end_state)
  next
    case (KeepsAlive conns)
    have "keeps maps_inverse (task_step P W t)"
      unfolding KeepsAlive by (cases conns; simp only: task_sections; intro keeps_intros keeps_onProc; simp)
    then show ?thesis by (rule end_state)
  next
    case (Processes sec h req s)
    have "keeps maps_inverse (task_step P W t)"
      unfolding Processes task_sections by (intro keeps_intros keeps_onProc) simp
    then show ?thesis by (rule end_state)
  next
    case (Replies sec h response)
    have "keeps maps_inverse (task_step P W t)"
      unfolding Replies task_sections by (intro keeps_intros keeps_onNet) simp
    then show ?thesis by (rule end_state)
  next
    case (Delivers sec h message)
    have "keeps maps_inverse (task_step P W t)"
      unfolding Delivers task_sections by (intro keeps_intros keeps_onNet) simp
    then show ?thesis by (rule end_state)
  qed (use assms in \<open>auto simp: andThen_def\<close>)
qed

lemma pool_keeps_inverse:
  "pool_runs P W allowed (ts0, st0) (ts, st) \<Longrightarrow> maps_inverse st0 \<Longrightarrow> maps_inverse st"
  by (induction rule: pool_induct) (auto intro: task_keeps_inverse)

section \<open>The kind of a connection\<close>

text \<open>
  A connection is TLS or not; the server it came on tells the handler. The note \<open>secureConnections\<close>
  keeps for a connected session is right as long as keeping sessions alive fails only because a
  session is not known.
\<close>

fun of_kind :: "(nat \<Rightarrow> bool) \<Rightarrow> 'o ws_task \<Rightarrow> bool" where
  "of_kind kind (Reads secure hdl _) = (secure = kind hdl)"
| "of_kind kind (Processes secure hdl _ _) = (secure = kind hdl)"
| "of_kind kind (Stores secure hdl _ _) = (secure = kind hdl)"
| "of_kind kind (Replies secure hdl _) = (secure = kind hdl)"
| "of_kind kind (Delivers secure hdl _) = (secure = kind hdl)"
| "of_kind kind _ = True"

definition noted :: "(nat \<Rightarrow> bool) \<Rightarrow> ('p, 'o, 'n) transport \<Rightarrow> bool" where
  "noted kind st \<longleftrightarrow>
     (\<forall>s h. map_of (tr_connections st) s = Some h \<longrightarrow> map_of (tr_secure st) s = Some (kind h))"

definition quiet_keepAlive :: "('p, 'o) processor \<Rightarrow> bool" where
  "quiet_keepAlive P \<longleftrightarrow>
     (\<forall>s p. case fst (pr_keepAliveSession P s p) of
        Inr _ \<Rightarrow> True
      | Inl (KurentoException code _) \<Rightarrow> code = INVALID_SESSION
      | Inl _ \<Rightarrow> False)"

lemma quiet_keepAlive_run:
  assumes "quiet_keepAlive P"
  shows "\<exists>p. ignore_invalid_session (onProc (pr_keepAliveSession P s)) st = (Inr (), st\<lparr>tr_proc := p\<rparr>)"
proof -
  obtain r p where k: "pr_keepAliveSession P s (tr_proc st) = (r, p)" by (cases "pr_keepAliveSession P s (tr_proc st)")
  have "r = Inr () \<or> (\<exists>msg. r = Inl (KurentoException INVALID_SESSION msg))"
    using assms [unfolded quiet_keepAlive_def, rule_format, of s "tr_proc st"]
    by (simp add: k split: sum.splits exn.splits)
  then show ?thesis
    using k by (auto simp: ignore_invalid_session_def handle_def onProc_def zoom_def)
qed

text \<open>Registering a session changes nothing of the other sessions but their connection, which may go.\<close>

lemma associate_others:
  assumes "associate W s h st = (b, st')" and "s' \<noteq> s"
  shows "map_of (tr_secure st') s' = map_of (tr_secure st) s' \<and>
    (map_of (tr_connections st') s' = None \<or> map_of (tr_connections st') s' = map_of (tr_connections st) s')"
  using assms
  by (auto simp: associate_def forget_connection_def forget_session_def split: option.splits if_splits prod.splits)

lemma storeConnection_noted:
  assumes "maps_inverse st" and "live W st h" and "noted kind st" and "quiet_keepAlive P"
    and "storeConnection P W h (kind h) s st = (out, st')"
  shows "noted kind st'"
proof (cases "s = []")
  case True
  then show ?thesis using assms(3,5) by (simp add: storeConnection_def)
next
  case False
  obtain b st1 where a: "associate W s h st = (b, st1)" by (cases "associate W s h st")
  have s: "map_of (tr_connections st1) s = Some h" using associate_props [OF assms(1,2) a] by simp
  obtain p where "ignore_invalid_session (onProc (pr_keepAliveSession P s)) st1 = (Inr (), st1\<lparr>tr_proc := p\<rparr>)"
    using quiet_keepAlive_run [OF assms(4)] by blast
  then have st': "tr_connections st' = tr_connections st1" "tr_secure st' = AList.update s (kind h) (tr_secure st1)"
    using assms(5) False by (auto simp: storeConnection_def andThen_def a modify_def split: if_splits)
  show ?thesis
    unfolding noted_def
  proof (intro allI impI)
    fix s' h'
    assume c: "map_of (tr_connections st') s' = Some h'"
    show "map_of (tr_secure st') s' = Some (kind h')"
    proof (cases "s' = s")
      case False
      then show ?thesis
        using associate_others [OF a False] c assms(3) by (auto simp: st' noted_def)
    qed (use c s in \<open>simp add: st'\<close>)
  qed
qed

lemma noted_frame:
  "tr_connections st' = tr_connections st \<Longrightarrow> tr_secure st' = tr_secure st \<Longrightarrow> noted kind st \<Longrightarrow> noted kind st'"
  by (simp add: noted_def)

lemma noted_update [simp]:
  "noted kind (st\<lparr>tr_proc := p\<rparr>) \<longleftrightarrow> noted kind st" "noted kind (st\<lparr>tr_net := n\<rparr>) \<longleftrightarrow> noted kind st"
  "noted kind (st\<lparr>tr_handlers := hs\<rparr>) \<longleftrightarrow> noted kind st" "noted kind (st\<lparr>tr_fresh := k\<rparr>) \<longleftrightarrow> noted kind st"
  by (simp_all add: noted_def)

lemma keeps_noted:
  "keeps (noted kind) (openHandler W sec h)" "keeps (noted kind) (closeHandler h)"
  "keeps (noted kind) (processSubscription P W obj s t)"
proof -
  have "keeps (noted kind) (handle (onNet (net_close W sec h)) (\<lambda>e. case e of WebSocketError _ \<Rightarrow> ret () | _ \<Rightarrow> raise e))"
    by (intro keeps_intros keeps_onNet) simp
  then show "keeps (noted kind) (openHandler W sec h)" by (auto simp: keeps_def openHandler_def)
  show "keeps (noted kind) (closeHandler h)"
    by (auto simp: keeps_def closeHandler_def modify_def noted_def split: option.split)
  have "keeps (noted kind) (\<lambda>st. (Inr \<lparr>eh_id = tr_fresh st, eh_object = obj, eh_session = s\<rparr>,
      st\<lparr>tr_fresh := Suc (tr_fresh st)\<rparr>))"
    by (simp add: keeps_def)
  then show "keeps (noted kind) (processSubscription P W obj s t)"
    unfolding processSubscription_def Let_def by (intro keeps_intros keeps_onProc) simp_all
qed

lemma keeps_noted_frame:
  "keeps (noted kind) (onProc m)" "keeps (noted kind) (onNet n)"
  by (rule keeps_onProc, simp) (rule keeps_onNet, simp)

text \<open>An event is bound to the server its session's note names.\<close>

lemma notifies_noted:
  assumes "noted kind st" and "task_step P W (Notifies eh v) st = (out, st')"
  shows "st' = st \<and> (\<forall>t' \<in> set (remains out). of_kind kind t')"
proof (cases "map_of (tr_connections st) (eh_session eh)")
  case None
  then show ?thesis
    using assms(2) by (auto simp: catch_all_def handle_def andThen_def getConnection_def remains_def)
next
  case (Some h)
  then have "map_of (tr_secure st) (eh_session eh) = Some (kind h)" using assms(1) by (simp add: noted_def)
  then show ?thesis
    using Some assms(2)
    by (auto simp: catch_all_def handle_def andThen_def getConnection_def secure_flag_def remains_def)
qed

lemma sections_noted:
  "keeps (noted kind) (task_step P W (Reads sec h req))" "keeps (noted kind) (task_step P W (Processes sec h req s))"
  "keeps (noted kind) (task_step P W (Replies sec h response))" "keeps (noted kind) (task_step P W (Opens sec h))"
  "keeps (noted kind) (task_step P W (Closes h))" "keeps (noted kind) (task_step P W (Subscribes obj s e))"
  "keeps (noted kind) (task_step P W (Delivers sec h m))" "keeps (noted kind) (task_step P W Copies)"
  "keeps (noted kind) (task_step P W (KeepsAlive []))" "keeps (noted kind) (task_step P W (KeepsAlive (c # cs)))"
  unfolding task_sections by (intro keeps_intros keeps_noted keeps_noted_frame)+

lemma quiet_sections_noted:
  assumes "\<And>sec h s r. t \<noteq> Stores sec h s r" and "\<And>eh v. t \<noteq> Notifies eh v"
  shows "keeps (noted kind) (task_step P W t)"
proof (cases t)
  case (KeepsAlive conns)
  then show ?thesis by (cases conns) (simp_all only: sections_noted)
qed (simp_all only: sections_noted, use assms in blast, use assms in blast)

lemma task_step_noted:
  assumes "maps_inverse st" and "noted kind st" and "held W st t" and "of_kind kind t" and "quiet_keepAlive P"
    and run: "task_step P W t st = (out, st')"
  shows "noted kind st'"
proof -
  consider (stores) sec h s response where "t = Stores sec h s response" | (notifies) eh v where "t = Notifies eh v"
    | (quiet) "\<And>sec h s r. t \<noteq> Stores sec h s r" "\<And>eh v. t \<noteq> Notifies eh v"
    by (cases t) auto
  then show ?thesis
  proof cases
    case stores
    obtain r st1 where sc: "storeConnection P W h sec s st = (r, st1)" by (cases "storeConnection P W h sec s st")
    have "noted kind st1"
      using storeConnection_noted [OF assms(1) _ assms(2,5), of W h s r st1] sc assms(3,4) stores by simp
    then show ?thesis using run stores sc by (auto simp: andThen_def split: sum.splits)
  next
    case notifies
    then show ?thesis using notifies_noted [OF assms(2) run [unfolded notifies]] assms(2) by simp
  next
    case quiet
    show ?thesis by (rule keepsD [OF quiet_sections_noted [OF quiet] run assms(2)])
  qed
qed

lemma task_step_kind:
  assumes "noted kind st" and "of_kind kind t" and "task_step P W t st = (out, st')" and "t' \<in> set (remains out)"
  shows "of_kind kind t'"
proof (cases t)
  case (Notifies eh v)
  then show ?thesis using notifies_noted [OF assms(1)] assms(3,4) by blast
next
  case (Delivers sec h m)
  then show ?thesis using assms(3,4)
    by (auto simp: catch_all_def handle_def andThen_def remains_def split: prod.splits sum.splits option.splits)
next
  case (KeepsAlive conns)
  then show ?thesis using assms(3,4)
    by (cases conns) (auto simp: andThen_def remains_def split: prod.splits sum.splits option.splits)
qed (use assms in \<open>auto simp: andThen_def remains_def split: prod.splits sum.splits option.splits\<close>)

lemma pool_noted:
  assumes "pool_runs P W (of_kind kind) (ts0, st0) (ts, st)" and "quiet_keepAlive P"
    and "maps_inverse st0" and "noted kind st0" and "\<forall>t \<in> set ts0. of_kind kind t"
  shows "maps_inverse st \<and> noted kind st \<and> (\<forall>t \<in> set ts. of_kind kind t)"
  using assms(1)
proof (induction rule: pool_induct)
  case start
  show ?case using assms(3-5) by simp
next
  case (enters t ts st)
  then show ?case by simp
next
  case (runs t ts us st out st')
  have t: "maps_inverse st" "noted kind st" "of_kind kind t" using runs(1) by auto
  show ?case
    using task_keeps_inverse [OF t(1) runs(2,3)] task_step_noted [OF t(1,2) runs(2) t(3) assms(2) runs(3)]
      task_step_kind [OF t(2,3) runs(3)] runs(1) by auto
qed

text \<open>A handler that runs to its end with nothing between its sections is a run of the pool.\<close>

lemma held_next:
  assumes "held W st t" and "task_step P W t st = (Inr (Some t'), st')"
  shows "held W st' t'"
proof (cases t)
  case (KeepsAlive conns)
  then show ?thesis using assms(2) by (cases conns) (auto simp: andThen_def split: prod.splits sum.splits)
qed (use assms in \<open>auto simp: andThen_def catch_all_def handle_def onProc_def zoom_def live_def
    split: prod.splits sum.splits\<close>)

lemma sections_next:
  assumes "task_step P W t st = (Inr (Some t'), st')"
  shows "sections t st = Suc (sections t' st')"
proof (cases t)
  case (KeepsAlive conns)
  then show ?thesis using assms by (cases conns) (auto simp: andThen_def split: prod.splits sum.splits)
qed (use assms in \<open>auto simp: andThen_def catch_all_def handle_def split: prod.splits sum.splits\<close>)

lemma run_is_pool_run:
  assumes "run_task P W n t st = (out, st')" and "held W st t" and "sections t st \<le> n"
  shows "pool_runs P W allowed ([t], st) ([], st')"
  using assms
proof (induction n arbitrary: t st)
  case 0
  then show ?case by (cases t) simp_all
next
  case (Suc n)
  obtain r st1 where t: "task_step P W t st = (r, st1)" by (cases "task_step P W t st")
  have step: "pool_step P W allowed ([t], st) (remains r, st1)"
    using pool_step.runs [OF Suc.prems(2) t, where ts = "[]" and us = "[]"] by simp
  show ?case
  proof (cases "\<exists>t'. r = Inr (Some t')")
    case True
    then obtain t' where r: "r = Inr (Some t')" by blast
    have "pool_runs P W allowed ([t'], st1) ([], st')"
      using Suc.IH [of t' st1] Suc.prems t r held_next [OF Suc.prems(2)] sections_next [of P W t st t' st1]
      by (simp add: andThen_def)
    then show ?thesis using step r by (simp add: remains_def converse_rtranclp_into_rtranclp)
  next
    case False
    then have "remains r = []" "st' = st1"
      using Suc.prems(1) t by (auto simp: remains_def andThen_def split: sum.splits option.splits)
    then show ?thesis using step by auto
  qed
qed

lemma handler_is_pool_run:
  assumes "run_task P W (sections t st) t st = (out, st')" and "held W st t" and "starts t" and "allowed t"
  shows "pool_runs P W allowed ([], st) ([], st')"
  using pool_step.enters [where P = P and W = W and ts = "[]" and st = st, of t allowed, OF assms(3,4)]
    run_is_pool_run [OF assms(1,2) order_refl]
  by (rule converse_rtranclp_into_rtranclp)

lemma full_runs:
  "run_task P W (sections (Reads secure hdl request) st) (Reads secure hdl request) = processMessage P W secure hdl request"
  "run_task P W (sections (Opens secure hdl) st) (Opens secure hdl) = openHandler W secure hdl"
  "run_task P W (sections (Closes hdl) st) (Closes hdl) = closeHandler hdl"
  "run_task P W (sections (Subscribes obj s e) st) (Subscribes obj s e) = andThen (processSubscription P W obj s e) (\<lambda>_. ret ())"
  "run_task P W (sections (Notifies handler value) st) (Notifies handler value) = sendEvent W handler value"
  "run_task P W (sections Copies st) Copies st = keepAlive_round P st"
  by (simp_all only: sections.simps run_message run_single(1,2) run_single(3) [symmetric] run_event run_round
      eval_nat_numeral One_nat_def BitM.simps add_Suc_right add_0_right order_refl)

text \<open>Handlers one after the other, each to its end, are one of the interleavings.\<close>

lemma ws_step_is_pool_run:
  assumes "ws_step P W st st'" and "\<And>t. starts t \<Longrightarrow> allowed t"
  shows "pool_runs P W allowed ([], st) ([], st')"
  using assms(1)
proof cases
  case (message h sec req out)
  then show ?thesis using assms(2)
    by (intro handler_is_pool_run [where t = "Reads sec h req" and out = out]) (simp_all only: full_runs held.simps starts.simps)
next
  case (opened sec h out)
  then show ?thesis using assms(2)
    by (intro handler_is_pool_run [where t = "Opens sec h" and out = out]) (simp_all only: full_runs held.simps starts.simps)
next
  case (closed h out)
  then show ?thesis using assms(2)
    by (intro handler_is_pool_run [where t = "Closes h" and out = out]) (simp_all only: full_runs held.simps starts.simps)
next
  case (subscribed obj s t out)
  then obtain out' where "andThen (processSubscription P W obj s t) (\<lambda>_. ret ()) st = (out', st')"
    by (cases out) (auto simp: andThen_def)
  then show ?thesis using assms(2)
    by (intro handler_is_pool_run [where t = "Subscribes obj s t" and out = out']) (simp_all only: full_runs held.simps starts.simps)
next
  case (event eh v out)
  then show ?thesis using assms(2)
    by (intro handler_is_pool_run [where t = "Notifies eh v" and out = out]) (simp_all only: full_runs held.simps starts.simps)
next
  case (keep_alive out)
  then show ?thesis using assms(2)
    by (intro handler_is_pool_run [where t = Copies and out = out]) (simp_all only: full_runs held.simps starts.simps)
qed

section \<open>The handlers of events\<close>

text \<open>
  The key of a shared handler names its session and its object as long as neither contains the bar
  that separates them.
\<close>

definition bar_free :: "string \<Rightarrow> bool" where
  "bar_free s \<longleftrightarrow> CHR ''|'' \<notin> set s"

fun barless :: "('p, 'o, 'n) ws_env \<Rightarrow> 'o ws_task \<Rightarrow> bool" where
  "barless W (Subscribes obj s _) \<longleftrightarrow> bar_free s \<and> bar_free (we_getId W obj)"
| "barless W _ \<longleftrightarrow> True"

definition handlers_keyed :: "('p, 'o, 'n) ws_env \<Rightarrow> ('p, 'o, 'n) transport \<Rightarrow> bool" where
  "handlers_keyed W st \<longleftrightarrow>
     (\<forall>k h. map_of (tr_handlers st) k = Some h \<longrightarrow>
        bar_free (eh_session h) \<and> bar_free (we_getId W (eh_object h)) \<and>
        (\<exists>e. k = event_id (eh_session h) (we_getId W (eh_object h)) e))"

lemma event_id_eq:
  assumes "bar_free s" and "bar_free s'" and "bar_free i" and "bar_free i'" and "event_id s i e = event_id s' i' e'"
  shows "s = s' \<and> i = i' \<and> e = e'"
  using event_ids_are_ambiguous assms unfolding bar_free_def by blast

lemma subscription_handlers:
  assumes "processSubscription P W obj s e st = (out, st')"
  shows "tr_handlers st' = tr_handlers st \<or>
    tr_handlers st' = AList.update (event_id s (we_getId W obj) e)
      \<lparr>eh_id = tr_fresh st, eh_object = obj, eh_session = s\<rparr> (tr_handlers st)"
  using assms
  by (auto simp: processSubscription_def Let_def andThen_def onProc_def zoom_def modify_def
      split: option.splits prod.splits sum.splits if_splits)

abbreviation same_handlers where
  "same_handlers hs \<equiv> keeps (\<lambda>st. tr_handlers st = hs)"

lemma sections_same_handlers:
  assumes "\<And>obj s e. t \<noteq> Subscribes obj s e"
  shows "same_handlers hs (task_step P W t)"
proof -
  have proc: "same_handlers hs (onProc m)" and net: "same_handlers hs (onNet n)" for m n
    by (rule keeps_onProc, simp) (rule keeps_onNet, simp)
  have lookups: "same_handlers hs (getConnection s)" "same_handlers hs (secure_flag s)" for s
    by (auto simp: keeps_def getConnection_def secure_flag_def split: option.split)
  have "same_handlers hs (\<lambda>st. case associate W s h st of (b, st') \<Rightarrow> (Inr b, st'))" for s h
    by (auto simp: keeps_def associate_def forget_session_def forget_connection_def split: option.split prod.split)
  then have store: "same_handlers hs (storeConnection P W h sec s)" for h sec s
    unfolding storeConnection_def by (intro keeps_intros proc) simp_all
  have "same_handlers hs (handle (onNet (net_close W sec h)) (\<lambda>e. case e of WebSocketError _ \<Rightarrow> ret () | _ \<Rightarrow> raise e))"
    for sec h by (intro keeps_intros net)
  then have opens: "same_handlers hs (openHandler W sec h)" for sec h by (auto simp: keeps_def openHandler_def)
  have closes: "same_handlers hs (closeHandler h)" for h
    by (auto simp: keeps_def closeHandler_def modify_def split: option.split)
  note steps = keeps_intros proc net lookups store opens closes
  show ?thesis
  proof (cases t)
    case (KeepsAlive conns)
    then show ?thesis by (cases conns; simp only: task_sections; intro steps)
  next
    case Subscribes
    then show ?thesis using assms by blast
  qed (simp only: task_sections, intro steps)+
qed

lemma handlers_keyed_update:
  assumes "handlers_keyed W st" and "barless W (Subscribes (eh_object h) (eh_session h) e)"
    and "tr_handlers st' = AList.update (event_id (eh_session h) (we_getId W (eh_object h)) e) h (tr_handlers st)"
  shows "handlers_keyed W st'"
  using assms by (auto simp: handlers_keyed_def)

lemma task_step_keyed:
  assumes "handlers_keyed W st" and "barless W t" and run: "task_step P W t st = (out, st')"
  shows "handlers_keyed W st' \<and> (\<forall>t' \<in> set (remains out). barless W t')"
proof (cases "\<exists>obj s e. t = Subscribes obj s e")
  case True
  then obtain obj s e where t: "t = Subscribes obj s e" by blast
  obtain r st1 where r: "processSubscription P W obj s e st = (r, st1)"
    by (cases "processSubscription P W obj s e st")
  then have out: "st1 = st'" "remains out = []"
    using run by (auto simp: t andThen_def remains_def split: sum.splits)
  let ?h = "\<lparr>eh_id = tr_fresh st, eh_object = obj, eh_session = s\<rparr>"
  have "tr_handlers st' = tr_handlers st \<Longrightarrow> handlers_keyed W st'"
    using assms(1) by (simp add: handlers_keyed_def)
  then show ?thesis
    using subscription_handlers [OF r [unfolded out(1)]] handlers_keyed_update [OF assms(1), of ?h e st'] assms(2) out(2)
    by (auto simp: t)
next
  case False
  have "tr_handlers st' = tr_handlers st"
    using keepsD [OF sections_same_handlers run] False by blast
  moreover have "barless W t'" if "out = Inr (Some t')" for t'
    using run that
  proof (cases t)
    case (KeepsAlive conns)
    then show ?thesis using run that by (cases conns) (auto simp: andThen_def split: prod.splits sum.splits)
  qed (auto simp: andThen_def catch_all_def handle_def split: prod.splits sum.splits)
  ultimately show ?thesis
    using assms(1) by (auto simp: handlers_keyed_def remains_def split: sum.splits option.splits)
qed

lemma pool_keyed:
  assumes "pool_runs P W (barless W) (ts0, st0) (ts, st)" and "handlers_keyed W st0" and "\<forall>t \<in> set ts0. barless W t"
  shows "handlers_keyed W st \<and> (\<forall>t \<in> set ts. barless W t)"
  using assms(1)
proof (induction rule: pool_induct)
  case (runs t ts us st out st')
  then show ?case using task_step_keyed [of W st t P out st'] by auto
qed (use assms(2,3) in simp_all)

section \<open>Properties\<close>

text \<open>
  C12. The two views of the connections never disagree, however the service threads interleave: in
  every state a constructed transport can reach through the sections of any handlers in any order,
  each section with any outcome, a session has a connection exactly if that connection has that
  session, and a connection serves one session only.
\<close>

theorem tables_agree_between_sections:
  assumes "transport_init W C config p n = (out, st0)" and "pool_runs P W allowed ([], st0) (ts, st)"
  shows "(conn_of st s = Some h \<longleftrightarrow> sess_of st h = Some s) \<and>
    (conn_of st s = Some h \<longrightarrow> conn_of st s' = Some h \<longrightarrow> s' = s)"
proof -
  have "maps_inverse st0"
    using transport_init_run [OF assms(1)] by (simp add: fresh_transport_def maps_inverse_def)
  then have "maps_inverse st" by (rule pool_keeps_inverse [OF assms(2)])
  then show ?thesis using sr.inverse sr.one_connection by blast
qed

text \<open>A message whose reply is still to be sent, and an event for its session in between.\<close>

definition demo_pool :: "string ws_task list \<times> (string list, string, (bool \<times> nat \<times> string) list) transport" where
  "demo_pool =
     ([Delivers False 1 ''json'', Replies False 1 ''reply''], demo_transport1\<lparr>tr_net := []\<rparr>)"

definition demo_quiet :: "(string list, string) processor" where
  "demo_quiet = demo_processor\<lparr>pr_keepAliveSession := (\<lambda>s p. (Inr (), p @ [s]))\<rparr>"

definition demo_eh :: "string ws_event_handler" where
  "demo_eh = \<lparr>eh_id = 0, eh_object = ''o'', eh_session = ''s''\<rparr>"

lemma demo_quiet [simp]: "quiet_keepAlive demo_quiet"
  by (simp add: quiet_keepAlive_def demo_quiet_def)

lemma demo_sections:
  "task_step demo_quiet demo_ws_env (Reads False 1 ''hello'') demo_transport =
     (Inr (Some (Processes False 1 ''hello'' [])), demo_transport)"
  "task_step demo_quiet demo_ws_env (Processes False 1 ''hello'' []) demo_transport =
     (Inr (Some (Stores False 1 ''s'' ''reply'')), demo_transport\<lparr>tr_proc := [''hello'']\<rparr>)"
  "task_step demo_quiet demo_ws_env (Stores False 1 ''s'' ''reply'') (demo_transport\<lparr>tr_proc := [''hello'']\<rparr>) =
     (Inr (Some (Replies False 1 ''reply'')), demo_transport1\<lparr>tr_net := []\<rparr>)"
  "task_step demo_quiet demo_ws_env (Notifies demo_eh JNull) (demo_transport1\<lparr>tr_net := []\<rparr>) =
     (Inr (Some (Delivers False 1 ''json'')), demo_transport1\<lparr>tr_net := []\<rparr>)"
  by (simp_all add: demo_transport_def demo_transport1_def demo_quiet_def demo_processor_def demo_ws_env_def
      demo_eh_def storeConnection_def associate_def forget_session_def forget_connection_def
      ignore_invalid_session_def onProc_def zoom_def andThen_def handle_def modify_def catch_all_def
      getConnection_def secure_flag_def)

lemma pool_first:
  "pool_runs P W allowed x (t # ts, st) \<Longrightarrow> held W st t \<Longrightarrow> task_step P W t st = (out, st') \<Longrightarrow>
    pool_runs P W allowed x (remains out @ ts, st')"
  using pool_step.runs [of W st t P out st' allowed "[]" ts] by (simp add: rtranclp.rtrancl_into_rtrancl)

lemma pool_enters:
  "pool_runs P W allowed x (ts, st) \<Longrightarrow> starts t \<Longrightarrow> allowed t \<Longrightarrow> pool_runs P W allowed x (t # ts, st)"
  by (meson pool_step.enters rtranclp.rtrancl_into_rtrancl)

lemma demo_hello_runs:
  assumes "allowed (Reads False 1 ''hello'')"
  shows "pool_runs demo_quiet demo_ws_env allowed ([], demo_transport)
    ([Replies False 1 ''reply''], demo_transport1\<lparr>tr_net := []\<rparr>)"
proof -
  let ?runs = "pool_runs demo_quiet demo_ws_env allowed ([], demo_transport)"
  have "?runs ([Reads False 1 ''hello''], demo_transport)" by (intro pool_enters assms) simp_all
  from pool_first [OF this _ demo_sections(1)] have "?runs ([Processes False 1 ''hello'' []], demo_transport)"
    by (simp add: remains_def)
  from pool_first [OF this _ demo_sections(2)]
  have "?runs ([Stores False 1 ''s'' ''reply''], demo_transport\<lparr>tr_proc := [''hello'']\<rparr>)" by (simp add: remains_def)
  from pool_first [OF this _ demo_sections(3)] show ?thesis by (simp add: remains_def)
qed

lemma demo_pool_runs:
  "pool_runs demo_quiet demo_ws_env (of_kind (\<lambda>_. False)) ([], demo_transport) demo_pool"
proof -
  have "pool_runs demo_quiet demo_ws_env (of_kind (\<lambda>_. False)) ([], demo_transport)
      ([Notifies demo_eh JNull, Replies False 1 ''reply''], demo_transport1\<lparr>tr_net := []\<rparr>)"
    by (rule pool_enters [OF demo_hello_runs]) simp_all
  from pool_first [OF this _ demo_sections(4)] show ?thesis by (simp add: remains_def demo_pool_def)
qed

theorem tables_agree_between_sections_witness:
  "conn_of (snd demo_pool) ''s'' = Some 1 \<and> sess_of (snd demo_pool) 1 = Some ''s'' \<and>
    conn_of (snd demo_pool) ''t'' \<noteq> Some 1"
  using tables_agree_between_sections [OF demo_transport_init
      demo_pool_runs [unfolded demo_pool_def], of "''s''" 1 "''t''"]
  by (simp add: conn_of_def demo_transport1_def demo_pool_def)

text \<open>
  C13. What is sent goes through the server the connection belongs to, however the service threads
  interleave: as long as keeping a session alive fails only because the session is not known, an event
  or a reply that is about to be sent names the server of its connection, and the note of every
  connected session is there and right.
\<close>

theorem what_is_sent_uses_the_right_server:
  assumes "transport_init W C config p n = (out, st0)" and "quiet_keepAlive P"
    and "pool_runs P W (of_kind kind) ([], st0) (ts, st)"
  shows "(Delivers secure hdl message \<in> set ts \<longrightarrow> secure = kind hdl) \<and>
    (Replies secure hdl message \<in> set ts \<longrightarrow> secure = kind hdl) \<and>
    (conn_of st s = Some h \<longrightarrow> map_of (tr_secure st) s = Some (kind h))"
proof -
  have "maps_inverse st0" "noted kind st0"
    using transport_init_run [OF assms(1)] by (simp_all add: fresh_transport_def maps_inverse_def noted_def)
  from pool_noted [OF assms(3,2) this] have "noted kind st" "\<forall>t \<in> set ts. of_kind kind t" by simp_all
  then show ?thesis by (auto simp: noted_def conn_of_def)
qed

theorem what_is_sent_uses_the_right_server_witness:
  "Delivers False 1 ''json'' \<in> set (fst demo_pool) \<and> Replies True 1 ''reply'' \<notin> set (fst demo_pool) \<and>
    map_of (tr_secure (snd demo_pool)) ''s'' = Some False"
  using what_is_sent_uses_the_right_server [OF demo_transport_init demo_quiet
      demo_pool_runs [unfolded demo_pool_def], of True 1 "''reply''" "''s''" 1]
  by (simp add: conn_of_def demo_transport1_def demo_pool_def)

definition demo_subscribed :: "(string list, string, (bool \<times> nat \<times> string) list) transport" where
  "demo_subscribed = demo_transport1
     \<lparr>tr_net := [], tr_fresh := 1, tr_handlers := [(event_id ''s'' ''o'' ''e'', demo_eh)]\<rparr>"

lemma demo_subscribed_runs:
  "pool_runs demo_quiet demo_ws_env (barless demo_ws_env) ([], demo_transport) ([Replies False 1 ''reply''], demo_subscribed)"
proof -
  have hello: "pool_runs demo_quiet demo_ws_env (barless demo_ws_env) ([], demo_transport)
      ([Replies False 1 ''reply''], demo_transport1\<lparr>tr_net := []\<rparr>)"
    by (rule demo_hello_runs) simp
  have "task_step demo_quiet demo_ws_env (Subscribes ''o'' ''s'' ''e'') (demo_transport1\<lparr>tr_net := []\<rparr>) =
      (Inr None, demo_subscribed)"
    by (simp add: demo_subscribed_def demo_transport1_def demo_transport_def demo_quiet_def demo_processor_def
        demo_ws_env_def demo_eh_def processSubscription_def Let_def onProc_def zoom_def andThen_def modify_def)
  from pool_first [OF pool_enters [OF hello] _ this] show ?thesis
    by (simp add: remains_def bar_free_def demo_ws_env_def)
qed

text \<open>
  C14. A subscriber gets its own events, however the service threads interleave: as long as the
  sessions and the ids of the objects contain no bar, the shared handler that a subscription finds for
  its session, object and event belongs to that session and that object, and when it is notified of
  an event, the event is bound to the connection that session has at that moment.
\<close>

theorem subscribers_get_their_own_events:
  assumes "transport_init W C config p n = (out, st0)" and "pool_runs P W (barless W) ([], st0) (ts, st)"
    and "bar_free s" and "bar_free (we_getId W obj)"
    and "map_of (tr_handlers st) (event_id s (we_getId W obj) e) = Some h" and "conn_of st s = Some c"
  shows "eh_session h = s \<and> we_getId W (eh_object h) = we_getId W obj \<and>
    (\<exists>secure. fst (task_step P W (Notifies h value) st) =
      Inr (Some (Delivers secure c (we_writeJson W (event_message value)))))"
proof -
  have "handlers_keyed W st0" using transport_init_run [OF assms(1)] by (simp add: fresh_transport_def handlers_keyed_def)
  then have "handlers_keyed W st" using pool_keyed [OF assms(2)] by simp
  then obtain e' where free: "bar_free (eh_session h)" "bar_free (we_getId W (eh_object h))"
    and key: "event_id s (we_getId W obj) e = event_id (eh_session h) (we_getId W (eh_object h)) e'"
    using assms(5) unfolding handlers_keyed_def by blast
  have h: "eh_session h = s" "we_getId W (eh_object h) = we_getId W obj"
    using event_id_eq [OF assms(3) free(1) assms(4) free(2) key] by simp_all
  obtain secure where "fst (secure_flag s st) = Inr secure"
    by (cases "map_of (tr_secure st) s") (auto simp: secure_flag_def)
  then have "fst (task_step P W (Notifies h value) st) =
      Inr (Some (Delivers secure c (we_writeJson W (event_message value))))"
    using assms(6) h(1)
    by (cases "secure_flag s st") (simp add: catch_all_def handle_def andThen_def getConnection_def conn_of_def)
  then show ?thesis using h by blast
qed

theorem subscribers_get_their_own_events_witness:
  "eh_session demo_eh = ''s'' \<and> we_getId demo_ws_env (eh_object demo_eh) = ''o'' \<and>
    (\<exists>secure. fst (task_step demo_quiet demo_ws_env (Notifies demo_eh JNull) demo_subscribed) =
      Inr (Some (Delivers secure 1 ''json'')))"
  using subscribers_get_their_own_events [OF demo_transport_init demo_subscribed_runs, of "''s''" "''o''" "''e''" demo_eh 1 JNull]
  by (simp add: bar_free_def demo_ws_env_def demo_eh_def demo_subscribed_def demo_transport1_def event_id_def conn_of_def)

end
