(* ===== verification/Server_Invariants.thy ===== *)
theory Server_Invariants
  imports Processor_Interface Handler_Threads
begin

text \<open>
  What holds of the server as a whole. \<open>server_step\<close> is a change of the server's state: the media
  objects, the limits read, a response added to the cache where none is, or under a torn key whatever is
  there, the timers of the main loop. The locale \<open>server_invariant\<close> is a property of the server that bears these steps. Every method, the
  hooks, transactions at any depth and the sections of the transport's handlers keep such a property.
  It is interpreted by the runs of the request cache that add only where nothing is cached, but for torn
  keys, and by what the constructor sets once and for all.
\<close>

section \<open>Changes of the server\<close>

text \<open>
  The part of the GLib main loop: time passes, a timer that is due fires, its callback emits the
  signal.
\<close>

inductive main_loop :: "request_cache \<Rightarrow> request_cache \<Rightarrow> bool" where
  passes: "main_loop c (c\<lparr>rc_now := rc_now c + d\<rparr>)"
| fires: "(a, d) \<in> set (rc_sources c) \<Longrightarrow> d \<le> rc_now c \<Longrightarrow> timer_fired c a = Inr c' \<Longrightarrow> main_loop c c'"
| emits: "f \<in> set (rc_firing c) \<Longrightarrow> timeout_emit c f = Inr c' \<Longrightarrow> main_loop c c'"

text \<open>
  The lookup of \<open>postProcess\<close> and its adding are one step, \<open>answers\<close>, unless other threads come between
  them: the keys for which that happens are the set \<open>torn\<close>, and under them the adding is a step of its
  own, \<open>tears\<close>, whatever the cache then holds.
\<close>

inductive server_step :: "(string \<times> string) set \<Rightarrow> 'w server \<Rightarrow> 'w server \<Rightarrow> bool" for torn where
  media: "server_step torn s (s\<lparr>srv_world := w\<rparr>)"
| limits: "server_step torn s (s\<lparr>srv_limits := l\<rparr>)"
| answers: "getCachedResponse (srv_cache s) sid rid = Inl (CacheException msg) \<Longrightarrow>
    server_step torn s (s\<lparr>srv_cache := addResponse (srv_cache s) sid rid v\<rparr>)"
| tears: "(sid, rid) \<in> torn \<Longrightarrow>
    server_step torn s (s\<lparr>srv_cache := addResponse (srv_cache s) sid rid v\<rparr>)"
| timers: "main_loop (srv_cache s) c \<Longrightarrow> server_step torn s (s\<lparr>srv_cache := c\<rparr>)"

definition bears_steps :: "(string \<times> string) set \<Rightarrow> ('w server \<Rightarrow> bool) \<Rightarrow> bool" where
  "bears_steps torn I \<longleftrightarrow> (\<forall>s s'. server_step torn s s' \<longrightarrow> I s \<longrightarrow> I s')"

section \<open>What is used of the dispatcher and of the subscription handler\<close>

text \<open>
  The dispatcher touches the server through the hooks and methods it is given only. Between them
  the other threads may change the server in their steps.
\<close>

definition config_keeps :: "('s \<Rightarrow> bool) \<Rightarrow> 's rpc_config \<Rightarrow> bool" where
  "config_keeps I cfg \<longleftrightarrow>
     (\<forall>pre req resp. cfg_pre cfg = Some pre \<longrightarrow> keeps I (pre req resp)) \<and>
     (\<forall>post req resp. cfg_post cfg = Some post \<longrightarrow> keeps I (post req resp)) \<and>
     (\<forall>nm f params resp. (nm, f) \<in> set (cfg_methods cfg) \<longrightarrow> keeps I (f params resp))"

definition acts_through_config :: "(string \<times> string) set \<Rightarrow> 'w server rpc_handler \<Rightarrow> bool" where
  "acts_through_config torn H \<longleftrightarrow>
     (\<forall>I cfg req resp. bears_steps torn I \<longrightarrow> config_keeps I cfg \<longrightarrow> keeps I (H cfg req resp))"

text \<open>
  A dispatcher that other threads disturb: before and after each hook and each method the server
  makes the steps \<open>others\<close>, which may depend on the request and on the state.
\<close>

definition disturbed ::
  "(json \<Rightarrow> 'w server \<Rightarrow> 'w server) \<Rightarrow> (json \<Rightarrow> json \<Rightarrow> ('w server, exn, 'a) prog) \<Rightarrow>
   json \<Rightarrow> json \<Rightarrow> ('w server, exn, 'a) prog" where
  "disturbed others f req resp =
     andThen (modify (others req)) (\<lambda>_. andThen (f req resp) (\<lambda>x. andThen (modify (others resp)) (\<lambda>_. ret x)))"

definition disturbed_config :: "(json \<Rightarrow> 'w server \<Rightarrow> 'w server) \<Rightarrow> 'w server rpc_config \<Rightarrow> 'w server rpc_config" where
  "disturbed_config others cfg =
     \<lparr>cfg_pre = map_option (disturbed others) (cfg_pre cfg), cfg_post = map_option (disturbed others) (cfg_post cfg),
      cfg_methods = map (map_prod id (disturbed others)) (cfg_methods cfg)\<rparr>"

lemma bears_steps_run: "bears_steps torn I \<Longrightarrow> (server_step torn)\<^sup>*\<^sup>* s s' \<Longrightarrow> I s \<Longrightarrow> I s'"
  by (rotate_tac 1, induction rule: rtranclp_induct) (auto simp: bears_steps_def)

lemma disturbed_dispatcher:
  assumes "acts_through_config torn H" and "\<And>q s. (server_step torn)\<^sup>*\<^sup>* s (others q s)"
  shows "acts_through_config torn (\<lambda>cfg. H (disturbed_config others cfg))"
  unfolding acts_through_config_def
proof (intro allI impI)
  fix I :: "'a server \<Rightarrow> bool" and cfg :: "'a server rpc_config" and req resp :: json
  assume I: "bears_steps torn I" and cfg: "config_keeps I cfg"
  have others: "keeps I (modify (others q))" for q
    by (rule keeps_modify) (rule bears_steps_run [OF I assms(2)])
  then have d: "(\<And>q r. keeps I (f q r)) \<Longrightarrow> keeps I (disturbed others f q r)"
    for f :: "json \<Rightarrow> json \<Rightarrow> ('a server, exn, 'b) prog" and q r
    unfolding disturbed_def by (intro keeps_andThen keeps_ret others)
  have "config_keeps I (disturbed_config others cfg)"
    using cfg by (auto simp: config_keeps_def disturbed_config_def intro!: d)
  then show "keeps I (H (disturbed_config others cfg) req resp)"
    using assms(1) I by (simp add: acts_through_config_def)
qed

text \<open>A program that changes nothing of the server but the media objects.\<close>

definition world_only :: "('w server, exn, 'a) prog \<Rightarrow> bool" where
  "world_only m \<longleftrightarrow> (\<forall>s. \<exists>w. snd (m s) = s\<lparr>srv_world := w\<rparr>)"

definition subscribes_in_world :: "('w, 'o) subscription_handler option \<Rightarrow> bool" where
  "subscribes_in_world sub \<longleftrightarrow>
     (\<forall>h obj sessionId eventType params. sub = Some h \<longrightarrow> world_only (h obj sessionId eventType params))"

lemma world_only_onWorld: "world_only (onWorld m)"
  by (auto simp: world_only_def onWorld_def zoom_def split: prod.split)

lemma world_only_generateUUID: "world_only (generateUUID E)"
  unfolding generateUUID_def by (rule world_only_onWorld)

lemma keeps_catch_call [keeps_intros]: "keeps I m \<Longrightarrow> keeps I h \<Longrightarrow> keeps I (catch_call m h)"
  unfolding catch_call_def by (intro keeps_handle) (auto intro: keeps_raise)

lemma keeps_rethrow [keeps_intros]: "keeps I m \<Longrightarrow> keeps I (rethrow_kurento E m)"
  unfolding rethrow_kurento_def by (rule keeps_handle) (auto intro: keeps_raise split: exn.split)

lemma keeps_put [keeps_intros]: "keeps I (put k v r)"
  by (simp add: keeps_def put_def)

lemma keeps_Pair: "keeps I (Pair r)"
  by (simp add: keeps_def)

lemma keeps_deref [keeps_intros]: "keeps I (deref p)"
  unfolding deref_def by (intro keeps_intros)

lemma keeps_requireParams [keeps_intros]: "keeps I (requireParams params)"
  unfolding requireParams_def by (intro keeps_intros)

section \<open>Properties the server keeps\<close>

locale server_invariant =
  fixes torn :: "(string \<times> string) set" and I :: "'w server \<Rightarrow> bool"
  assumes I_step: "server_step torn s s' \<Longrightarrow> I s \<Longrightarrow> I s'"
begin

lemma I_bears: "bears_steps torn I"
  unfolding bears_steps_def using I_step by blast

lemma I_world: "I s \<Longrightarrow> I (s\<lparr>srv_world := w\<rparr>)"
  by (rule I_step [OF server_step.media])

lemma I_limits: "I s \<Longrightarrow> I (s\<lparr>srv_limits := l\<rparr>)"
  by (rule I_step [OF server_step.limits])

lemma I_add: "I s \<Longrightarrow> getCachedResponse (srv_cache s) sid rid = Inl (CacheException msg) \<Longrightarrow>
    I (s\<lparr>srv_cache := addResponse (srv_cache s) sid rid v\<rparr>)"
  by (rule I_step [OF server_step.answers])

lemma keeps_world_only: "world_only m \<Longrightarrow> keeps I m"
  by (auto simp: keeps_def world_only_def) (metis I_world)

lemma keeps_onWorld: "keeps I (onWorld m)"
  by (rule keeps_world_only [OF world_only_onWorld])

lemma keeps_generateUUID: "keeps I (generateUUID E)"
  by (rule keeps_world_only [OF world_only_generateUUID])

lemma keeps_session: "keeps I (getOrCreateSessionId E params)"
  unfolding getOrCreateSessionId_def by (intro keeps_intros keeps_generateUUID)

lemma keeps_checkResources: "keeps I (checkResourcesNow E)"
  by (auto simp: keeps_def checkResourcesNow_def zoom_def I_limits split: prod.split)

lemma keeps_keepAliveSession: "keeps I (keepAliveSession E s)"
  unfolding keepAliveSession_def by (rule keeps_onWorld)

lemma keeps_registerEventHandler: "keeps I (registerEventHandler E obj s t h)"
  unfolding registerEventHandler_def by (rule keeps_onWorld)

lemma keeps_connectEventHandler: "keeps I (connectEventHandler E obj s t h)"
  unfolding connectEventHandler_def
  by (intro keeps_intros keeps_onWorld keeps_generateUUID keeps_registerEventHandler)

lemma keeps_subscription_handler:
  assumes "subscribes_in_world sub"
  shows "keeps I (case sub of None \<Rightarrow> raise BadFunctionCall | Some h \<Rightarrow> h obj s t params)"
  using assms by (cases sub) (auto simp: subscribes_in_world_def intro: keeps_raise keeps_world_only)

lemmas keeps_calls = keeps_onWorld keeps_generateUUID keeps_session keeps_checkResources
  keeps_keepAliveSession keeps_registerEventHandler keeps_connectEventHandler

lemma methods_keep:
  assumes "subscribes_in_world sub"
  shows "keeps I (connect E params r)" "keeps I (create E params r)" "keeps I (invoke E params r)"
    "keeps I (subscribe E sub params r)" "keeps I (unsubscribe E params r)" "keeps I (release E params r)"
    "keeps I (ref_object E params r)" "keeps I (unref_object E params r)" "keeps I (keepAlive E params r)"
    "keeps I (describe E params r)" "keeps I (ping E params r)" "keeps I (closeSession E params r)"
  unfolding simple_methods
  by (intro keeps_intros keeps_calls keeps_subscription_handler [OF assms])+

lemma preProcess_keeps: "keeps I (preProcess E req resp)"
proof -
  have "keeps I (cached_response s r)" for s r by (simp add: keeps_def cached_response_def)
  then show ?thesis unfolding preProcess_def by (intro keeps_intros)
qed

text \<open>The one place where a response is added, after the lookup has thrown.\<close>

lemma postProcess_keeps: "keeps I (postProcess E req resp)"
proof -
  have add: "keeps I (handle (andThen (cached_response s r) (\<lambda>_. ret ()))
      (\<lambda>e. case e of CacheException _ \<Rightarrow> cache_response s r resp | _ \<Rightarrow> raise e))" for s r
    by (auto simp: keeps_def handle_def andThen_def cached_response_def cache_response_def
        split: sum.split exn.split intro: I_add)
  then show ?thesis
    unfolding postProcess_def cache_key_def by - (rule add keeps_intros)+
qed

text \<open>Transactions.\<close>

lemma insertResult_keeps: "keeps I (insertResult E responses index)"
  unfolding insertResult_def by (intro keeps_intros)

lemma injectRef_keeps: "keeps I (injectRef E params responses)"
proof -
  have "keeps I (case e of InvalidArgument _ \<Rightarrow> raise e' | _ \<Rightarrow> raise e)" for e e'
    by (simp add: keeps_raise split: exn.split)
  then show ?thesis
    unfolding injectRef_def Let_def by (intro keeps_intros insertResult_keeps)
qed

lemma injectRefs_keeps:
  "keeps I (injectRefs E params responses)"
  "keeps I (injectRefs_elements E vs responses)"
  "keeps I (injectRefs_members E ms responses)"
  by (induction E params responses and E vs responses and E ms responses
      rule: injectRefs_injectRefs_elements_injectRefs_members.induct)
    (auto simp: keeps_Pair intro!: keeps_andThen keeps_prod keeps_ret injectRef_keeps)

definition process_keeps :: "'w server rpc_process \<Rightarrow> bool" where
  "process_keeps p \<longleftrightarrow> (\<forall>req resp. keeps I (p req resp))"

lemma transaction_keeps:
  assumes "process_keeps p"
  shows "keeps I (transaction E p params r)"
proof -
  note p = assms [unfolded process_keeps_def, rule_format]
  have step: "keeps I (transaction_step E p u sid i operation responses)" for u sid i operation responses
    unfolding transaction_step_def transaction_request_def by (intro keeps_intros injectRefs_keeps p)
  have "keeps I (transaction_loop E p u sid i operations responses)" for u sid i operations responses
    by (induction operations arbitrary: i responses; unfold transaction_loop.simps; intro keeps_intros step)
      assumption
  then show ?thesis
    unfolding transaction_def by (intro keeps_intros keeps_calls)
qed

lemma setup_keeps:
  assumes "subscribes_in_world sub" and "process_keeps p"
  shows "config_keeps I (rpc_setup E sub disabled p)"
  using methods_keep [OF assms(1)] transaction_keeps [OF assms(2)] preProcess_keeps postProcess_keeps
  by (auto simp: config_keeps_def rpc_setup_def rpc_methods_def)

lemma dispatch_keeps:
  assumes "acts_through_config torn H" and "subscribes_in_world sub"
  shows "process_keeps (dispatch E H sub disabled depth)"
proof (induction depth)
  case (Suc depth)
  note run = assms(1) [unfolded acts_through_config_def, rule_format]
  show ?case
    unfolding process_keeps_def dispatch.simps by (intro allI run I_bears setup_keeps assms(2) Suc.IH)
qed (simp add: process_keeps_def keeps_Pair)

lemma process_run_keeps:
  assumes "process_keeps p"
  shows "keeps I (process E p str out conn)"
proof -
  note p = assms [unfolded process_keeps_def, rule_format]
  show ?thesis
    unfolding process_def injectSessionId_def getSessionId_def by (intro keeps_intros p)
qed

text \<open>The transport changes the server through the processor only.\<close>

abbreviation tr_keeps :: "(('w server, 'p, 'n) transport, exn, 'a) prog \<Rightarrow> bool" where
  "tr_keeps m \<equiv> keeps (\<lambda>st. I (tr_proc st)) m"

lemma keeps_onProc_run: "keeps I m \<Longrightarrow> tr_keeps (onProc m)"
  by (fastforce simp: keeps_def onProc_def zoom_def split: prod.split)

lemma keeps_net: "tr_keeps (onNet m)"
  by (rule keeps_onNet) simp

lemma keeps_same_proc: "(\<And>st. tr_proc (snd (m st)) = tr_proc st) \<Longrightarrow> tr_keeps m"
  by (simp add: keeps_def)

lemma handlers_keep:
  assumes "process_keeps p" and "keeps I (we_generateUUID W)" and "P = server_processor E p"
  shows "tr_keeps (onProc (pr_process P str out conn))" "tr_keeps (onProc (pr_keepAliveSession P s))"
    "tr_keeps (storeConnection P W h sec s)" "tr_keeps (openHandler W sec h)" "tr_keeps (closeHandler h)"
    "tr_keeps (processSubscription P W obj s t)"
proof -
  have P: "keeps I (pr_process P str out conn)" "keeps I (pr_keepAliveSession P s)"
    "keeps I (pr_connectEventHandler P obj s t eh)" "keeps I (pr_registerEventHandler P obj s t eh)"
    for str out conn s obj t eh
    unfolding assms(3) server_processor_def by (simp_all add: process_run_keeps [OF assms(1)] keeps_calls)
  note steps = keeps_intros keeps_onProc_run keeps_net P assms(2)
  show "tr_keeps (onProc (pr_process P str out conn))" "tr_keeps (onProc (pr_keepAliveSession P s))"
    by (intro steps)+
  have "tr_keeps (\<lambda>st. case associate W s h st of (b, st') \<Rightarrow> (Inr b, st'))"
    by (rule keeps_same_proc) (simp add: associate_def forget_session_def forget_connection_def
        split: option.split prod.split)
  then show "tr_keeps (storeConnection P W h sec s)"
    unfolding storeConnection_def by (intro steps) simp_all
  have "tr_keeps (handle (onNet (net_close W sec h)) (\<lambda>e. case e of WebSocketError _ \<Rightarrow> ret () | _ \<Rightarrow> raise e))"
    by (intro steps)
  then show "tr_keeps (openHandler W sec h)" by (auto simp: keeps_def openHandler_def)
  show "tr_keeps (closeHandler h)"
    by (rule keeps_same_proc) (simp add: closeHandler_def modify_def split: option.split)
  have "tr_keeps (\<lambda>st. (Inr \<lparr>eh_id = tr_fresh st, eh_object = obj, eh_session = s\<rparr>,
      st\<lparr>tr_fresh := Suc (tr_fresh st)\<rparr>))"
    by (simp add: keeps_def)
  then show "tr_keeps (processSubscription P W obj s t)"
    unfolding processSubscription_def Let_def by (intro steps) simp_all
qed

text \<open>Every section of every handler.\<close>

lemma task_step_keeps:
  assumes "process_keeps p" and "keeps I (we_generateUUID W)"
  shows "tr_keeps (task_step (server_processor E p) W t)"
proof -
  have reads: "tr_keeps (getConnection s)" "tr_keeps (secure_flag s)" for s
    by (auto simp: keeps_def getConnection_def secure_flag_def split: option.split)
  note steps = keeps_intros keeps_net reads handlers_keep [OF assms HOL.refl]
  show ?thesis
  proof (cases t)
    case (KeepsAlive conns)
    then show ?thesis by (cases conns; simp only: task_sections; intro steps)
  qed (simp only: task_sections, intro steps)+
qed

lemma pool_step_keeps:
  assumes "pool_step (server_processor E p) W allowed x y"
    and "process_keeps p" and "keeps I (we_generateUUID W)" and "I (tr_proc (snd x))"
  shows "I (tr_proc (snd y))"
  using assms(1)
proof cases
  case (runs st t out st' ts us)
  then show ?thesis using keepsD [OF task_step_keeps [OF assms(2,3)] runs(4)] assms(4) by simp
qed (use assms(4) in simp)

end

section \<open>What the server keeps\<close>

text \<open>
  The server's runs are runs of the request cache that add only where nothing is cached, but for the
  torn keys.
\<close>

lemma lookup_misses:
  "getCachedResponse c sid rid = Inl (CacheException msg) \<Longrightarrow> cache_ref c sid rid = None"
  by (auto simp: getCachedResponse_def cache_ref_def split: option.splits)

lemma main_loop_step: "main_loop c c' \<Longrightarrow> cache_step g c c'"
  by (induction rule: main_loop.induct) (auto intro: cache_step.intros)

lemma server_step_cache:
  "server_step torn s s' \<Longrightarrow> srv_cache s' = srv_cache s \<or> torn_step torn (srv_cache s) (srv_cache s')"
  by (induction rule: server_step.induct)
    (auto intro: torn_step.intros cache_step.add main_loop_step dest: lookup_misses)

interpretation guarded: server_invariant torn "\<lambda>s. torn_steps torn c (srv_cache s)" for torn c
  by unfold_locales (auto dest!: server_step_cache intro: rtranclp.rtrancl_into_rtrancl)

text \<open>The share of the system's resources and the name of the instance are set once.\<close>

interpretation once: server_invariant torn "\<lambda>s. srv_instanceId s = i \<and> srv_resourceLimitPercent s = q" for torn i q
  by unfold_locales (auto elim!: server_step.cases)

section \<open>The server and the main loop\<close>

text \<open>
  The steps of the whole process are those of the threads of the transport, each with one section
  of its handler, and those of the server besides: the main loop, changes the media objects make by
  themselves, and the adding of a response under a torn key. They come in any order. A run may begin
  and end with handlers under way.
\<close>

inductive kms_step ::
  "(string \<times> string) set \<Rightarrow> ('w server, 'o) processor \<Rightarrow> ('w server, 'o, 'n) ws_env \<Rightarrow>
   'o ws_task list \<times> ('w server, 'o, 'n) transport \<Rightarrow> 'o ws_task list \<times> ('w server, 'o, 'n) transport \<Rightarrow> bool"
  for torn P W where
  handled: "pool_step P W (\<lambda>_. True) x y \<Longrightarrow> kms_step torn P W x y"
| besides: "server_step torn (tr_proc st) s \<Longrightarrow> kms_step torn P W (ts, st) (ts, st\<lparr>tr_proc := s\<rparr>)"

definition kms_runs where
  "kms_runs torn E H sub disabled depth W st st' \<longleftrightarrow>
     (\<exists>ts ts'. (kms_step torn (server_processor E (dispatch E H sub disabled depth)) W)\<^sup>*\<^sup>* (ts, st) (ts', st'))"

definition documented_parameters ::
  "(string \<times> string) set \<Rightarrow> 'w server rpc_handler \<Rightarrow> ('w, 'o) subscription_handler option \<Rightarrow> ('w server, 'o, 'n) ws_env \<Rightarrow> bool" where
  "documented_parameters torn H sub W \<longleftrightarrow>
     acts_through_config torn H \<and> subscribes_in_world sub \<and> world_only (we_generateUUID W)"

lemma documented_parametersD:
  assumes "documented_parameters torn H sub W"
  shows "acts_through_config torn H" "subscribes_in_world sub" "world_only (we_generateUUID W)"
  using assms by (simp_all add: documented_parameters_def)

context server_invariant
begin

lemma kms_run_keeps:
  assumes "(kms_step torn (server_processor E (dispatch E H sub disabled depth)) W)\<^sup>*\<^sup>* x y"
    and "documented_parameters torn H sub W" and "I (tr_proc (snd x))"
  shows "I (tr_proc (snd y))"
  using assms(1,3)
proof (induction rule: rtranclp_induct)
  case (step y z)
  note doc = documented_parametersD [OF assms(2)]
  from step.hyps(2) show ?case
  proof cases
    case handled
    then show ?thesis
      by (rule pool_step_keeps [OF _ dispatch_keeps [OF doc(1,2)] keeps_world_only [OF doc(3)] step.IH [OF step.prems]])
  next
    case (besides st s ts)
    then show ?thesis using I_step step.IH [OF step.prems] by simp
  qed
qed

lemma kms_runs_keep:
  "kms_runs torn E H sub disabled depth W st st' \<Longrightarrow> documented_parameters torn H sub W \<Longrightarrow> I (tr_proc st) \<Longrightarrow> I (tr_proc st')"
  unfolding kms_runs_def using kms_run_keeps by fastforce

end

lemma kms_runs_cache:
  "kms_runs torn E H sub disabled depth W st st' \<Longrightarrow> documented_parameters torn H sub W \<Longrightarrow>
    torn_steps torn (srv_cache (tr_proc st)) (srv_cache (tr_proc st'))"
  by (rule guarded.kms_runs_keep [OF _ _ rtranclp.rtrancl_refl])

lemma kms_runs_once:
  "kms_runs torn E H sub disabled depth W st st' \<Longrightarrow> documented_parameters torn H sub W \<Longrightarrow>
    srv_instanceId (tr_proc st') = srv_instanceId (tr_proc st) \<and>
    srv_resourceLimitPercent (tr_proc st') = srv_resourceLimitPercent (tr_proc st)"
  by (rule once.kms_runs_keep) simp_all

lemma kms_step_inverse: "kms_step torn P W x y \<Longrightarrow> maps_inverse (snd x) \<Longrightarrow> maps_inverse (snd y)"
  by (erule kms_step.cases, erule pool_step.cases) (auto intro: task_keeps_inverse)

lemma kms_steps_inverse: "(kms_step torn P W)\<^sup>*\<^sup>* x y \<Longrightarrow> maps_inverse (snd x) \<Longrightarrow> maps_inverse (snd y)"
  by (induction rule: rtranclp_induct) (auto intro: kms_step_inverse)

lemma kms_runs_inverse: "kms_runs torn E H sub disabled depth W st st' \<Longrightarrow> maps_inverse st \<Longrightarrow> maps_inverse st'"
  unfolding kms_runs_def by (fastforce dest: kms_steps_inverse)

text \<open>A handler that nothing interrupts is a run of the process.\<close>

lemma kms_runs_handler:
  assumes "ws_step (server_processor E (dispatch E H sub disabled depth)) W st st'"
  shows "kms_runs torn E H sub disabled depth W st st'"
proof -
  have "pool_runs P W (\<lambda>_. True) x y \<Longrightarrow> (kms_step torn P W)\<^sup>*\<^sup>* x y" for P x y
    by (rule rtranclp_mono [THEN predicate2D]) (auto intro: kms_step.handled)
  then show ?thesis using ws_step_is_pool_run [OF assms, of "\<lambda>_. True"] unfolding kms_runs_def by blast
qed

lemma kms_runs_besides:
  assumes "(server_step torn)\<^sup>*\<^sup>* (tr_proc st) s"
  shows "kms_runs torn E H sub disabled depth W st (st\<lparr>tr_proc := s\<rparr>)"
proof -
  let ?step = "kms_step torn (server_processor E (dispatch E H sub disabled depth)) W"
  from assms have "?step\<^sup>*\<^sup>* ([], st) ([], st\<lparr>tr_proc := s\<rparr>)"
  proof (induction rule: rtranclp_induct)
    case (step s s')
    have "?step ([], st\<lparr>tr_proc := s\<rparr>) ([], st\<lparr>tr_proc := s\<rparr>\<lparr>tr_proc := s'\<rparr>)"
      by (rule kms_step.besides) (simp add: step.hyps)
    with step.IH show ?case by simp
  qed simp
  then show ?thesis unfolding kms_runs_def by blast
qed

section \<open>The state at the start\<close>

lemma keeps_init_proc:
  "keeps (\<lambda>st. tr_proc st = p) (initWebSocket W C config)"
  "keeps (\<lambda>st. tr_proc st = p) (initSecureWebSocket W C config)"
  "keeps (\<lambda>st. tr_proc st = p) (initRegistrar C config)"
  unfolding initWebSocket_def initSecureWebSocket_def initRegistrar_def listen_any_def Let_def
  by (intro keeps_intros keeps_onNet; simp)+

lemma transport_init_proc:
  assumes "transport_init W C config p n = (out, st)"
  shows "tr_proc st = p"
proof -
  have "keeps (\<lambda>st. tr_proc st = p) (andThen (initWebSocket W C config) (\<lambda>_.
    andThen (initSecureWebSocket W C config) (\<lambda>_.
    andThen (reads (\<lambda>st. tr_hasInsecure st \<or> tr_hasSecure st)) (\<lambda>listening.
      if \<not> listening then raise (RuntimeError
        ''Cannot open a WebSocket listener on the specified port (multiple KMS instances?)'')
      else initRegistrar C config))))"
    by (intro keeps_intros keeps_init_proc)
  from keepsD [where I = "\<lambda>st. tr_proc st = p", OF this assms [unfolded transport_init_def Let_def]]
  show ?thesis by simp
qed

lemma server_methods_init_cache:
  assumes "server_methods_init E C config version limits w = (Inr mk, w1)"
  shows "srv_cache (fst (mk w2)) = request_cache_init REQUEST_TIMEOUT"
  using assms unfolding server_methods_init_def by (auto elim!: andThen_InrE)

end
