(* ===== verification/Event_Subscription.thy ===== *)
theory Event_Subscription
  imports Server_Invariants
begin

text \<open>
  The constructor of the transport gives the processor its \<open>processSubscription\<close> as the handler of
  subscriptions, and the processor's method \<open>subscribe\<close> calls it, inside the transport. The table of
  shared event handlers is then part of what the method may change: here it is reached in the world,
  by \<open>table\<close> and \<open>store\<close>. The handler of the code meets what \<open>documented_parameters\<close> asks of one.
\<close>

type_synonym 'o handler_table = "(string \<times> 'o ws_event_handler) list \<times> nat"

definition transport_subscription ::
  "('w, 'o, 'f, 'o ws_event_handler) kms_env \<Rightarrow> 'w server rpc_process \<Rightarrow> ('w server, 'o, 'n) ws_env \<Rightarrow>
   ('w server, 'o, 'n) transport \<Rightarrow> ('w \<Rightarrow> 'o handler_table) \<Rightarrow> ('o handler_table \<Rightarrow> 'w \<Rightarrow> 'w) \<Rightarrow>
   ('w, 'o) subscription_handler" where
  "transport_subscription E p W transport table store obj sessionId eventType params s =
     (case andThen (deref obj) (\<lambda>obj. processSubscription (server_processor E p) W obj sessionId eventType)
         (transport\<lparr>tr_handlers := fst (table (srv_world s)), tr_fresh := snd (table (srv_world s)), tr_proc := s\<rparr>) of
       (r, st) \<Rightarrow> (r, (tr_proc st)\<lparr>srv_world := store (tr_handlers st, tr_fresh st) (srv_world (tr_proc st))\<rparr>))"

section \<open>The handler of the code is one\<close>

lemma world_only_iff:
  fixes m :: "('w server, exn, 'a) prog"
  shows "world_only m \<longleftrightarrow> (\<forall>s. keeps (\<lambda>x. \<exists>w. x = s\<lparr>srv_world := w\<rparr>) m)"
proof
  assume m: "world_only m"
  show "\<forall>s. keeps (\<lambda>x. \<exists>w. x = s\<lparr>srv_world := w\<rparr>) m"
    unfolding keeps_def
  proof (intro allI impI)
    fix s x :: "'w server"
    assume "\<exists>w. x = s\<lparr>srv_world := w\<rparr>"
    moreover obtain w where "snd (m x) = x\<lparr>srv_world := w\<rparr>" using m unfolding world_only_def by blast
    ultimately show "\<exists>w. snd (m x) = s\<lparr>srv_world := w\<rparr>" by auto
  qed
next
  assume keep: "\<forall>s. keeps (\<lambda>x. \<exists>w. x = s\<lparr>srv_world := w\<rparr>) m"
  have "\<exists>w. s = s\<lparr>srv_world := w\<rparr>" for s :: "'w server" by (intro exI [of _ "srv_world s"]) simp
  then show "world_only m" using keep unfolding world_only_def keeps_def by blast
qed

lemmas world_onlyD = world_only_iff [THEN iffD1, rule_format]

lemma world_only_event_handlers:
  "world_only (registerEventHandler E obj s b h)" "world_only (connectEventHandler E obj s t h)"
proof -
  show register: "world_only (registerEventHandler E obj s b h)" for b
    unfolding registerEventHandler_def by (rule world_only_onWorld)
  show "world_only (connectEventHandler E obj s t h)"
    unfolding world_only_iff connectEventHandler_def
    by (intro allI keeps_intros world_onlyD world_only_onWorld world_only_generateUUID register)
qed

lemma processSubscription_world_only:
  assumes "world_only (we_generateUUID W)"
  shows "keeps (\<lambda>st. \<exists>w. tr_proc st = s\<lparr>srv_world := w\<rparr>) (processSubscription (server_processor E p) W obj sid t)"
proof -
  have proc: "keeps (\<lambda>st. \<exists>w. tr_proc st = s\<lparr>srv_world := w\<rparr>) (onProc m)" if "world_only m" for m
    using world_onlyD [OF that, of s] by (fastforce simp: keeps_def onProc_def zoom_def split: prod.split)
  have "keeps (\<lambda>st. \<exists>w. tr_proc st = s\<lparr>srv_world := w\<rparr>)
      (\<lambda>st. (Inr \<lparr>eh_id = tr_fresh st, eh_object = obj, eh_session = sid\<rparr>, st\<lparr>tr_fresh := Suc (tr_fresh st)\<rparr>))"
    by (simp add: keeps_def)
  then show ?thesis
    unfolding processSubscription_def Let_def server_processor_def
    by (intro keeps_intros proc) (simp_all add: assms world_only_event_handlers)
qed

lemma transport_subscription_in_world:
  assumes "world_only (we_generateUUID W)"
  shows "subscribes_in_world (Some (transport_subscription E p W transport table store))"
  unfolding subscribes_in_world_def world_only_def
proof (intro allI impI)
  fix h obj sid t params s
  assume h: "Some (transport_subscription E p W transport table store) = Some h"
  let ?m = "andThen (deref obj) (\<lambda>obj. processSubscription (server_processor E p) W obj sid t)"
  let ?st = "transport\<lparr>tr_handlers := fst (table (srv_world s)), tr_fresh := snd (table (srv_world s)), tr_proc := s\<rparr>"
  obtain r st where run: "?m ?st = (r, st)" by (cases "?m ?st")
  have keep: "keeps (\<lambda>st. \<exists>w. tr_proc st = s\<lparr>srv_world := w\<rparr>) ?m"
    by (intro keeps_intros processSubscription_world_only assms)
  have "\<exists>w. tr_proc ?st = s\<lparr>srv_world := w\<rparr>" by (intro exI [of _ "srv_world s"]) simp
  from keepsD [where I = "\<lambda>st. \<exists>w. tr_proc st = s\<lparr>srv_world := w\<rparr>" and m = ?m, OF keep run this]
  obtain w where "tr_proc st = s\<lparr>srv_world := w\<rparr>" by blast
  then have "snd (transport_subscription E p W transport table store obj sid t params s) =
      s\<lparr>srv_world := store (tr_handlers st, tr_fresh st) w\<rparr>"
    by (simp add: transport_subscription_def run)
  then show "\<exists>w. snd (h obj sid t params s) = s\<lparr>srv_world := w\<rparr>" using h by auto
qed

lemma own_parameters:
  "acts_through_config torn H \<Longrightarrow> world_only (we_generateUUID W) \<Longrightarrow>
    documented_parameters torn H (Some (transport_subscription E p W transport table store)) W"
  by (simp add: documented_parameters_def transport_subscription_in_world)

end
