(* ===== verification/Load_Config.thy ===== *)
theory Load_Config
  imports Json_Model C_Strings "HOL-Library.Sublist"
begin

text \<open>
  \<open>server/loadConfig.cpp\<close>: the configuration read from a file and from the files of the module
  directories, merged into one tree. A property tree is its text and its children in order, with
  their keys. The operations of the tree library, the readers of the file formats and the path
  functions of the file system library are the fields of \<open>conf_env\<close>, a parameter; a path is the
  list of its components. What a directory holds when it is read is a tree of entries, as the file
  system shows it along paths: a link to a directory is a directory, and a link that leads back is
  followed until the file system reports an error, so the tree is finite. An error of the file system
  (a directory that cannot be opened or read on, an entry whose kind cannot be told, too many links)
  is an entry \<open>DirError\<close> at the place where it is met.
\<close>

datatype ptree = PTree (pt_data: string) (pt_children: "(string \<times> ptree) list")

definition pt_empty :: ptree where
  "pt_empty = PTree [] []"

datatype dir_entry =
    RegularFile "string list"
  | Directory "string list" "dir_entry list"
  | OtherEntry "string list"
  | DirError string

record conf_env =
  pa_get_child :: "ptree \<Rightarrow> string \<Rightarrow> ptree \<Rightarrow> ptree" \<comment> \<open>at a path, or the default\<close>
  pa_erase :: "ptree \<Rightarrow> string \<Rightarrow> ptree"
  pa_add_child :: "ptree \<Rightarrow> string \<Rightarrow> ptree \<Rightarrow> ptree"
  pa_put :: "ptree \<Rightarrow> string \<Rightarrow> string \<Rightarrow> ptree"
  pa_put_child :: "ptree \<Rightarrow> string \<Rightarrow> ptree \<Rightarrow> ptree"
  read_json :: "string list \<Rightarrow> string + ptree" \<comment> \<open>the message of a parser error, or the tree\<close>
  read_info :: "string list \<Rightarrow> string + ptree"
  read_ini :: "string list \<Rightarrow> string + ptree"
  read_xml :: "string list \<Rightarrow> string + ptree"
  fs_stem :: "string \<Rightarrow> string" \<comment> \<open>of a component\<close>
  fs_extension :: "string \<Rightarrow> string"
  path_string :: "string list \<Rightarrow> string"
  parse_path :: "string \<Rightarrow> string list"
  normalize_path :: "string list \<Rightarrow> string list"
  dir_listing :: "string list \<Rightarrow> dir_entry list option" \<comment> \<open>\<open>None\<close>: not a directory\<close>

section \<open>Splitting\<close>

text \<open>
  \<open>std::getline\<close> in a loop: the pieces between the delimiters. A piece is read while characters
  are left, so nothing follows a delimiter at the end.
\<close>

function split :: "string \<Rightarrow> char \<Rightarrow> string list" where
  "split s delim =
     (if s = [] then []
      else takeWhile (\<lambda>c. c \<noteq> delim) s # split (drop 1 (dropWhile (\<lambda>c. c \<noteq> delim) s)) delim)"
  by pat_completeness auto
termination
proof (relation "measure (\<lambda>(s, delim). length s)", simp, clarsimp)
  fix s :: string and delim
  assume "s \<noteq> []"
  then show "length (dropWhile (\<lambda>c. c \<noteq> delim) s) - Suc 0 < length s"
    using length_dropWhile_le [of "\<lambda>c. c \<noteq> delim" s] by (cases s) auto
qed

declare split.simps [simp del]

section \<open>Merging\<close>

text \<open>
  A value (no children) or an array (children without keys) below the root replaces what it is
  merged into; of an object each child is merged into the child of that key, or into an empty
  tree, and put back at the end.
\<close>

fun mergePropertyTrees :: "conf_env \<Rightarrow> ptree \<Rightarrow> ptree \<Rightarrow> nat \<Rightarrow> ptree"
  and merge_children :: "conf_env \<Rightarrow> ptree \<Rightarrow> (string \<times> ptree) list \<Rightarrow> nat \<Rightarrow> ptree" where
  "mergePropertyTrees A ptMerged (PTree text children) level =
     (if 0 < level \<and> children = [] then PTree text children
      else if 0 < level \<and> length (filter (\<lambda>c. fst c = []) children) = length children
        then PTree text children
      else merge_children A ptMerged children level)"
| "merge_children A ptMerged [] level = ptMerged"
| "merge_children A ptMerged ((key, second) # rest) level =
     (let child = mergePropertyTrees A (pa_get_child A ptMerged key pt_empty) second (Suc level)
      in merge_children A (pa_add_child A (pa_erase A ptMerged key) key child) rest level)"

section \<open>Files\<close>

type_synonym 'a conf_prog = "(ptree, exn, 'a) prog"

text \<open>The reader for the second extension; the name must end in \<open>.conf\<close> and a known format.\<close>

definition read_config :: "conf_env \<Rightarrow> string list \<Rightarrow> exn + ptree" where
  "read_config A fspath =
     (let fileName = last fspath;
          extension1 = fs_extension A (fs_stem A fileName);
          extension2 = fs_extension A fileName;
          parsed = (\<lambda>what r. case r of Inl msg \<Rightarrow> Inl (ParseException (what @ msg)) | Inr t \<Rightarrow> Inr t)
      in if extension1 = ''.conf'' then
           if extension2 = ''.json'' then parsed ''JSON parse error: '' (read_json A fspath)
           else if extension2 = ''.info'' then parsed ''INFO parse error: '' (read_info A fspath)
           else if extension2 = ''.ini'' then parsed ''INI parse error: '' (read_ini A fspath)
           else if extension2 = ''.xml'' then parsed ''XML parse error: '' (read_xml A fspath)
           else Inl (ParseException (''Unknown conf format: '' @ extension2))
         else Inl (ParseException (''Unknown file type: '' @ fileName)))"

text \<open>The file's name without its two extensions is returned.\<close>

definition loadFile :: "conf_env \<Rightarrow> string list \<Rightarrow> string conf_prog" where
  "loadFile A fspath =
     andThen (lift (read_config A fspath)) (\<lambda>readConfig config.
       let fileName = last fspath;
           extension1 = fs_extension A (fs_stem A fileName);
           extension2 = fs_extension A fileName
       in (Inr (take (length fileName - length extension1 - length extension2) fileName),
           pa_put A (mergePropertyTrees A config readConfig 0) ''configPath''
             (path_string A (butlast fspath))))"

text \<open>
  The way from the ancestor to the path, up from the path. It does not end if the ancestor is not
  above the path, since the parent of the empty path is the empty path.
\<close>

partial_function (option) diff_path ::
  "conf_env \<Rightarrow> string list \<Rightarrow> string list \<Rightarrow> string list \<Rightarrow> string list option" where
  "diff_path A ancestorPath tmppath diffpath =
     (if tmppath \<noteq> ancestorPath then
        diff_path A ancestorPath (butlast tmppath)
          (if tmppath = [] then diffpath else fs_stem A (last tmppath) # diffpath)
      else Some diffpath)"

definition join_key :: "string list \<Rightarrow> string" where
  "join_key parts = foldl (\<lambda>key it. if key = [] then it else key @ ''.'' @ it) [] parts"

definition diffPathToKey :: "conf_env \<Rightarrow> string list \<Rightarrow> string list \<Rightarrow> string option" where
  "diffPathToKey A path ancestorPath = map_option join_key (diff_path A ancestorPath path [])"

text \<open>A regular file of a directory: what cannot be read is skipped with a warning.\<close>

definition module_key :: "string \<Rightarrow> string \<Rightarrow> string" where
  "module_key key fileName = (if key = [] then ''modules'' else ''modules.'' @ key) @ ''.'' @ fileName"

definition load_module_file :: "conf_env \<Rightarrow> string list \<Rightarrow> string list \<Rightarrow> unit conf_prog" where
  "load_module_file A path parentDir config =
     (case loadFile A path pt_empty of
        (Inl (ParseException _), _) \<Rightarrow> (Inr (), config)
      | (Inl e, _) \<Rightarrow> (Inl e, config)
      | (Inr fileName, moduleConfig) \<Rightarrow>
          (case diffPathToKey A (butlast path) parentDir of
             None \<Rightarrow> (Inl (OtherException ''no end''), config)
           | Some key \<Rightarrow>
               (Inr (), mergePropertyTrees A config
                  (pa_put_child A pt_empty (module_key key fileName) moduleConfig) 0)))"

fun loadModulesConfigFromDir :: "conf_env \<Rightarrow> dir_entry list \<Rightarrow> string list \<Rightarrow> unit conf_prog" where
  "loadModulesConfigFromDir A [] parentDir = ret ()"
| "loadModulesConfigFromDir A (RegularFile path # entries) parentDir =
     andThen (load_module_file A path parentDir) (\<lambda>_. loadModulesConfigFromDir A entries parentDir)"
| "loadModulesConfigFromDir A (Directory path inner # entries) parentDir =
     andThen (loadModulesConfigFromDir A inner parentDir) (\<lambda>_. loadModulesConfigFromDir A entries parentDir)"
| "loadModulesConfigFromDir A (OtherEntry path # entries) parentDir =
     loadModulesConfigFromDir A entries parentDir"
| "loadModulesConfigFromDir A (DirError msg # entries) parentDir = raise (FilesystemError msg)"

fun load_locations :: "conf_env \<Rightarrow> string list \<Rightarrow> unit conf_prog" where
  "load_locations A [] = ret ()"
| "load_locations A (location # locations) =
     (let dir = normalize_path A (parse_path A location)
      in andThen
           (case dir_listing A dir of
              None \<Rightarrow> ret ()
            | Some entries \<Rightarrow> loadModulesConfigFromDir A entries dir) (\<lambda>_.
         load_locations A locations))"

definition loadModulesConfig :: "conf_env \<Rightarrow> string list \<Rightarrow> string \<Rightarrow> unit conf_prog" where
  "loadModulesConfig A configFilePath modulesConfigPath =
     (let modulesConfigPath =
            (if modulesConfigPath = [] then path_string A (butlast configFilePath @ [''modules''])
             else modulesConfigPath)
      in load_locations A (split modulesConfigPath CHR '':''))"

text \<open>An unreadable main file ends the process.\<close>

definition loadConfig :: "conf_env \<Rightarrow> string \<Rightarrow> string \<Rightarrow> unit conf_prog" where
  "loadConfig A file_name modulesConfigPath =
     (let configFilePath = parse_path A file_name
      in andThen
           (handle (loadFile A configFilePath)
              (\<lambda>e. case e of ParseException _ \<Rightarrow> raise (Exit 1) | PtreeError _ \<Rightarrow> raise (Exit 1)
                           | _ \<Rightarrow> raise e)) (\<lambda>_.
         loadModulesConfig A configFilePath modulesConfigPath))"

section \<open>What the tree library documents\<close>

text \<open>
  A key without dots is a path of one component. \<open>get_child\<close> finds the first child of the key,
  \<open>erase\<close> removes all of them, \<open>add_child\<close> puts a child at the end.
\<close>

definition plain_key :: "string \<Rightarrow> bool" where
  "plain_key k \<longleftrightarrow> k \<noteq> [] \<and> CHR ''.'' \<notin> set k"

definition tree_laws :: "conf_env \<Rightarrow> bool" where
  "tree_laws A \<longleftrightarrow>
     (\<forall>t k d. plain_key k \<longrightarrow>
        pa_get_child A t k d = (case map_of (pt_children t) k of None \<Rightarrow> d | Some c \<Rightarrow> c)) \<and>
     (\<forall>t k. pa_erase A t k = PTree (pt_data t) (filter (\<lambda>c. fst c \<noteq> k) (pt_children t))) \<and>
     (\<forall>t k c. plain_key k \<longrightarrow> pa_add_child A t k c = PTree (pt_data t) (pt_children t @ [(k, c)]))"

definition sub_tree :: "ptree \<Rightarrow> string \<Rightarrow> ptree option" where
  "sub_tree t k = map_of (pt_children t) k"

fun lookup :: "ptree \<Rightarrow> string list \<Rightarrow> ptree option" where
  "lookup t [] = Some t"
| "lookup t (k # ks) = (case sub_tree t k of None \<Rightarrow> None | Some c \<Rightarrow> lookup c ks)"

text \<open>Trees as the readers make them: an array, or children with different plain keys.\<close>

definition is_array_node :: "ptree \<Rightarrow> bool" where
  "is_array_node t \<longleftrightarrow> pt_children t \<noteq> [] \<and> (\<forall>c \<in> set (pt_children t). fst c = [])"

definition is_object_node :: "ptree \<Rightarrow> bool" where
  "is_object_node t \<longleftrightarrow>
     distinct (map fst (pt_children t)) \<and> (\<forall>c \<in> set (pt_children t). plain_key (fst c))"

fun wf_conf :: "ptree \<Rightarrow> bool" where
  "wf_conf (PTree d cs) \<longleftrightarrow>
     (if is_array_node (PTree d cs) then True
      else is_object_node (PTree d cs) \<and> (\<forall>c \<in> set cs. wf_conf (snd c)))"

lemma map_of_filter_neq [simp]:
  "map_of (filter (\<lambda>c. fst c \<noteq> k) cs) k' = (if k' = k then None else map_of cs k')"
  by (induction cs) auto

lemma sub_tree_put:
  assumes "tree_laws A" and "plain_key k"
  shows "sub_tree (pa_add_child A (pa_erase A t k) k c) k' = (if k' = k then Some c else sub_tree t k')"
  using assms by (auto simp: tree_laws_def sub_tree_def map_add_def split: option.split)

lemma get_child_sub_tree:
  "tree_laws A \<Longrightarrow> plain_key k \<Longrightarrow> pa_get_child A t k d = (case sub_tree t k of None \<Rightarrow> d | Some c \<Rightarrow> c)"
  by (simp add: tree_laws_def sub_tree_def)

lemma merge_children_sub_tree:
  assumes "tree_laws A" and "distinct (map fst cs)" and "\<forall>c \<in> set cs. plain_key (fst c)"
  shows "sub_tree (merge_children A m cs l) k =
    (case map_of cs k of
       None \<Rightarrow> sub_tree m k
     | Some c \<Rightarrow> Some (mergePropertyTrees A (case sub_tree m k of None \<Rightarrow> pt_empty | Some x \<Rightarrow> x) c (Suc l)))"
  using assms(2,3)
proof (induction cs arbitrary: m)
  case (Cons x cs)
  obtain k' c where x: "x = (k', c)" by (cases x)
  then have plain: "plain_key k'" and fresh: "map_of cs k' = None"
    using Cons.prems by (auto simp: map_of_eq_None_iff)
  show ?case
    using Cons.IH Cons.prems fresh
    by (cases "k = k'"; cases "map_of cs k") (simp_all add: x Let_def sub_tree_put [OF assms(1) plain] get_child_sub_tree [OF assms(1) plain])
qed simp

lemma not_array_filter:
  "is_object_node (PTree d cs) \<Longrightarrow> cs \<noteq> [] \<Longrightarrow> length (filter (\<lambda>c. fst c = []) cs) \<noteq> length cs"
  by (cases cs) (auto simp: is_object_node_def plain_key_def dest: arg_cong [of _ _ length]
      intro: le_imp_less_Suc length_filter_le less_imp_neq)

lemma merge_object:
  assumes "is_object_node t" and "pt_children t \<noteq> [] \<or> l = 0"
  shows "mergePropertyTrees A m t l = merge_children A m (pt_children t) l"
  using assms not_array_filter [of "pt_data t" "pt_children t"] by (cases t) auto

lemma merge_leaf: "pt_children t = [] \<or> is_array_node t \<Longrightarrow> 0 < l \<Longrightarrow> mergePropertyTrees A m t l = t"
  by (cases t) (auto simp: is_array_node_def filter_id_conv)

lemma wf_confD:
  assumes "wf_conf t" and "sub_tree t k = Some c" and "plain_key k"
  shows "is_object_node t" and "wf_conf c" and "pt_children t \<noteq> []"
proof -
  have k: "(k, c) \<in> set (pt_children t)" using assms(2) by (auto simp: sub_tree_def dest: map_of_SomeD)
  then have "\<not> is_array_node t" using assms(3) by (force simp: is_array_node_def plain_key_def)
  then show "is_object_node t" "wf_conf c" "pt_children t \<noteq> []"
    using assms(1) k by (cases t; force)+
qed

lemma merge_sub_tree:
  assumes "tree_laws A" and "is_object_node t" and "pt_children t \<noteq> [] \<or> l = 0"
  shows "sub_tree (mergePropertyTrees A m t l) k =
    (case sub_tree t k of
       None \<Rightarrow> sub_tree m k
     | Some c \<Rightarrow> Some (mergePropertyTrees A (case sub_tree m k of None \<Rightarrow> pt_empty | Some x \<Rightarrow> x) c (Suc l)))"
  using merge_children_sub_tree [OF assms(1), of "pt_children t" m l k] assms(2)
  by (simp add: merge_object [OF assms(2,3)] is_object_node_def sub_tree_def [of t])

text \<open>A setting of the second tree: a value or an array. A path it says nothing about.\<close>

definition is_setting :: "ptree \<Rightarrow> bool" where
  "is_setting t \<longleftrightarrow> pt_children t = [] \<or> is_array_node t"

fun says_nothing :: "ptree \<Rightarrow> string list \<Rightarrow> bool" where
  "says_nothing t [] = False"
| "says_nothing t (k # ks) =
     (is_object_node t \<and>
      (case sub_tree t k of None \<Rightarrow> True | Some c \<Rightarrow> pt_children c \<noteq> [] \<and> says_nothing c ks))"

lemma merge_setting:
  assumes "tree_laws A"
  shows "wf_conf t \<Longrightarrow> ks \<noteq> [] \<Longrightarrow> \<forall>k \<in> set ks. plain_key k \<Longrightarrow> lookup t ks = Some x \<Longrightarrow> is_setting x \<Longrightarrow>
    lookup (mergePropertyTrees A m t l) ks = Some x"
proof (induction ks arbitrary: m t l)
  case (Cons k ks)
  then obtain c where c: "sub_tree t k = Some c" "lookup c ks = Some x" by (auto split: option.splits)
  note wf = wf_confD [OF Cons.prems(1) c(1)]
  have "lookup (mergePropertyTrees A m' c (Suc l)) ks = Some x" for m'
  proof (cases "ks = []")
    case True
    then have "c = x" using c(2) by simp
    then show ?thesis using True Cons.prems(5) by (simp add: merge_leaf is_setting_def)
  next
    case False
    then show ?thesis using Cons.IH [of c m' "Suc l"] Cons.prems c wf by simp
  qed
  then show ?case using merge_sub_tree [OF assms wf(1), of l m k] wf(3) Cons.prems(3) c(1) by simp
qed simp

lemma merge_untouched:
  assumes "tree_laws A"
  shows "says_nothing t ks \<Longrightarrow> pt_children t \<noteq> [] \<or> l = 0 \<Longrightarrow>
    lookup (mergePropertyTrees A m t l) ks = lookup m ks"
proof (induction ks arbitrary: m t l)
  case (Cons k ks)
  then have obj: "is_object_node t" by simp
  note sub = merge_sub_tree [OF assms obj Cons.prems(2), of m k]
  show ?case
  proof (cases "sub_tree t k")
    case None
    then show ?thesis by (simp add: sub)
  next
    case (Some c)
    then have c: "pt_children c \<noteq> []" "says_nothing c ks" using Cons.prems(1) by simp_all
    then have "lookup pt_empty ks = None" by (cases ks) (simp_all add: sub_tree_def pt_empty_def)
    then show ?thesis using Cons.IH [OF c(2)] c(1) by (simp add: sub Some split: option.split)
  qed
qed simp

section \<open>Splitting and keys\<close>

lemma split_Nil [simp]: "split [] d = []"
  by (simp add: split.simps)

lemma split_last:
  assumes "d \<notin> set p" and "p \<noteq> []"
  shows "split p d = [p]"
proof -
  have "takeWhile (\<lambda>c. c \<noteq> d) p = p" "dropWhile (\<lambda>c. c \<noteq> d) p = []"
    using assms(1) by (auto simp: takeWhile_eq_all_conv dropWhile_eq_Nil_conv)
  then show ?thesis using assms(2) by (subst split.simps) (simp only: if_False if_True drop_Nil split_Nil)
qed

lemma split_piece:
  assumes "d \<notin> set p"
  shows "split (p @ d # s) d = p # split s d"
proof -
  have "takeWhile (\<lambda>c. c \<noteq> d) (p @ d # s) = p" "dropWhile (\<lambda>c. c \<noteq> d) (p @ d # s) = d # s"
    using assms by (induction p) auto
  then show ?thesis by (subst split.simps) simp
qed

fun join :: "char \<Rightarrow> string list \<Rightarrow> string" where
  "join d [] = []"
| "join d [p] = p"
| "join d (p # ps) = p @ d # join d ps"

lemma split_join:
  "\<forall>p \<in> set ps. d \<notin> set p \<Longrightarrow> ps \<noteq> [] \<longrightarrow> last ps \<noteq> [] \<Longrightarrow> split (join d ps) d = ps"
  by (induction d ps rule: join.induct) (simp_all add: split_last split_piece)

lemma diff_path_ends: "diff_path A anc (anc @ ps) acc = Some (map (fs_stem A) ps @ acc)"
proof (induction ps arbitrary: acc rule: rev_induct)
  case Nil
  then show ?case by (simp add: diff_path.simps)
next
  case (snoc p ps)
  then show ?case by (subst diff_path.simps) (simp add: butlast_append)
qed

lemma join_glue: "join d ((k @ d # p) # ps) = join d (k # p # ps)"
  by (cases ps) simp_all

lemma join_key_append:
  "k \<noteq> [] \<Longrightarrow> foldl (\<lambda>key it. if key = [] then it else key @ ''.'' @ it) k ps = join CHR ''.'' (k # ps)"
  by (induction ps arbitrary: k) (simp_all add: join_glue)

text \<open>The loop of \<open>diffPathToKey\<close> ends exactly if the ancestor is above the path.\<close>

lemma diff_path_prefix: "diff_path A anc p acc = Some r \<Longrightarrow> prefix anc p"
proof (rule diff_path.raw_induct [where P = "\<lambda>A anc p acc r. prefix anc p"])
  fix f A anc p and acc r :: "string list"
  assume IH: "\<And>A anc p acc r. f A anc p acc = Some r \<Longrightarrow> prefix anc p"
    and f: "(if p \<noteq> anc then f A anc (butlast p) (if p = [] then acc else fs_stem A (last p) # acc) else Some acc) = Some r"
  show "prefix anc p"
  proof (cases "p = anc")
    case False
    then have "prefix anc (butlast p)" using f IH by simp
    then show ?thesis by (rule prefix_order.trans [OF _ prefixeq_butlast])
  qed simp
qed

lemma diffPathToKey_below:
  "diffPathToKey A path anc =
     (if prefix anc path
      then Some (join CHR ''.'' (dropWhile (\<lambda>p. p = []) (map (fs_stem A) (drop (length anc) path))))
      else None)"
proof (cases "prefix anc path")
  case True
  then obtain ps where p: "path = anc @ ps" by (auto simp: prefix_def)
  have "join_key qs = join CHR ''.'' (dropWhile (\<lambda>p. p = []) qs)" for qs
    unfolding join_key_def by (induction qs) (simp_all add: join_key_append)
  then show ?thesis using True by (simp add: p diffPathToKey_def diff_path_ends)
next
  case False
  then have "diff_path A anc path [] = None" using diff_path_prefix by (cases "diff_path A anc path []") auto
  then show ?thesis using False by (simp add: diffPathToKey_def)
qed

text \<open>
  What the library documents for the functions that take a path: \<open>put_child\<close> into an empty tree makes
  the trees on the way to the last key, whose child is the tree.
\<close>

fun nest :: "string list \<Rightarrow> ptree \<Rightarrow> ptree" where
  "nest [] c = c"
| "nest (k # ks) c = PTree [] [(k, nest ks c)]"

definition path_laws :: "conf_env \<Rightarrow> bool" where
  "path_laws A \<longleftrightarrow>
     (\<forall>ks c. ks \<noteq> [] \<longrightarrow> (\<forall>k \<in> set ks. plain_key k) \<longrightarrow>
        pa_put_child A pt_empty (join CHR ''.'' ks) c = nest ks c)"

lemma lookup_nest: "lookup (nest ks c) (ks @ qs) = lookup c qs"
  by (induction ks) (simp_all add: sub_tree_def)

lemma wf_nest: "wf_conf c \<Longrightarrow> \<forall>k \<in> set ks. plain_key k \<Longrightarrow> wf_conf (nest ks c)"
  by (induction ks) (auto simp: is_array_node_def is_object_node_def)

lemma join_Cons: "ks \<noteq> [] \<Longrightarrow> join d (k # ks) = k @ d # join d ks"
  by (cases ks) simp_all

lemma join_snoc: "ks \<noteq> [] \<Longrightarrow> join d (ks @ [k]) = join d ks @ d # k"
  by (induction d ks rule: join.induct) (simp_all add: join_Cons)

lemma module_key_join:
  assumes "\<forall>k \<in> set ks. plain_key k"
  shows "module_key (join CHR ''.'' ks) name = join CHR ''.'' (''modules'' # ks @ [name])"
proof (cases "ks = []")
  case False
  then obtain k ks' where ks: "ks = k # ks'" by (cases ks) auto
  then have "join CHR ''.'' ks \<noteq> []" using assms by (cases ks') (simp_all add: plain_key_def)
  then show ?thesis using False by (simp add: module_key_def join_Cons join_snoc)
qed (simp add: module_key_def)

section \<open>Module files\<close>

text \<open>Everything a directory lists is below the directory; what its directories list is below them.\<close>

fun below :: "string list \<Rightarrow> dir_entry \<Rightarrow> bool" where
  "below d (RegularFile p) = (\<exists>n. p = d @ [n])"
| "below d (Directory p es) = ((\<exists>n. p = d @ [n]) \<and> (\<forall>e \<in> set es. below p e))"
| "below d (OtherEntry p) = True"
| "below d (DirError msg) = True"

lemma loadFile_error: "loadFile A p c = (Inl e, c') \<Longrightarrow> \<exists>msg. e = ParseException msg"
  by (auto simp: loadFile_def andThen_def lift_def read_config_def Let_def split: if_splits sum.splits)

lemma load_module_file_ends:
  "prefix d (butlast p) \<Longrightarrow> \<exists>c'. load_module_file A p d c = (Inr (), c')"
  by (auto simp: load_module_file_def diffPathToKey_below dest: loadFile_error split: sum.split prod.split exn.split)

text \<open>The files a walk over the entries comes to, in order, and the error that ends it, if one does.\<close>

fun walk :: "dir_entry list \<Rightarrow> string list list \<times> string option" where
  "walk [] = ([], None)"
| "walk (RegularFile path # entries) = (case walk entries of (ps, e) \<Rightarrow> (path # ps, e))"
| "walk (Directory path inner # entries) =
     (case walk inner of
        (ps, Some e) \<Rightarrow> (ps, Some e)
      | (ps, None) \<Rightarrow> (case walk entries of (qs, e) \<Rightarrow> (ps @ qs, e)))"
| "walk (OtherEntry path # entries) = walk entries"
| "walk (DirError msg # entries) = ([], Some msg)"

definition load_files :: "conf_env \<Rightarrow> string list \<Rightarrow> string list list \<Rightarrow> ptree \<Rightarrow> ptree" where
  "load_files A dir = fold (\<lambda>path config. snd (load_module_file A path dir config))"

lemma load_module_file_run:
  "prefix d (butlast p) \<Longrightarrow> load_module_file A p d c = (Inr (), load_files A d [p] c)"
  using load_module_file_ends [of d p A c] by (auto simp: load_files_def)

lemma loadModulesConfigFromDir_walk:
  "prefix d d' \<Longrightarrow> \<forall>e \<in> set es. below d' e \<Longrightarrow>
   loadModulesConfigFromDir A es d c =
     (case walk es of (ps, err) \<Rightarrow>
        (case err of None \<Rightarrow> Inr () | Some msg \<Rightarrow> Inl (FilesystemError msg), load_files A d ps c))"
proof (induction A es d arbitrary: d' c rule: loadModulesConfigFromDir.induct)
  case (2 A path es d)
  then have "prefix d (butlast path)" by auto
  then obtain c1 where c1: "load_module_file A path d c = (Inr (), c1)" using load_module_file_ends by blast
  have "loadModulesConfigFromDir A (RegularFile path # es) d c = loadModulesConfigFromDir A es d c1"
    by (simp add: andThen_def c1)
  moreover have "load_files A d (path # ps) c = load_files A d ps c1" for ps by (simp add: load_files_def c1)
  ultimately show ?case using "2.IH" [OF "2.prems"(1), of c1] "2.prems"(2) by (simp split: prod.split)
next
  case (3 A path inner es d)
  then have inner: "prefix d path" "\<forall>e \<in> set inner. below path e" and es: "\<forall>e \<in> set es. below d' e" by auto
  show ?case
  proof (cases "snd (walk inner)")
    case None
    then show ?thesis
      using "3.IH"(1) [OF inner] "3.IH"(2) [OF "3.prems"(1) es, of "load_files A d (fst (walk inner)) c"]
      by (auto simp: andThen_def load_files_def split: prod.split)
  next
    case (Some e)
    then show ?thesis
      using "3.IH"(1) [OF inner] by (auto simp: andThen_def split: prod.split)
  qed
qed (simp_all add: ret_def raise_def load_files_def)


lemma load_module_file_result:
  assumes "load_module_file A (dir @ subdirs @ [file]) dir config = (Inr (), config')"
    and "loadFile A (dir @ subdirs @ [file]) pt_empty = (Inr name, moduleConfig)"
    and "path_laws A" and "\<forall>k \<in> set (map (fs_stem A) subdirs @ [name]). plain_key k"
  shows "config' = mergePropertyTrees A config (nest (''modules'' # map (fs_stem A) subdirs @ [name]) moduleConfig) 0"
proof -
  let ?ks = "map (fs_stem A) subdirs"
  have "dropWhile (\<lambda>p. p = []) ?ks = ?ks"
    using assms(4) by (cases subdirs) (auto simp: plain_key_def)
  then have key: "diffPathToKey A (butlast (dir @ subdirs @ [file])) dir = Some (join CHR ''.'' ?ks)"
    by (simp add: diffPathToKey_below butlast_append)
  have "\<forall>k \<in> set (''modules'' # ?ks @ [name]). plain_key k" using assms(4) by (auto simp: plain_key_def)
  then have "pa_put_child A pt_empty (join CHR ''.'' (''modules'' # ?ks @ [name])) moduleConfig =
      nest (''modules'' # ?ks @ [name]) moduleConfig"
    using assms(3) unfolding path_laws_def by blast
  moreover have "\<forall>k \<in> set ?ks. plain_key k" using assms(4) by simp
  ultimately have "pa_put_child A pt_empty (module_key (join CHR ''.'' ?ks) name) moduleConfig =
      nest (''modules'' # ?ks @ [name]) moduleConfig"
    by (simp only: module_key_join)
  then show ?thesis using assms(1,2) by (simp add: load_module_file_def key)
qed

section \<open>A tree library\<close>

text \<open>The functions of the tree library, for the examples: paths are split at the dots.\<close>

fun get_path :: "ptree \<Rightarrow> string list \<Rightarrow> ptree \<Rightarrow> ptree" where
  "get_path t [] d = t"
| "get_path t (k # ks) d = (case map_of (pt_children t) k of None \<Rightarrow> d | Some c \<Rightarrow> get_path c ks d)"

fun set_first :: "string \<Rightarrow> ptree \<Rightarrow> (string \<times> ptree) list \<Rightarrow> (string \<times> ptree) list" where
  "set_first k c [] = [(k, c)]"
| "set_first k c (x # xs) = (if fst x = k then (k, c) # xs else x # set_first k c xs)"

fun at_path :: "(ptree \<Rightarrow> string \<Rightarrow> ptree) \<Rightarrow> ptree \<Rightarrow> string list \<Rightarrow> ptree" where
  "at_path f t [] = t"
| "at_path f t [k] = f t k"
| "at_path f t (k # ks) =
     PTree (pt_data t)
       (set_first k
          (at_path f (case map_of (pt_children t) k of None \<Rightarrow> pt_empty | Some c \<Rightarrow> c) ks) (pt_children t))"

definition demo_read :: "string list \<Rightarrow> string + ptree" where
  "demo_read p =
     (if last p = ''kurento.conf.json'' then
        Inr (PTree [] [(''net'', PTree [] [(''port'', PTree ''8888'' []), (''path'', PTree ''kurento'' [])])])
      else if last p = ''sip.conf.json'' then
        Inr (PTree [] [(''port'', PTree ''5060'' []), (''codecs'', PTree [] [([], PTree ''opus'' [])])])
      else Inl ''cannot open file'')"

definition demo_conf_env :: conf_env where
  "demo_conf_env =
     \<lparr>pa_get_child = (\<lambda>t k d. get_path t (split k CHR ''.'') d),
      pa_erase = (\<lambda>t k. PTree (pt_data t) (filter (\<lambda>c. fst c \<noteq> k) (pt_children t))),
      pa_add_child = (\<lambda>t k c. at_path (\<lambda>t k. PTree (pt_data t) (pt_children t @ [(k, c)])) t (split k CHR ''.'')),
      pa_put = (\<lambda>t k s. at_path (\<lambda>t k. PTree (pt_data t) (set_first k (PTree s []) (pt_children t))) t (split k CHR ''.'')),
      pa_put_child = (\<lambda>t k c. at_path (\<lambda>t k. PTree (pt_data t) (set_first k c (pt_children t))) t (split k CHR ''.'')),
      read_json = demo_read, read_info = demo_read, read_ini = demo_read, read_xml = demo_read,
      fs_stem = (\<lambda>s. if s = ''sip.conf.json'' then ''sip.conf'' else if s = ''kurento.conf.json'' then ''kurento.conf'' else s),
      fs_extension = (\<lambda>s. if s \<in> {''sip.conf.json'', ''kurento.conf.json''} then ''.json''
        else if s \<in> {''sip.conf'', ''kurento.conf''} then ''.conf'' else []),
      path_string = (\<lambda>p. join CHR ''/'' p), parse_path = (\<lambda>s. split s CHR ''/''), normalize_path = (\<lambda>p. p),
      dir_listing = (\<lambda>p. if p = [''etc'', ''modules'']
        then Some [Directory [''etc'', ''modules'', ''kurento''] [RegularFile [''etc'', ''modules'', ''kurento'', ''sip.conf.json'']],
                   RegularFile [''etc'', ''modules'', ''broken'']]
        else None)\<rparr>"

lemma demo_tree_laws: "tree_laws demo_conf_env"
  by (auto simp: tree_laws_def demo_conf_env_def plain_key_def split_last split: option.split)

lemma demo_path_laws: "path_laws demo_conf_env"
proof -
  have "at_path (\<lambda>t k. PTree (pt_data t) (set_first k c (pt_children t))) pt_empty ks = nest ks c" if "ks \<noteq> []" for ks c
    using that by (induction ks rule: induct_list012) (simp_all add: pt_empty_def)
  moreover have "split (join CHR ''.'' ks) CHR ''.'' = ks" if "\<forall>k \<in> set ks. plain_key k" for ks
    using that by (intro split_join) (auto simp: plain_key_def)
  ultimately show ?thesis by (auto simp: path_laws_def demo_conf_env_def)
qed


section \<open>Properties\<close>



definition demo_first :: ptree where
  "demo_first = PTree [] [(''net'', PTree [] [(''port'', PTree ''8888'' []), (''path'', PTree ''kurento'' [])])]"


text \<open>
  C21. The settings of a module's file end up where modules look for them: once the file
  \<open>subdirs/file\<close> of a module directory is loaded, each of its values and arrays is in the
  configuration under \<open>modules\<close>, the stems of the subdirectories and the file's name without its
  extensions; everything outside \<open>modules\<close> is as before.
\<close>

theorem module_settings_are_found:
  assumes "tree_laws A" and "path_laws A"
    and "loadFile A (dir @ subdirs @ [file]) pt_empty = (Inr name, moduleConfig)" and "wf_conf moduleConfig"
    and "\<forall>k \<in> set (map (fs_stem A) subdirs @ [name]). plain_key k"
    and "load_module_file A (dir @ subdirs @ [file]) dir config = (r, config')"
  shows "(\<forall>ks x. (\<forall>k \<in> set ks. plain_key k) \<and> lookup moduleConfig ks = Some x \<and> is_setting x \<longrightarrow>
      lookup config' (''modules'' # map (fs_stem A) subdirs @ name # ks) = Some x) \<and>
    (\<forall>k ks. k \<noteq> ''modules'' \<longrightarrow> lookup config' (k # ks) = lookup config (k # ks))"
proof -
  let ?path = "''modules'' # map (fs_stem A) subdirs @ [name]"
  let ?t = "nest ?path moduleConfig"
  have "r = Inr ()"
    using load_module_file_ends [of dir "dir @ subdirs @ [file]" A config] assms(6) by (auto simp: butlast_append)
  then have config': "config' = mergePropertyTrees A config ?t 0"
    using load_module_file_result [OF _ assms(3) assms(2) assms(5)] assms(6) by simp
  have plain: "\<forall>k \<in> set ?path. plain_key k" using assms(5) by (auto simp: plain_key_def)
  have wf: "wf_conf ?t" by (rule wf_nest [OF assms(4) plain])
  have "lookup config' (?path @ ks) = Some x"
    if "\<forall>k \<in> set ks. plain_key k" "lookup moduleConfig ks = Some x" "is_setting x" for ks x
    using merge_setting [OF assms(1) wf, of "?path @ ks" x config 0] that plain lookup_nest [of ?path moduleConfig ks]
    by (auto simp: config')
  moreover have "lookup config' (k # ks) = lookup config (k # ks)" if "k \<noteq> ''modules''" for k ks
    unfolding config' using that plain
    by (intro merge_untouched [OF assms(1)]) (auto simp: sub_tree_def is_object_node_def)
  ultimately show ?thesis by auto
qed


definition demo_sip :: ptree where
  "demo_sip = PTree []
     [(''port'', PTree ''5060'' []), (''codecs'', PTree [] [([], PTree ''opus'' [])]),
      (''configPath'', PTree ''etc/modules/kurento'' [])]"

lemma demo_load_sip:
  "loadFile demo_conf_env [''etc'', ''modules'', ''kurento'', ''sip.conf.json''] pt_empty = (Inr ''sip'', demo_sip)"
  by (simp add: loadFile_def read_config_def demo_conf_env_def demo_read_def andThen_def lift_def demo_sip_def
      pt_empty_def split_last)

lemma module_settings_are_found_witness:
  "\<exists>config'. load_module_file demo_conf_env [''etc'', ''modules'', ''kurento'', ''sip.conf.json''] [''etc'', ''modules'']
       demo_first = (Inr (), config') \<and>
     lookup config' [''modules'', ''kurento'', ''sip'', ''port''] = Some (PTree ''5060'' []) \<and>
     lookup config' [''net'', ''port''] = Some (PTree ''8888'' [])"
proof -
  let ?p = "[''etc'', ''modules''] @ [''kurento''] @ [''sip.conf.json'']"
  obtain config' where load: "load_module_file demo_conf_env ?p [''etc'', ''modules''] demo_first = (Inr (), config')"
    using load_module_file_ends [of "[''etc'', ''modules'']" ?p demo_conf_env demo_first] by auto
  have wf: "wf_conf demo_sip"
    by (simp add: demo_sip_def is_array_node_def is_object_node_def plain_key_def)
  have sip: "loadFile demo_conf_env ?p pt_empty = (Inr ''sip'', demo_sip)"
    using demo_load_sip by simp
  have stem: "\<forall>k \<in> set (map (fs_stem demo_conf_env) [''kurento''] @ [''sip'']). plain_key k"
    by (simp add: demo_conf_env_def plain_key_def)
  note found = module_settings_are_found [OF demo_tree_laws demo_path_laws sip wf stem load]
  have "lookup demo_sip [''port''] = Some (PTree ''5060'' [])" "is_setting (PTree ''5060'' [])"
    by (simp_all add: demo_sip_def sub_tree_def is_setting_def)
  then have "lookup config' [''modules'', ''kurento'', ''sip'', ''port''] = Some (PTree ''5060'' [])"
    using conjunct1 [OF found, rule_format, of "[''port'']"] by (simp add: plain_key_def demo_conf_env_def)
  moreover have "lookup config' [''net'', ''port''] = Some (PTree ''8888'' [])"
    using found by (simp add: demo_first_def sub_tree_def)
  ultimately show ?thesis using load by auto
qed

text \<open>
  C37. Reading a module directory always ends, and ends in a known way: whatever the directory and
  those below it hold (files of unknown formats, files that do not parse, errors of the file system),
  the files are loaded in the order of the walk, the errors of single files are not passed on, and the
  loop that turns a path into a key reaches the directory it started from. The first error of the file
  system ends the walk and is thrown, with what was loaded before it kept; without one the reading
  succeeds.
\<close>

theorem module_directories_load_in_order:
  assumes "\<forall>e \<in> set entries. below dir e"
  shows "loadModulesConfigFromDir A entries dir config =
    (case snd (walk entries) of None \<Rightarrow> Inr () | Some msg \<Rightarrow> Inl (FilesystemError msg),
     load_files A dir (fst (walk entries)) config)"
  using loadModulesConfigFromDir_walk [of dir dir entries A config] assms by (simp add: case_prod_unfold)

lemma module_directories_load_in_order_witness:
  "loadModulesConfigFromDir demo_conf_env
      [Directory [''etc'', ''kurento''] [RegularFile [''etc'', ''kurento'', ''sip.conf.json''], DirError ''denied''],
       RegularFile [''etc'', ''broken'']] [''etc''] pt_empty =
    (Inl (FilesystemError ''denied''),
     snd (load_module_file demo_conf_env [''etc'', ''kurento'', ''sip.conf.json''] [''etc''] pt_empty))"
  by (subst module_directories_load_in_order) (simp_all add: load_files_def)

text \<open>
  The list of module directories written with colons is read back, unless a name is empty at the end
  or contains a colon.
\<close>

theorem directory_list_round_trip:
  assumes "\<forall>d \<in> set dirs. CHR '':'' \<notin> set d" and "dirs \<noteq> [] \<longrightarrow> last dirs \<noteq> []"
  shows "split (join CHR '':'' dirs) CHR '':'' = dirs"
  using assms by (rule split_join)

end
