(* ===== verification/C_Memory.thy ===== *)
theory C_Memory
  imports C_Strings "HOL-Library.Sublist" "HOL-Library.Signed_Division"
begin

text \<open>
  The one block of memory the crash handler works in, as a list of bytes, with the functions of the
  C library on the strings in it and the number printing of \<open>namespace Safe\<close> in
  \<open>server/death_handler.cpp\<close>. A pointer into the block is an index; reading or writing outside of
  it, and copying between regions that overlap, is \<open>Fault\<close>. What the handler does to the outside
  is the list of its events.
\<close>

datatype crash_end =
    Fault \<comment> \<open>undefined behaviour\<close>
  | Aborts
  | Terminates \<comment> \<open>an exception leaves the handler\<close>
  | Exits int \<comment> \<open>\<open>exit\<close>\<close>
  | Exits_now int \<comment> \<open>\<open>_Exit\<close>\<close>
  | Quick_exits int

datatype crash_signal = SIGSEGV | SIGABRT | SIGFPE | SIGCONT | SIGSTOP | OtherSignal int

datatype crash_event =
    ToStderr string
  | Kills int crash_signal
  | Waits int bool \<comment> \<open>\<open>waitpid\<close>; whether it blocks\<close>
  | Default_action crash_signal

record crash_state =
  mem :: string
  events :: "crash_event list"

type_synonym 'a crash_prog = "(crash_state, crash_end, 'a) prog"

definition event :: "crash_event \<Rightarrow> unit crash_prog" where
  "event e st = (Inr (), st\<lparr>events := events st @ [e]\<rparr>)"

abbreviation NUL :: char where
  "NUL \<equiv> CHR 0x00"

section \<open>Bytes and strings\<close>

definition overwrite :: "string \<Rightarrow> nat \<Rightarrow> string \<Rightarrow> string" where
  "overwrite m p s = take p m @ s @ drop (p + length s) m"

definition peek :: "nat \<Rightarrow> char crash_prog" where
  "peek p st = (if p < length (mem st) then (Inr (mem st ! p), st) else (Inl Fault, st))"

definition put :: "nat \<Rightarrow> string \<Rightarrow> unit crash_prog" where
  "put p s st =
     (if p + length s \<le> length (mem st) then (Inr (), st\<lparr>mem := overwrite (mem st) p s\<rparr>)
      else (Inl Fault, st))"

definition put_int :: "int \<Rightarrow> string \<Rightarrow> unit crash_prog" where
  "put_int p s = (if p < 0 then raise Fault else put (nat p) s)"

definition cstr :: "string \<Rightarrow> nat \<Rightarrow> string option" where
  "cstr m p = (if NUL \<in> set (drop p m) then Some (takeWhile (\<lambda>c. c \<noteq> NUL) (drop p m)) else None)"

definition load_str :: "nat \<Rightarrow> string crash_prog" where
  "load_str p st = (case cstr (mem st) p of None \<Rightarrow> (Inl Fault, st) | Some s \<Rightarrow> (Inr s, st))"

text \<open>The second argument of the copying functions: a string elsewhere or a pointer.\<close>

datatype c_source = Lit string | At nat

definition source_str :: "c_source \<Rightarrow> string crash_prog" where
  "source_str src = (case src of Lit s \<Rightarrow> ret s | At p \<Rightarrow> load_str p)"

definition overlaps :: "c_source \<Rightarrow> nat \<Rightarrow> nat \<Rightarrow> bool" where
  "overlaps src p n = (case src of Lit s \<Rightarrow> False | At q \<Rightarrow> p < q + n \<and> q < p + n)"

definition strcpy :: "nat \<Rightarrow> c_source \<Rightarrow> unit crash_prog" where
  "strcpy p src =
     andThen (source_str src) (\<lambda>s.
       if overlaps src p (Suc (length s)) then raise Fault else put p (s @ [NUL]))"

definition strcat :: "nat \<Rightarrow> c_source \<Rightarrow> unit crash_prog" where
  "strcat p src = andThen (load_str p) (\<lambda>s. strcpy (p + length s) src)"

fun find_sub :: "string \<Rightarrow> string \<Rightarrow> nat option" where
  "find_sub pat [] = (if pat = [] then Some 0 else None)"
| "find_sub pat (c # s) = (if prefix pat (c # s) then Some 0 else map_option Suc (find_sub pat s))"

definition strstr :: "nat \<Rightarrow> string \<Rightarrow> nat option crash_prog" where
  "strstr p pat = andThen (load_str p) (\<lambda>s. ret (map_option (\<lambda>i. p + i) (find_sub pat s)))"

definition only_if :: "bool \<Rightarrow> unit crash_prog \<Rightarrow> unit crash_prog" where
  "only_if b m = (if b then m else ret ())"

section \<open>\<open>namespace Safe\<close>\<close>

text \<open>The base is not zero; the callers pass 10 and 16.\<close>

definition res_max_length :: nat where
  "res_max_length = 32"

text \<open>An element of the array of digits, which has a terminator at its end.\<close>

definition digit_at :: "int \<Rightarrow> char crash_prog" where
  "digit_at i =
     (if 0 \<le> i \<and> i < 16 then ret (digit_char (nat i)) else if i = 16 then ret NUL else raise Fault)"

primrec itoa_loop :: "nat \<Rightarrow> int \<Rightarrow> nat \<Rightarrow> int \<Rightarrow> nat crash_prog" where
  "itoa_loop res base 0 val = ret 0"
| "itoa_loop res base (Suc i) val =
     (if val = 0 then ret (Suc i)
      else andThen (digit_at (val smod base)) (\<lambda>c.
           andThen (put (res + Suc i) [c]) (\<lambda>_.
           itoa_loop res base i (val sdiv base))))"

definition itoa :: "int \<Rightarrow> nat \<Rightarrow> int \<Rightarrow> nat crash_prog" where
  "itoa val memory base =
     (if val = 0 then andThen (put memory ''0'') (\<lambda>_. andThen (put (memory + 1) [NUL]) (\<lambda>_. ret memory))
      else
        andThen (put (memory + res_max_length - 1) [NUL]) (\<lambda>_.
        andThen (itoa_loop memory base (res_max_length - 2) val) (\<lambda>i.
        if val < 0 then andThen (put (memory + i) ''-'') (\<lambda>_. ret (memory + i))
        else ret (memory + i + 1))))"

primrec utoa_loop :: "nat \<Rightarrow> nat \<Rightarrow> nat \<Rightarrow> 64 word \<Rightarrow> nat crash_prog" where
  "utoa_loop res base 0 val = ret 0"
| "utoa_loop res base (Suc i) val =
     (if val = 0 then ret (Suc i)
      else andThen (digit_at (uint (val mod of_nat base))) (\<lambda>c.
           andThen (put (res + Suc i) [c]) (\<lambda>_.
           utoa_loop res base i (val div of_nat base))))"

definition utoa :: "64 word \<Rightarrow> nat \<Rightarrow> nat \<Rightarrow> nat crash_prog" where
  "utoa val memory base =
     (if val = 0 then andThen (put memory ''0'') (\<lambda>_. andThen (put (memory + 1) [NUL]) (\<lambda>_. ret memory))
      else
        andThen (put (memory + res_max_length - 1) [NUL]) (\<lambda>_.
        andThen (utoa_loop memory base (res_max_length - 2) val) (\<lambda>i.
        ret (memory + i + 1))))"

definition ptoa :: "64 word \<Rightarrow> nat \<Rightarrow> nat crash_prog" where
  "ptoa val memory =
     andThen (utoa val (memory + 32) 16) (\<lambda>buf.
     andThen (strcpy (memory + 2) (At buf)) (\<lambda>_.
     andThen (put memory ''0'') (\<lambda>_.
     andThen (put (memory + 1) ''x'') (\<lambda>_. ret memory))))"

text \<open>
  \<open>print2stderr\<close> of bytes; without a length the string's is taken. \<open>write\<close>, a parameter, returns
  how many it wrote.
\<close>

definition write_err :: "(string \<Rightarrow> int) \<Rightarrow> string \<Rightarrow> unit crash_prog" where
  "write_err wr s =
     (if wr s \<le> 0 then raise (Exits_now 1) else event (ToStderr (take (nat (wr s)) s)))"

definition print2stderr :: "(string \<Rightarrow> int) \<Rightarrow> nat \<Rightarrow> unit crash_prog" where
  "print2stderr wr msg = andThen (load_str msg) (write_err wr)"


section \<open>Facts about memory\<close>

text \<open>\<open>holds m p s\<close>: a string \<open>s\<close> with its terminator is in memory at \<open>p\<close>.\<close>

definition holds :: "string \<Rightarrow> nat \<Rightarrow> string \<Rightarrow> bool" where
  "holds m p s \<longleftrightarrow> NUL \<notin> set s \<and> (\<exists>a b. m = a @ s @ NUL # b \<and> length a = p)"

lemma length_overwrite [simp]: "p + length s \<le> length m \<Longrightarrow> length (overwrite m p s) = length m"
  by (simp add: overwrite_def)

lemma overwrite_append: "overwrite (a @ s @ b) (length a) t = a @ t @ drop (length t) (s @ b)"
  by (simp add: overwrite_def)

lemma nth_overwrite:
  assumes "p + length s \<le> length m" and "i < length m"
  shows "overwrite m p s ! i = (if p \<le> i \<and> i < p + length s then s ! (i - p) else m ! i)"
  using assms by (auto simp: overwrite_def nth_append nth_drop min_def)

lemma overwrite_twice:
  "q + length s + length t \<le> length m \<Longrightarrow> overwrite (overwrite m (q + length s) t) q s = overwrite m q (s @ t)"
  by (simp add: overwrite_def min_def add.assoc)

lemma holds_nth:
  "holds m p s \<longleftrightarrow> NUL \<notin> set s \<and> p + length s < length m \<and>
     (\<forall>i < length s. m ! (p + i) = s ! i) \<and> m ! (p + length s) = NUL"
  (is "?l \<longleftrightarrow> ?r")
proof
  assume ?l
  then show ?r by (auto simp: holds_def nth_append)
next
  assume r: ?r
  have "take (length s) (drop p m) = s" using r by (auto intro: nth_equalityI)
  moreover have "drop (p + length s) m = NUL # drop (Suc (p + length s)) m"
    using r Cons_nth_drop_Suc [of "p + length s" m] by auto
  ultimately have "m = take p m @ s @ NUL # drop (Suc (p + length s)) m"
    by (metis append_take_drop_id drop_drop add.commute)
  moreover have "length (take p m) = p" using r by auto
  ultimately show ?l using r unfolding holds_def by blast
qed

lemma holds_cstr: "holds m p s \<Longrightarrow> cstr m p = Some s"
  by (auto simp: holds_def cstr_def takeWhile_tail)

lemma holds_put [intro]: "p + length s < length m \<Longrightarrow> NUL \<notin> set s \<Longrightarrow> holds (overwrite m p (s @ [NUL])) p s"
  by (auto simp: holds_nth nth_overwrite nth_append)

lemma holds_put_end:
  "holds m p s \<Longrightarrow> p + length s + length t < length m \<Longrightarrow> NUL \<notin> set t \<Longrightarrow>
   holds (overwrite m (p + length s) (t @ [NUL])) p (s @ t)"
  by (auto simp: holds_nth nth_overwrite nth_append)

lemma holds_frame:
  "holds m p s \<Longrightarrow> q + length t \<le> length m \<Longrightarrow> q + length t \<le> p \<or> p + length s < q \<Longrightarrow>
   holds (overwrite m q t) p s"
  by (auto simp: holds_nth nth_overwrite)


section \<open>Numbers\<close>

lemma digit_char_not_NUL [simp]: "d < 16 \<Longrightarrow> digit_char d \<noteq> NUL"
  by (drule less16_cases) (auto simp: digit_char_def)

lemmas digit_char_not_NUL' [simp] = digit_char_not_NUL [symmetric]

lemma digits_in_not_NUL: "2 \<le> b \<Longrightarrow> b \<le> 16 \<Longrightarrow> NUL \<notin> set (digits_in b n)"
proof (induction b n rule: digits_in.induct)
  case (1 b n)
  show ?case
  proof (cases "n < b")
    case True
    then show ?thesis using 1(3) digit_char_not_NUL [of n] by (simp add: digits_in_small)
  next
    case False
    then have "n mod b < 16" using 1(2,3) by (metis less_le_trans mod_less_divisor zero_less_numeral order_less_le_trans)
    then show ?thesis
      using False 1 digit_char_not_NUL [of "n mod b"] by (simp add: digits_in_step)
  qed
qed

text \<open>A number below a power of the base has that many digits at most.\<close>

lemma length_digits_in: "2 \<le> b \<Longrightarrow> n < b ^ Suc k \<Longrightarrow> length (digits_in b n) \<le> Suc k"
proof (induction k arbitrary: n)
  case 0
  then show ?case by (simp add: digits_in_small)
next
  case (Suc k)
  show ?case
  proof (cases "n < b")
    case False
    have "n div b < b ^ Suc k" using Suc.prems by (simp add: div_less_iff_less_mult mult.commute)
    then show ?thesis using Suc.IH [of "n div b"] Suc.prems(1) False by (simp add: digits_in_step)
  qed (simp add: digits_in_small)
qed

text \<open>The digits written in front of what the loop is given.\<close>

fun digits0 :: "nat \<Rightarrow> nat \<Rightarrow> string" where
  "digits0 b n = (if n = 0 then [] else digits_in b n)"

declare digits0.simps [simp del]

lemma digits0_step: "2 \<le> b \<Longrightarrow> n \<noteq> 0 \<Longrightarrow> digits0 b n = digits0 b (n div b) @ [digit_char (n mod b)]"
  by (cases "n < b") (simp_all add: digits0.simps digits_in_small digits_in_step div_eq_0_iff)

lemma utoa_loop_writes:
  assumes "2 \<le> b" and "b \<le> 16"
  shows "unat val < b ^ i \<Longrightarrow> res + i < length (mem st) \<Longrightarrow>
    utoa_loop res b i val st =
      (Inr (i - length (digits0 b (unat val))),
       st\<lparr>mem := overwrite (mem st) (res + 1 + i - length (digits0 b (unat val))) (digits0 b (unat val))\<rparr>) \<and>
    length (digits0 b (unat val)) \<le> i"
proof (induction i arbitrary: val st)
  case 0
  then have "unat val = 0" by simp
  then show ?case using 0 by (simp add: digits0.simps overwrite_def)
next
  case (Suc i)
  show ?case
  proof (cases "val = 0")
    case True
    then show ?thesis using Suc.prems by (simp add: digits0.simps overwrite_def)
  next
    case False
    have b: "unat (of_nat b :: 64 word) = b"
      using assms by (simp add: unat_of_nat)
    have b': "uint (of_nat b :: 64 word) = int b" by (metis b uint_nat)
    let ?n = "unat val" and ?c = "digit_char (unat val mod b)"
    let ?ds = "digits0 b (?n div b)"
    have m: "uint (val mod of_nat b) = int (?n mod b)" "unat (val div of_nat b) = ?n div b"
      using b b' by (simp_all add: uint_mod unat_div zmod_int)
    have "?n mod b < 16" using assms by (metis less_le_trans mod_less_divisor zero_less_numeral order_less_le_trans)
    then have c: "digit_at (uint (val mod of_nat b)) s = (Inr ?c, s)" for s
      by (simp add: m digit_at_def nat_int)
    have n: "?n \<noteq> 0" using False by (simp add: unat_eq_zero)
    have "?n div b < b ^ i" using Suc.prems(1) assms by (simp add: div_less_iff_less_mult mult.commute)
    then have IH: "utoa_loop res b i (val div of_nat b) (st\<lparr>mem := overwrite (mem st) (res + Suc i) [?c]\<rparr>) =
        (Inr (i - length ?ds),
         st\<lparr>mem := overwrite (overwrite (mem st) (res + Suc i) [?c]) (res + 1 + i - length ?ds) ?ds\<rparr>)"
      "length ?ds \<le> i"
      using Suc.IH [of "val div of_nat b" "st\<lparr>mem := overwrite (mem st) (res + Suc i) [?c]\<rparr>"] Suc.prems(2)
      by (simp_all add: m)
    have "overwrite (overwrite (mem st) (res + Suc i) [?c]) (res + 1 + i - length ?ds) ?ds =
        overwrite (mem st) (res + 1 + i - length ?ds) (?ds @ [?c])"
      using overwrite_twice [of "res + 1 + i - length ?ds" ?ds "[?c]" "mem st"] IH(2) Suc.prems(2) by simp
    then show ?thesis
      using IH False Suc.prems(2) digits0_step [OF assms(1) n]
      by (simp add: andThen_def c put_def)
  qed
qed


text \<open>Memory that differs in one region at most.\<close>

definition same_outside :: "nat \<Rightarrow> nat \<Rightarrow> string \<Rightarrow> string \<Rightarrow> bool" where
  "same_outside p n m m' \<longleftrightarrow>
     length m' = length m \<and> (\<forall>i < length m. i < p \<or> p + n \<le> i \<longrightarrow> m' ! i = m ! i)"

lemma same_outside_overwrite:
  "p \<le> q \<Longrightarrow> q + length s \<le> p + n \<Longrightarrow> p + n \<le> length m \<Longrightarrow> same_outside p n m (overwrite m q s)"
  by (auto simp: same_outside_def nth_overwrite)

lemma same_outside_trans: "same_outside p n m m' \<Longrightarrow> same_outside p n m' m'' \<Longrightarrow> same_outside p n m m''"
  by (simp add: same_outside_def)

lemma same_outside_holds:
  "same_outside p n m m' \<Longrightarrow> holds m q s \<Longrightarrow> q + length s < p \<or> p + n \<le> q \<Longrightarrow> holds m' q s"
  by (auto simp: holds_nth same_outside_def)

lemma utoa_run:
  assumes "2 \<le> b" and "b \<le> 16" and "unat val < b ^ 30" and "p + 32 \<le> length (mem st)"
  obtains q m' where "utoa val p b st = (Inr q, st\<lparr>mem := m'\<rparr>)" and "holds m' q (digits_in b (unat val))"
    and "same_outside p 32 (mem st) m'" and "p \<le> q" and "q + length (digits_in b (unat val)) < p + 32"
proof (cases "val = 0")
  case True
  let ?m = "overwrite (overwrite (mem st) p ''0'') (p + 1) [NUL]"
  have "digits_in b (unat val) = ''0''" using True assms(1) by (simp add: digits_in_small digit_char_def)
  moreover have "utoa val p b st = (Inr p, st\<lparr>mem := ?m\<rparr>)"
    using True assms(4) by (simp add: utoa_def put_def andThen_def)
  moreover have "holds ?m p ''0''" using assms(4) by (simp add: holds_nth nth_overwrite)
  moreover have "same_outside p 32 (mem st) ?m"
    using assms(4) by (intro same_outside_trans [OF same_outside_overwrite same_outside_overwrite]) simp_all
  ultimately show ?thesis using that [of p ?m] by simp
next
  case False
  let ?ds = "digits0 b (unat val)" and ?m1 = "overwrite (mem st) (p + 31) [NUL]"
  let ?q = "p + 31 - length ?ds"
  let ?m2 = "overwrite ?m1 ?q ?ds"
  have ds: "digits_in b (unat val) = ?ds" using False by (simp add: digits0.simps unat_eq_zero)
  note loop = utoa_loop_writes [OF assms(1,2,3), of p "st\<lparr>mem := ?m1\<rparr>"]
  then have len: "length ?ds \<le> 30" using assms(4) by simp
  have "utoa val p b st = (Inr ?q, st\<lparr>mem := ?m2\<rparr>)"
  proof -
    have "p + 1 + 30 - length ?ds = ?q" "p + res_max_length - 1 = p + 31" "res_max_length - 2 = 30"
      "p + (30 - length ?ds) + 1 = ?q"
      using len by (simp_all add: res_max_length_def)
    then show ?thesis
      unfolding utoa_def using False assms(4) loop by (simp add: put_def andThen_def del: add_Suc_right)
  qed
  moreover have "?m2 = overwrite (mem st) ?q (?ds @ [NUL])"
    using overwrite_twice [of ?q ?ds "[NUL]" "mem st"] len assms(4) by simp
  moreover have "holds (overwrite (mem st) ?q (?ds @ [NUL])) ?q ?ds"
    using len assms(4) digits_in_not_NUL [OF assms(1,2), of "unat val"] by (intro holds_put) (simp_all add: ds)
  moreover have "same_outside p 32 (mem st) (overwrite (mem st) ?q (?ds @ [NUL]))"
    using len assms(4) by (intro same_outside_overwrite) simp_all
  ultimately show ?thesis using that [of ?q ?m2] len by (simp add: ds)
qed

lemma uint_of_int64: "0 \<le> v \<Longrightarrow> v < 2 ^ 31 \<Longrightarrow> uint (of_int v :: 64 word) = v"
  by (simp add: uint_word_of_int)

lemma of_int64_eq_0: "0 \<le> v \<Longrightarrow> v < 2 ^ 31 \<Longrightarrow> (of_int v :: 64 word) = 0 \<longleftrightarrow> v = 0"
  by (simp only: word_uint_eq_iff uint_of_int64 unsigned_0)

text \<open>A reader of numbers in a base: the value of the digits, if all are digits of that base.\<close>

definition hex_value :: "char \<Rightarrow> nat option" where
  "hex_value c = map_of (zip ''0123456789ABCDEF'' [0..<16]) c"

fun read_number :: "nat \<Rightarrow> nat \<Rightarrow> string \<Rightarrow> nat option" where
  "read_number b acc [] = Some acc"
| "read_number b acc (c # cs) =
     (case hex_value c of
        None \<Rightarrow> None
      | Some d \<Rightarrow> if d < b then read_number b (b * acc + d) cs else None)"

lemma hex_value_digit_char [simp]: "d < 16 \<Longrightarrow> hex_value (digit_char d) = Some d"
  unfolding hex_value_def digit_char_def by (subst map_of_zip_nth) simp_all

lemma read_number_append:
  "read_number b acc (xs @ ys) = (case read_number b acc xs of None \<Rightarrow> None | Some a \<Rightarrow> read_number b a ys)"
  by (induction xs arbitrary: acc) (auto split: option.split)

lemma read_digits_in: "2 \<le> b \<Longrightarrow> b \<le> 16 \<Longrightarrow> read_number b 0 (digits_in b n) = Some n"
proof (induction b n rule: digits_in.induct)
  case (1 b n)
  show ?case
  proof (cases "n < b")
    case False
    have m: "n mod b < b" using 1(2) by simp
    then have h: "hex_value (digit_char (n mod b)) = Some (n mod b)" using 1(3) by simp
    show ?thesis using False 1 m by (simp add: digits_in_step read_number_append h)
  qed (use 1 in \<open>simp add: digits_in_small\<close>)
qed

lemma ptoa_run:
  assumes "p + 64 \<le> length (mem st)"
  obtains m' where "ptoa val p st = (Inr p, st\<lparr>mem := m'\<rparr>)" and "holds m' p (''0x'' @ digits_in 16 (unat val))"
    and "same_outside p 64 (mem st) m'"
proof -
  let ?ds = "digits_in 16 (unat val)"
  have "unat val < 2 ^ 64" using unsigned_less [where ?'a = nat, of val] by simp
  then have "unat val < 16 ^ Suc 15" by simp
  then have len: "length ?ds \<le> 16" using length_digits_in [of 16 "unat val" 15] by simp
  have v: "unat val < 16 ^ 30" using \<open>unat val < 2 ^ 64\<close> by simp
  obtain q m1 where u: "utoa val (p + 32) 16 st = (Inr q, st\<lparr>mem := m1\<rparr>)" "holds m1 q ?ds"
    "same_outside (p + 32) 32 (mem st) m1" "p + 32 \<le> q"
    by (rule utoa_run [of 16 val "p + 32" st]) (use v assms in simp_all)
  then have l1: "length m1 = length (mem st)" by (simp add: same_outside_def)
  let ?m2 = "overwrite m1 (p + 2) (?ds @ [NUL])"
  let ?m3 = "overwrite (overwrite ?m2 p ''0'') (p + 1) ''x''"
  have "\<not> overlaps (At q) (p + 2) (Suc (length ?ds))" using u(4) len by (simp add: overlaps_def)
  then have "ptoa val p st = (Inr p, st\<lparr>mem := ?m3\<rparr>)"
    using u(1,2) assms l1 len by (simp add: ptoa_def strcpy_def source_str_def load_str_def holds_cstr andThen_def put_def)
  moreover have "NUL \<notin> set ?ds" by (rule digits_in_not_NUL) simp_all
  then have "holds ?m2 (p + 2) ?ds" using assms l1 len by (intro holds_put) simp_all
  then have "holds ?m3 p (''0x'' @ ?ds)"
    using assms l1 len by (auto simp: holds_nth nth_overwrite nth_append nth_Cons' numeral_2_eq_2)
  moreover have "same_outside p 64 m1 ?m2" "same_outside p 64 ?m2 (overwrite ?m2 p ''0'')"
    "same_outside p 64 (overwrite ?m2 p ''0'') ?m3"
    using assms l1 len by (intro same_outside_overwrite; simp)+
  then have "same_outside p 64 m1 ?m3" by (blast intro: same_outside_trans)
  then have "same_outside p 64 (mem st) ?m3" using u(3) by (auto simp: same_outside_def)
  ultimately show thesis by (rule that)
qed

text \<open>On numbers that are not negative \<open>itoa\<close> does what \<open>utoa\<close> does.\<close>

lemma itoa_loop_utoa_loop:
  assumes "0 < b" and "b < 2 ^ 31"
  shows "0 \<le> val \<Longrightarrow> val < 2 ^ 31 \<Longrightarrow> itoa_loop res (int b) i val = utoa_loop res b i (of_int val)"
proof (induction i arbitrary: val)
  case (Suc i)
  note word = uint_of_int64
  have b: "uint (of_nat b :: 64 word) = int b"
    using word [of "int b"] assms(2) by simp
  have d: "val smod int b = val mod int b" "val sdiv int b = val div int b"
    using Suc.prems assms(1)
    by (cases "val = 0"; simp add: signed_modulo_int_def signed_divide_int_def minus_div_mult_eq_mod)+
  have "0 \<le> val div int b" "val div int b \<le> val"
    using Suc.prems assms(1) zdiv_mono2 [of val 1 "int b"] by (simp_all add: pos_imp_zdiv_nonneg_iff)
  then have bound: "0 \<le> val div int b" "val div int b < 2 ^ 31" using Suc.prems by simp_all
  have "(of_int val :: 64 word) div of_nat b = of_int (val div int b)"
    by (simp only: word_uint_eq_iff uint_div word [OF Suc.prems] word [OF bound] b)
  moreover have "uint ((of_int val :: 64 word) mod of_nat b) = val mod int b"
    by (simp only: uint_mod word [OF Suc.prems] b)
  moreover have "(of_int val :: 64 word) = 0 \<longleftrightarrow> val = 0"
    by (rule of_int64_eq_0 [OF Suc.prems])
  ultimately show ?case
    using Suc.IH [OF bound] by (cases "val = 0") (simp_all add: d)
qed simp

lemma itoa_utoa: "0 \<le> val \<Longrightarrow> val < 2 ^ 31 \<Longrightarrow> itoa val p 10 = utoa (of_int val) p 10"
  using itoa_loop_utoa_loop [of 10 val p] of_int64_eq_0 [of val]
  by (simp add: itoa_def utoa_def)

lemma itoa_loop_negative:
  assumes "2 \<le> b"
  shows "val < 0 \<Longrightarrow> - val < b ^ i \<Longrightarrow> \<exists>st'. itoa_loop res b i val st = (Inl Fault, st')"
proof (induction i arbitrary: val st)
  case (Suc i)
  have d: "val smod b = - ((- val) mod b)" "val sdiv b = - ((- val) div b)"
    using Suc.prems(1) assms by (simp_all add: signed_modulo_int_def signed_divide_int_def minus_div_mult_eq_mod [symmetric])
  have pos: "0 \<le> (- val) mod b" using assms by simp
  show ?case
  proof (cases "(- val) mod b = 0")
    case True
    then have eq: "- val = b * ((- val) div b)" by (metis mult_div_mod_eq add.right_neutral)
    have q: "0 < (- val) div b" using eq Suc.prems(1) assms by (smt (verit) mult_nonneg_nonpos)
    have "b * ((- val) div b) < b * b ^ i" using Suc.prems(2) eq by simp
    then have "(- val) div b < b ^ i" using assms by (simp only: mult_less_cancel_left_pos)
    then have "\<exists>st'. itoa_loop res b i (- ((- val) div b)) st = (Inl Fault, st')" for st
      using Suc.IH [of "- ((- val) div b)" st] q by simp
    then show ?thesis
      using Suc.prems(1) True by (simp add: d andThen_def digit_at_def put_def)
  next
    case False
    then show ?thesis using Suc.prems(1) pos by (simp add: d andThen_def digit_at_def)
  qed
qed simp

lemma itoa_negative:
  assumes "- (2 ^ 31) \<le> val" and "val < 0"
  shows "\<exists>st'. itoa val p 10 st = (Inl Fault, st')"
proof -
  have "- val < 10 ^ 30" using assms(1) by simp
  then obtain st' where "itoa_loop p 10 30 val (st\<lparr>mem := overwrite (mem st) (p + 31) [NUL]\<rparr>) = (Inl Fault, st')"
    using itoa_loop_negative [of 10 val 30] assms(2) by fastforce
  moreover have "p + res_max_length - 1 = p + 31" "res_max_length - 2 = 30" by (simp_all add: res_max_length_def)
  ultimately show ?thesis
    unfolding itoa_def using assms(2)
    by (cases "p + 32 \<le> length (mem st)") (simp_all add: put_def andThen_def del: add_Suc_right)
qed


section \<open>Triples\<close>

text \<open>\<open>triple P m Q\<close>: from a state in \<open>P\<close>, \<open>m\<close> returns, in \<open>Q\<close>; it neither faults nor ends the process.\<close>

named_theorems triple_intros "rules for the steps that put a text together"

definition triple :: "(crash_state \<Rightarrow> bool) \<Rightarrow> 'a crash_prog \<Rightarrow> ('a \<Rightarrow> crash_state \<Rightarrow> bool) \<Rightarrow> bool" where
  "triple P m Q \<longleftrightarrow> (\<forall>st. P st \<longrightarrow> (\<exists>x st'. m st = (Inr x, st') \<and> Q x st'))"

lemma triple_seq: "triple P m (\<lambda>_. R) \<Longrightarrow> triple R n Q \<Longrightarrow> triple P (andThen m (\<lambda>_. n)) Q"
  by (fastforce simp: triple_def)

text \<open>\<open>text_at N p s ev\<close>: the memory has \<open>N\<close> bytes, at \<open>p\<close> is the string \<open>s\<close>, \<open>ev\<close> has happened.\<close>

definition text_at :: "nat \<Rightarrow> nat \<Rightarrow> string \<Rightarrow> crash_event list \<Rightarrow> crash_state \<Rightarrow> bool" where
  "text_at N p s ev st \<longleftrightarrow> length (mem st) = N \<and> holds (mem st) p s \<and> events st = ev"

lemma load_str_run: "holds (mem st) p s \<Longrightarrow> load_str p st = (Inr s, st)"
  by (simp add: load_str_def holds_cstr)

lemma strcat_run:
  assumes "holds (mem st) p s" and "source_str src st = (Inr t, st)" and "NUL \<notin> set t"
    and "p + length s + length t < length (mem st)" and "\<not> overlaps src (p + length s) (Suc (length t))"
  shows "strcat p src st = (Inr (), st\<lparr>mem := overwrite (mem st) (p + length s) (t @ [NUL])\<rparr>)"
  using assms by (simp add: strcat_def strcpy_def load_str_run [OF assms(1)] andThen_def put_def)

lemma triple_strcpy_lit [triple_intros]:
  "NUL \<notin> set t \<Longrightarrow> p + length t < N \<Longrightarrow>
   triple (\<lambda>st. length (mem st) = N \<and> events st = ev) (strcpy p (Lit t)) (\<lambda>_. text_at N p t ev)"
  by (auto simp: triple_def strcpy_def source_str_def overlaps_def andThen_def put_def text_at_def)

lemma triple_strcat_lit [triple_intros]:
  "NUL \<notin> set t \<Longrightarrow> p + length s + length t < N \<Longrightarrow>
   triple (text_at N p s ev) (strcat p (Lit t)) (\<lambda>_. text_at N p (s @ t) ev)"
  by (auto simp: triple_def text_at_def strcat_run source_str_def overlaps_def intro: holds_put_end)

lemma triple_only_if [triple_intros]:
  "(b \<Longrightarrow> triple (text_at N p s ev) m (\<lambda>_. text_at N p (s @ t) ev)) \<Longrightarrow>
   triple (text_at N p s ev) (only_if b m) (\<lambda>_. text_at N p (s @ (if b then t else [])) ev)"
  by (simp add: only_if_def) (simp add: triple_def)

lemma triple_utoa:
  assumes "p + length s + length (digits_in 10 (unat v)) < p + 128" and "p + 160 \<le> N"
  shows "triple (text_at N p s ev) (andThen (utoa v (p + 128) 10) (\<lambda>q. strcat p (At q)))
    (\<lambda>_. text_at N p (s @ digits_in 10 (unat v)) ev)"
  unfolding triple_def
proof (intro allI impI)
  fix st assume st: "text_at N p s ev st"
  let ?ds = "digits_in 10 (unat v)"
  have "unat v < 2 ^ 64" using unsigned_less [where ?'a = nat, of v] by simp
  then have v: "unat v < 10 ^ 30" by simp
  have N: "p + 128 + 32 \<le> length (mem st)" using st assms(2) by (simp add: text_at_def)
  obtain q m' where q: "utoa v (p + 128) 10 st = (Inr q, st\<lparr>mem := m'\<rparr>)" "holds m' q ?ds"
    "same_outside (p + 128) 32 (mem st) m'" "p + 128 \<le> q"
    by (rule utoa_run [OF _ _ v N]) simp_all
  have h: "holds m' p s" and len: "length m' = N"
    using same_outside_holds [OF q(3), of p s] st assms(1) q(3) by (auto simp: text_at_def same_outside_def)
  have cat: "strcat p (At q) (st\<lparr>mem := m'\<rparr>) =
      (Inr (), st\<lparr>mem := overwrite m' (p + length s) (?ds @ [NUL])\<rparr>)"
    using strcat_run [of "st\<lparr>mem := m'\<rparr>" p s "At q" ?ds] h len q(2,4) assms digits_in_not_NUL [of 10 "unat v"]
    by (simp add: source_str_def load_str_run overlaps_def)
  moreover have "holds (overwrite m' (p + length s) (?ds @ [NUL])) p (s @ ?ds)"
    using holds_put_end [OF h, of ?ds] len assms digits_in_not_NUL [of 10 "unat v"] by simp
  ultimately show "\<exists>x st'. andThen (utoa v (p + 128) 10) (\<lambda>q. strcat p (At q)) st = (Inr x, st') \<and>
      text_at N p (s @ ?ds) ev st'"
    using q(1) st len assms by (simp add: text_at_def)
qed

lemma triple_itoa:
  assumes "0 \<le> v" and "v < 2 ^ 31"
    and "length s + length (to_string_int v) < 128" and "p + 160 \<le> N"
  shows "triple (text_at N p s ev) (andThen (itoa v (p + 128) 10) (\<lambda>q. strcat p (At q)))
    (\<lambda>_. text_at N p (s @ to_string_int v) ev)"
proof -
  have "unat (of_int v :: 64 word) = nat v"
    using uint_of_int64 [OF assms(1,2)] by (metis nat_uint_eq)
  then have "to_string_int v = digits_in 10 (unat (of_int v :: 64 word))"
    using assms(1) by (simp add: to_string_int_def)
  then show ?thesis using triple_utoa [of p s "of_int v"] assms by (simp add: itoa_utoa)
qed

end
