(* ===== verification/Death_Handler.thy ===== *)
theory Death_Handler
  imports C_Memory
begin

text \<open>
  \<open>server/death_handler.cpp\<close>: the handler of the signals that end the process. It forks; the parent
  stops and then ends, the child prints a message and the stack in the memory allocated before. The
  static members are one record; the operating system, the programs the child runs and the dynamic
  linker are the fields of \<open>crash_env\<close>, a parameter.
\<close>

section \<open>The static members\<close>

datatype death_memory = NoMemory | Allocated string | Freed

record death_handler =
  s_generate_core_dump :: bool
  s_cleanup :: bool
  s_quick_exit :: bool
  s_frames_count :: int
  s_cut_common_path_root :: bool
  s_cut_relative_paths :: bool
  s_append_pid :: bool
  s_color_output :: bool
  s_thread_safe :: bool
  s_memory :: death_memory

definition kNeededMemory :: nat where
  "kNeededMemory = 12288"

definition static_members :: death_handler where
  "static_members =
     \<lparr>s_generate_core_dump = True, s_cleanup = True, s_quick_exit = False, s_frames_count = 16,
      s_cut_common_path_root = True, s_cut_relative_paths = True, s_append_pid = False,
      s_color_output = True, s_thread_safe = True, s_memory = NoMemory\<rparr>"

text \<open>The actions of the signals, as far as the class sets them.\<close>

record crash_process =
  statics :: death_handler
  handled :: "crash_signal list"

text \<open>The new memory holds any bytes.\<close>

definition construct :: "string \<Rightarrow> crash_process \<Rightarrow> crash_process" where
  "construct fresh p =
     (let p = (if s_memory (statics p) = NoMemory then p\<lparr>statics := statics p\<lparr>s_memory := Allocated fresh\<rparr>\<rparr> else p)
      in p\<lparr>handled := [SIGSEGV, SIGABRT, SIGFPE]\<rparr>)"

definition destruct :: "crash_process \<Rightarrow> crash_end + crash_process" where
  "destruct p =
     (let p = p\<lparr>handled := filter (\<lambda>s. s \<notin> {SIGSEGV, SIGABRT, SIGFPE}) (handled p)\<rparr>
      in case s_memory (statics p) of
           NoMemory \<Rightarrow> Inr p
         | Allocated _ \<Rightarrow> Inr (p\<lparr>statics := statics p\<lparr>s_memory := Freed\<rparr>\<rparr>)
         | Freed \<Rightarrow> Inl Fault)"

text \<open>What the handler can use: nothing of memory that was freed.\<close>

definition usable_memory :: "death_handler \<Rightarrow> string" where
  "usable_memory d = (case s_memory d of Allocated m \<Rightarrow> m | _ \<Rightarrow> [])"

definition generate_core_dump :: "death_handler \<Rightarrow> bool" where
  "generate_core_dump d = s_generate_core_dump d"

definition set_generate_core_dump :: "bool \<Rightarrow> death_handler \<Rightarrow> death_handler" where
  "set_generate_core_dump val d = d\<lparr>s_generate_core_dump := val\<rparr>"

definition cleanup :: "death_handler \<Rightarrow> bool" where
  "cleanup d = s_cleanup d"

definition set_cleanup :: "bool \<Rightarrow> death_handler \<Rightarrow> death_handler" where
  "set_cleanup val d = d\<lparr>s_cleanup := val\<rparr>"

definition quick_exit :: "death_handler \<Rightarrow> bool" where
  "quick_exit d = s_quick_exit d"

definition set_quick_exit :: "bool \<Rightarrow> death_handler \<Rightarrow> death_handler" where
  "set_quick_exit val d = d\<lparr>s_quick_exit := val\<rparr>"

definition frames_count :: "death_handler \<Rightarrow> int" where
  "frames_count d = s_frames_count d"

definition set_frames_count :: "int \<Rightarrow> death_handler \<Rightarrow> crash_end + death_handler" where
  "set_frames_count val d = (if 0 < val \<and> val \<le> 100 then Inr (d\<lparr>s_frames_count := val\<rparr>) else Inl Aborts)"

definition cut_common_path_root :: "death_handler \<Rightarrow> bool" where
  "cut_common_path_root d = s_cut_common_path_root d"

definition set_cut_common_path_root :: "bool \<Rightarrow> death_handler \<Rightarrow> death_handler" where
  "set_cut_common_path_root val d = d\<lparr>s_cut_common_path_root := val\<rparr>"

definition cut_relative_paths :: "death_handler \<Rightarrow> bool" where
  "cut_relative_paths d = s_cut_relative_paths d"

definition set_cut_relative_paths :: "bool \<Rightarrow> death_handler \<Rightarrow> death_handler" where
  "set_cut_relative_paths val d = d\<lparr>s_cut_relative_paths := val\<rparr>"

definition append_pid :: "death_handler \<Rightarrow> bool" where
  "append_pid d = s_append_pid d"

definition set_append_pid :: "bool \<Rightarrow> death_handler \<Rightarrow> death_handler" where
  "set_append_pid val d = d\<lparr>s_append_pid := val\<rparr>"

definition color_output :: "death_handler \<Rightarrow> bool" where
  "color_output d = s_color_output d"

definition set_color_output :: "bool \<Rightarrow> death_handler \<Rightarrow> death_handler" where
  "set_color_output val d = d\<lparr>s_color_output := val\<rparr>"

definition thread_safe :: "death_handler \<Rightarrow> bool" where
  "thread_safe d = s_thread_safe d"

definition set_thread_safe :: "bool \<Rightarrow> death_handler \<Rightarrow> death_handler" where
  "set_thread_safe val d = d\<lparr>s_thread_safe := val\<rparr>"


section \<open>The environment\<close>

record crash_env =
  os_getpid :: int
  os_getppid :: int
  os_self :: "64 word" \<comment> \<open>\<open>pthread_self\<close>\<close>
  os_dup2 :: bool \<comment> \<open>success\<close>
  os_write :: "string \<Rightarrow> int" \<comment> \<open>of bytes to standard error\<close>
  os_backtrace :: "nat \<Rightarrow> 64 word list" \<comment> \<open>of at most so many addresses\<close>
  os_pc :: "64 word" \<comment> \<open>the program counter in the context\<close>
  os_exe :: "string option" \<comment> \<open>where \<open>/proc/self/exe\<close> leads\<close>
  os_cwd :: "string option"
  os_dladdr :: "64 word \<Rightarrow> (string \<times> 64 word) option" \<comment> \<open>file name and base\<close>
  os_pipe :: bool
  os_run :: "string list \<Rightarrow> string option" \<comment> \<open>what one \<open>read\<close> of a program's output returns\<close>
  os_wait :: bool
  os_access :: "string \<Rightarrow> bool"

text \<open>The parent is woken up before the child gives up.\<close>

definition safe_abort :: "crash_env \<Rightarrow> 'a crash_prog" where
  "safe_abort A =
     andThen (event (Kills (os_getppid A) SIGCONT)) (\<lambda>_.
     andThen (event (Default_action SIGABRT)) (\<lambda>_. raise Aborts))"

section \<open>Running programs\<close>

definition line_max_length :: nat where
  "line_max_length = 4096"

definition ESC :: "string \<Rightarrow> string" where
  "ESC s = CHR 0x1B # s"

text \<open>
  \<open>addr2line\<close>: the pointer to the line and the memory after it. What \<open>read\<close> returns is put in
  place, a failed one has the length \<open>-1\<close>.
\<close>

definition addr2line :: "crash_env \<Rightarrow> c_source \<Rightarrow> 64 word \<Rightarrow> bool \<Rightarrow> nat \<Rightarrow> (nat \<times> nat) crash_prog" where
  "addr2line A img addr color memory =
     andThen (if os_pipe A then ret () else safe_abort A) (\<lambda>_.
     andThen (source_str img) (\<lambda>imageText.
     andThen (reads (\<lambda>st. fst (andThen (ptoa addr memory) load_str st))) (\<lambda>child.
     let output = (case child of Inl _ \<Rightarrow> Some []
           | Inr argument \<Rightarrow> os_run A [''addr2line'', argument, ''-f'', ''-C'', ''-e'', imageText]);
         line = memory;
         memory = memory + line_max_length;
         len = (case output of None \<Rightarrow> -1 | Some out \<Rightarrow> int (length (take line_max_length out)))
     in andThen (put line (case output of None \<Rightarrow> [] | Some out \<Rightarrow> take line_max_length out)) (\<lambda>_.
        andThen (if len = 0 then safe_abort A else ret ()) (\<lambda>_.
        andThen (put_int (int line + len) [NUL]) (\<lambda>_.
        andThen (if os_wait A then ret () else safe_abort A) (\<lambda>_.
        andThen (peek line) (\<lambda>first.
        andThen
          (if first = CHR ''?'' then
             andThen (ptoa addr memory) (\<lambda>straddr.
             andThen (only_if color (strcpy line (Lit (ESC ''[32;1m'')))) (\<lambda>_.
             andThen (strcat line (At straddr)) (\<lambda>_.
             andThen (only_if color (strcat line (Lit (ESC ''[0m'')))) (\<lambda>_.
             andThen (strcat line (Lit '' at '')) (\<lambda>_.
             andThen (strcat line img) (\<lambda>_.
             strcat line (Lit '' '')))))))
           else
             andThen (strstr line [CHR 0x0A]) (\<lambda>end_pos.
             case end_pos of None \<Rightarrow> raise Fault
             | Some e \<Rightarrow>
                 andThen (peek (e + 1)) (\<lambda>second.
                 only_if (second = CHR ''?'')
                   (andThen (ptoa addr memory) (\<lambda>straddr.
                    andThen (strcpy (e + 1) img) (\<lambda>_.
                    andThen (strcat line (Lit '':'')) (\<lambda>_.
                    andThen (strcat line (At straddr)) (\<lambda>_.
                    strcat line (Lit [CHR 0x0A]))))))))) (\<lambda>_.
        ret (line, memory))))))))))"

definition nonStripped :: "crash_env \<Rightarrow> string \<Rightarrow> string crash_prog" where
  "nonStripped A img =
     andThen (if os_pipe A then ret () else safe_abort A) (\<lambda>_.
     case os_run A [''file'', ''-L'', img] of
       None \<Rightarrow> raise Fault \<comment> \<open>the byte before the array is written\<close>
     | Some out \<Rightarrow>
         let l = take line_max_length out
         in if l = [] then safe_abort A
            else if length l = line_max_length then raise Fault \<comment> \<open>and here the byte after it\<close>
            else andThen (if os_wait A then ret () else safe_abort A) (\<lambda>_.
              let line = takeWhile (\<lambda>c. c \<noteq> NUL) l
              in if find_sub ''not stripped'' line \<noteq> None then ret img
                 else
                   case find_sub ''BuildID[sha1]='' line of None \<Rightarrow> ret img
                   | Some position \<Rightarrow>
                       let line = drop (position + length ''BuildID[sha1]='') line
                       in case find_sub '','' line of None \<Rightarrow> ret img
                          | Some position \<Rightarrow>
                              let line = take position line
                              in if length line < 2 then raise Terminates
                                 else
                                   let dir = ''/usr/lib/debug/.build-id/'' @ take 2 line;
                                       dbg = dir @ ''/'' @ drop 2 line @ ''.debug''
                                   in ret (if os_access A dbg then dbg else img)))"

text \<open>The replacement of \<open>malloc\<close> while the stack is unwound.\<close>

definition MallocHook :: "crash_env \<Rightarrow> nat \<Rightarrow> nat crash_prog" where
  "MallocHook A sz =
     andThen
       (only_if (512 < sz)
          (andThen (write_err (os_write A)
              (''malloc() replacement function should not return a memory block larger than 512 bytes'' @ [CHR 0x0A, NUL])) (\<lambda>_.
           raise (Exits_now 1)))) (\<lambda>_.
     ret (kNeededMemory - 512))"


section \<open>The handler\<close>

fun signal_number :: "crash_signal \<Rightarrow> int" where
  "signal_number SIGSEGV = 11"
| "signal_number SIGABRT = 6"
| "signal_number SIGFPE = 8"
| "signal_number SIGCONT = 18"
| "signal_number SIGSTOP = 19"
| "signal_number (OtherSignal n) = n"

text \<open>The process that got the signal, after \<open>fork\<close>.\<close>

definition parent_branch :: "crash_env \<Rightarrow> death_handler \<Rightarrow> int \<Rightarrow> unit crash_prog" where
  "parent_branch A d forkedPid =
     andThen
       (if s_thread_safe d then
          andThen (event (Kills (os_getpid A) SIGSTOP)) (\<lambda>_. event (Waits forkedPid False))
        else event (Waits forkedPid True)) (\<lambda>_.
     if s_quick_exit d then raise (Quick_exits 1)
     else if s_generate_core_dump d then andThen (event (Default_action SIGABRT)) (\<lambda>_. raise Aborts)
     else if s_cleanup d then raise (Exits 1) else raise (Exits_now 1))"

text \<open>The first line the child prints; the numbers are written behind it.\<close>

definition msg_max_length :: nat where
  "msg_max_length = 128"

definition signal_message :: "crash_env \<Rightarrow> death_handler \<Rightarrow> int \<Rightarrow> nat \<Rightarrow> unit crash_prog" where
  "signal_message A d sig msg =
     andThen (if s_color_output d then strcpy msg (Lit (ESC ''[31;1m'')) else put msg [NUL]) (\<lambda>_.
     andThen
       (if sig = signal_number SIGSEGV then strcat msg (Lit ''Segmentation fault'')
        else if sig = signal_number SIGABRT then strcat msg (Lit ''Aborted'')
        else if sig = signal_number SIGFPE then strcat msg (Lit ''Floating point exception'')
        else
          andThen (strcat msg (Lit ''Caught signal '')) (\<lambda>_.
          andThen (itoa sig (msg + msg_max_length) 10) (\<lambda>q. strcat msg (At q)))) (\<lambda>_.
     andThen (only_if (s_color_output d) (strcat msg (Lit (ESC ''[0m'')))) (\<lambda>_.
     andThen (strcat msg (Lit '' (thread '')) (\<lambda>_.
     andThen (only_if (s_color_output d) (strcat msg (Lit (ESC ''[33;1m'')))) (\<lambda>_.
     andThen (andThen (utoa (os_self A) (msg + msg_max_length) 10) (\<lambda>q. strcat msg (At q))) (\<lambda>_.
     andThen (only_if (s_color_output d) (strcat msg (Lit (ESC ''[0m'')))) (\<lambda>_.
     andThen (strcat msg (Lit '', pid '')) (\<lambda>_.
     andThen (only_if (s_color_output d) (strcat msg (Lit (ESC ''[33;1m'')))) (\<lambda>_.
     andThen (andThen (itoa (os_getppid A) (msg + msg_max_length) 10) (\<lambda>q. strcat msg (At q))) (\<lambda>_.
     andThen (only_if (s_color_output d) (strcat msg (Lit (ESC ''[0m'')))) (\<lambda>_.
     strcat msg (Lit '')''))))))))))))"

text \<open>Addresses in memory, eight bytes each, the lowest first.\<close>

definition word_bytes :: "64 word \<Rightarrow> string" where
  "word_bytes w = map (\<lambda>i. char_of (unat (drop_bit (8 * i) w))) [0..<8]"

primrec bytes_word :: "string \<Rightarrow> 64 word" where
  "bytes_word [] = 0"
| "bytes_word (c # cs) = of_char c + 256 * bytes_word cs"

definition peek_word :: "nat \<Rightarrow> 64 word crash_prog" where
  "peek_word p st =
     (if p + 8 \<le> length (mem st) then (Inr (bytes_word (take 8 (drop p (mem st)))), st) else (Inl Fault, st))"

text \<open>The line of the function name, in brackets.\<close>

definition function_line :: "crash_env \<Rightarrow> death_handler \<Rightarrow> nat \<Rightarrow> nat \<Rightarrow> unit crash_prog" where
  "function_line A d line msg =
     andThen (if s_color_output d then strcpy msg (Lit (ESC ''[34;1m'')) else put msg [NUL]) (\<lambda>_.
     andThen (strcat msg (Lit ''['')) (\<lambda>_.
     andThen (strcat msg (At line)) (\<lambda>_.
     andThen (strcat msg (Lit '']'')) (\<lambda>_.
     andThen
       (if s_append_pid d then
          andThen (only_if (s_color_output d) (strcat msg (Lit (ESC ''[0m'' @ ESC ''[33;1m'')))) (\<lambda>_.
          andThen (strcat msg (Lit '' (''))  (\<lambda>_.
          andThen (andThen (itoa (os_getppid A) (msg + 512) 10) (\<lambda>q. strcat msg (At q))) (\<lambda>_.
          andThen (strcat msg (Lit '')'')) (\<lambda>_.
          andThen (only_if (s_color_output d) (strcat msg (Lit (ESC ''[0m'')))) (\<lambda>_.
          strcat msg (Lit [CHR 0x0A]))))))
        else
          andThen (only_if (s_color_output d) (strcat msg (Lit (ESC ''[0m'')))) (\<lambda>_.
          strcat msg (Lit [CHR 0x0A]))) (\<lambda>_.
     print2stderr (os_write A) msg)))))"

text \<open>How far two strings agree; nothing stops the loop at their ends.\<close>

function common_length :: "string \<Rightarrow> nat \<Rightarrow> nat \<Rightarrow> nat \<Rightarrow> nat option" where
  "common_length m a b i =
     (if a + i < length m \<and> b + i < length m then
        if m ! (a + i) = m ! (b + i) then common_length m a b (Suc i) else Some i
      else None)"
  by pat_completeness auto
termination by (relation "measure (\<lambda>(m, a, b, i). length m - i)") auto

declare common_length.simps [simp del]

text \<open>Back to the last slash before a position, which may be before the line.\<close>

primrec back_to_slash :: "string \<Rightarrow> nat \<Rightarrow> nat option" where
  "back_to_slash m 0 = None"
| "back_to_slash m (Suc p) = (if p < length m \<and> m ! p = CHR ''/'' then Some (Suc p) else back_to_slash m p)"

definition cut_common_root :: "nat \<Rightarrow> nat \<Rightarrow> nat crash_prog" where
  "cut_common_root cwd line =
     andThen (reads mem) (\<lambda>m.
     case common_length m cwd line 0 of None \<Rightarrow> raise Fault
     | Some cpi \<Rightarrow>
         (case back_to_slash m (line + cpi) of None \<Rightarrow> raise Fault
          | Some p \<Rightarrow> ret (if line + 1 < p then p else line)))"

function skip_relative :: "string \<Rightarrow> nat" where
  "skip_relative s = (if prefix ''../'' s then 3 + skip_relative (drop 3 s) else 0)"
  by pat_completeness auto
termination by (relation "measure length") (auto simp: prefix_def)

declare skip_relative.simps [simp del]

definition cut_relative :: "nat \<Rightarrow> nat crash_prog" where
  "cut_relative line =
     andThen (load_str line) (\<lambda>s.
     case find_sub ''../'' s of None \<Rightarrow> ret line
     | Some k \<Rightarrow> ret (line + k + 3 + skip_relative (drop (k + 3) s)))"

text \<open>The last character of a string is overwritten; the empty string has none.\<close>

definition drop_last_char :: "nat \<Rightarrow> unit crash_prog" where
  "drop_last_char p =
     andThen (load_str p) (\<lambda>s. if s = [] then raise Fault else put (p + length s - 1) [NUL])"

definition mark_line_number :: "nat \<Rightarrow> nat \<Rightarrow> unit crash_prog" where
  "mark_line_number line memory =
     andThen (strstr line '':'') (\<lambda>number_pos.
     case number_pos of None \<Rightarrow> ret ()
     | Some n \<Rightarrow>
         andThen (strcpy memory (At n)) (\<lambda>_.
         andThen (drop_last_char memory) (\<lambda>_.
         andThen (strcpy n (Lit (ESC ''[32;1m''))) (\<lambda>_.
         andThen (strcat line (At memory)) (\<lambda>_.
         strcat line (Lit (ESC ''[0m'' @ [CHR 0x0A])))))))"

definition print_frame :: "crash_env \<Rightarrow> death_handler \<Rightarrow> nat \<Rightarrow> nat \<Rightarrow> nat \<Rightarrow> unit crash_prog" where
  "print_frame A d cwd line memory =
     andThen (strstr line [CHR 0x0A]) (\<lambda>function_name_end.
     andThen
       (case function_name_end of None \<Rightarrow> ret line
        | Some e \<Rightarrow>
            andThen (put e [NUL]) (\<lambda>_.
            andThen (function_line A d line memory) (\<lambda>_.
            let line = e + 1
            in andThen (if s_cut_common_path_root d then cut_common_root cwd line else ret line) (\<lambda>line.
               andThen (if s_cut_relative_paths d then cut_relative line else ret line) (\<lambda>line.
               andThen (only_if (s_color_output d) (mark_line_number line memory)) (\<lambda>_.
               ret line)))))) (\<lambda>line.
     andThen (drop_last_char line) (\<lambda>_.
     andThen
       (only_if (s_append_pid d)
          (andThen (strcat line (Lit '' '')) (\<lambda>_.
           andThen (only_if (s_color_output d) (strcat line (Lit (ESC ''[33;1m'')))) (\<lambda>_.
           andThen (strcat line (Lit ''('')) (\<lambda>_.
           andThen (andThen (itoa (os_getppid A) memory 10) (\<lambda>q. strcat line (At q))) (\<lambda>_.
           andThen (strcat line (Lit '')'')) (\<lambda>_.
           only_if (s_color_output d) (strcat line (Lit (ESC ''[0m'')))))))))) (\<lambda>_.
     andThen (strcat line (Lit [CHR 0x0A])) (\<lambda>_.
     print2stderr (os_write A) line)))))"


text \<open>One element of the trace: the program's own code, or a library's at an address in it.\<close>

definition frame_line :: "crash_env \<Rightarrow> death_handler \<Rightarrow> nat \<Rightarrow> 64 word \<Rightarrow> nat \<Rightarrow> (nat \<times> nat) crash_prog" where
  "frame_line A d name_buf addr memory =
     (case os_dladdr A addr of
        None \<Rightarrow> addr2line A (At name_buf) addr (s_color_output d) memory
      | Some (fname, fbase) \<Rightarrow>
          if take 1 fname \<noteq> ''/'' then addr2line A (At name_buf) addr (s_color_output d) memory
          else
            andThen (load_str name_buf) (\<lambda>exe.
            if exe = fname then addr2line A (At name_buf) addr (s_color_output d) memory
            else
              andThen (nonStripped A fname) (\<lambda>nm.
              addr2line A (Lit nm) (addr - fbase) (s_color_output d) memory)))"

primrec print_frames ::
  "crash_env \<Rightarrow> death_handler \<Rightarrow> nat \<Rightarrow> nat \<Rightarrow> nat \<Rightarrow> nat list \<Rightarrow> unit crash_prog" where
  "print_frames A d name_buf cwd prev_memory [] = ret ()"
| "print_frames A d name_buf cwd prev_memory (i # is) =
     andThen (peek_word (8 * i)) (\<lambda>addr.
     andThen (frame_line A d name_buf addr prev_memory) (\<lambda>(line, memory).
     andThen (print_frame A d cwd line memory) (\<lambda>_.
     print_frames A d name_buf cwd prev_memory is)))"

definition path_max_length :: nat where
  "path_max_length = 2048"

definition print_stack :: "crash_env \<Rightarrow> death_handler \<Rightarrow> unit crash_prog" where
  "print_stack A d =
     (let wanted = nat (s_frames_count d) + 2;
          trace = take wanted (os_backtrace A wanted);
          trace_size = length trace;
          name_buf = wanted * 8
      in andThen (put 0 (concat (map word_bytes trace))) (\<lambda>_.
         andThen (if trace_size \<le> 2 then safe_abort A else ret ()) (\<lambda>_.
         andThen (put 8 (word_bytes (os_pc A))) (\<lambda>_.
         case os_exe A of None \<Rightarrow> safe_abort A
         | Some exe \<Rightarrow>
             let exe = take (path_max_length - 1) exe
             in andThen (put name_buf exe) (\<lambda>_.
                andThen (if exe = [] then safe_abort A else ret ()) (\<lambda>_.
                andThen (put (name_buf + length exe) [NUL]) (\<lambda>_.
                let cwd = name_buf + length exe + 1
                in case os_cwd A of None \<Rightarrow> safe_abort A
                   | Some dir \<Rightarrow>
                       if path_max_length \<le> length dir then safe_abort A
                       else
                         andThen (put cwd (dir @ [NUL])) (\<lambda>_.
                         andThen (strcat cwd (Lit ''/'')) (\<lambda>_.
                         andThen (load_str cwd) (\<lambda>cwdText.
                         andThen (peek_word 16) (\<lambda>second.
                         andThen (peek_word 8) (\<lambda>first.
                         let stackOffset = (if second = first then 2 else 1)
                         in print_frames A d name_buf cwd (cwd + length cwdText + 1)
                              [stackOffset..<trace_size]))))))))))))"

text \<open>The child.\<close>

definition child_branch :: "crash_env \<Rightarrow> death_handler \<Rightarrow> int \<Rightarrow> unit crash_prog" where
  "child_branch A d sig =
     andThen
       (only_if (\<not> os_dup2 A)
          (write_err (os_write A) (''Failed to redirect stdout to stderr'' @ [CHR 0x0A]))) (\<lambda>_.
     andThen (signal_message A d sig 0) (\<lambda>_.
     andThen (print2stderr (os_write A) 0) (\<lambda>_.
     andThen (write_err (os_write A) (CHR 0x0A # ''Stack trace:'' @ [CHR 0x0A])) (\<lambda>_.
     andThen (print_stack A d) (\<lambda>_.
     andThen (write_err (os_write A) [NUL]) (\<lambda>_.
     andThen (only_if (s_thread_safe d) (event (Kills (os_getppid A) SIGCONT))) (\<lambda>_.
     raise (Exits_now 0))))))))"

definition SignalHandler :: "crash_env \<Rightarrow> death_handler \<Rightarrow> int \<Rightarrow> int \<Rightarrow> crash_end \<times> crash_event list" where
  "SignalHandler A d sig forkedPid =
     (case (if forkedPid \<noteq> 0 then parent_branch A d forkedPid else child_branch A d sig)
        \<lparr>mem = usable_memory d, events = []\<rparr> of
        (Inl e, st) \<Rightarrow> (e, events st)
      | (Inr _, st) \<Rightarrow> (Terminates, events st))"


section \<open>The message\<close>

definition in_color :: "bool \<Rightarrow> string \<Rightarrow> string" where
  "in_color color code = (if color then ESC code else [])"

definition signal_name :: "int \<Rightarrow> string" where
  "signal_name sig =
     (if sig = signal_number SIGSEGV then ''Segmentation fault''
      else if sig = signal_number SIGABRT then ''Aborted''
      else if sig = signal_number SIGFPE then ''Floating point exception''
      else ''Caught signal '' @ to_string_int sig)"

definition signal_text :: "crash_env \<Rightarrow> bool \<Rightarrow> int \<Rightarrow> string" where
  "signal_text A color sig =
     in_color color ''[31;1m'' @ signal_name sig @ in_color color ''[0m'' @ '' (thread '' @
     in_color color ''[33;1m'' @ to_string_nat (unat (os_self A)) @ in_color color ''[0m'' @ '', pid '' @
     in_color color ''[33;1m'' @ to_string_int (os_getppid A) @ in_color color ''[0m'' @ '')''"

lemma length_to_string_int: "0 \<le> v \<Longrightarrow> v < 2 ^ 31 \<Longrightarrow> length (to_string_int v) \<le> 10"
  using length_digits_in [of 10 "nat v" 9] by (simp add: to_string_int_def nat_less_iff)

lemma length_to_string_word: "length (to_string_nat (unat (v :: 64 word))) \<le> 20"
proof -
  have "unat v < 2 ^ 64" using unsigned_less [where ?'a = nat, of v] by simp
  then show ?thesis using length_digits_in [of 10 "unat v" 19] by simp
qed

lemma length_in_color [simp]: "length (in_color color code) \<le> Suc (length code)"
  by (simp add: in_color_def ESC_def)

lemma length_signal_name: "0 \<le> sig \<Longrightarrow> sig < 2 ^ 31 \<Longrightarrow> length (signal_name sig) \<le> 24"
  using length_to_string_int [of sig] by (simp add: signal_name_def)

lemma triple_signal_name:
  assumes "0 \<le> sig" and "sig < 2 ^ 31" and "length s \<le> 7" and "p + 160 \<le> N"
  shows "triple (text_at N p s ev)
    (if sig = signal_number SIGSEGV then strcat p (Lit ''Segmentation fault'')
     else if sig = signal_number SIGABRT then strcat p (Lit ''Aborted'')
     else if sig = signal_number SIGFPE then strcat p (Lit ''Floating point exception'')
     else
       andThen (strcat p (Lit ''Caught signal '')) (\<lambda>_.
       andThen (itoa sig (p + msg_max_length) 10) (\<lambda>q. strcat p (At q))))
    (\<lambda>_. text_at N p (s @ signal_name sig) ev)"
proof -
  consider "sig = 11" | "sig = 6" | "sig = 8" | "sig \<notin> {11, 6, 8}" by blast
  then show ?thesis
  proof cases
    case 4
    have "triple (text_at N p s ev)
       (andThen (strcat p (Lit ''Caught signal '')) (\<lambda>_.
        andThen (itoa sig (p + msg_max_length) 10) (\<lambda>q. strcat p (At q))))
       (\<lambda>_. text_at N p ((s @ ''Caught signal '') @ to_string_int sig) ev)"
      unfolding msg_max_length_def
      by (rule triple_seq [OF triple_strcat_lit triple_itoa])
        (use assms length_to_string_int [OF assms(1,2)] in simp_all)
    then show ?thesis using 4 by (simp add: signal_name_def)
  qed (use assms in \<open>simp_all add: signal_name_def triple_strcat_lit\<close>)
qed

lemma triple_color:
  "p + length s + length code + 1 < N \<Longrightarrow> NUL \<notin> set code \<Longrightarrow>
   triple (text_at N p s ev) (only_if color (strcat p (Lit (ESC code))))
     (\<lambda>_. text_at N p (s @ in_color color code) ev)"
  unfolding in_color_def by (rule triple_only_if, rule triple_strcat_lit) (simp_all add: ESC_def)

lemma triple_signal_message:
  assumes "0 \<le> sig" and "sig < 2 ^ 31" and "0 \<le> os_getppid A" and "os_getppid A < 2 ^ 31" and "p + 160 \<le> N"
  shows "triple (\<lambda>st. length (mem st) = N \<and> events st = ev) (signal_message A d sig p)
    (\<lambda>_. text_at N p (signal_text A (s_color_output d) sig) ev)"
proof -
  let ?c = "in_color (s_color_output d)"
  note len = length_signal_name [OF assms(1,2)] length_to_string_int [OF assms(3,4)]
    length_to_string_word [of "os_self A"] length_in_color [of "s_color_output d" "''[31;1m''"]
    length_in_color [of "s_color_output d" "''[33;1m''"] length_in_color [of "s_color_output d" "''[0m''"]
  note steps = triple_signal_name triple_color triple_strcat_lit triple_utoa [folded msg_max_length_def]
    triple_itoa [folded msg_max_length_def]
  have start: "triple (\<lambda>st. length (mem st) = N \<and> events st = ev)
     (if s_color_output d then strcpy p (Lit (ESC ''[31;1m'')) else put p [NUL])
     (\<lambda>_. text_at N p (in_color (s_color_output d) ''[31;1m'') ev)"
    using assms(5) triple_strcpy_lit [of "ESC ''[31;1m''" p N ev]
    by (auto simp: in_color_def ESC_def triple_def put_def text_at_def holds_nth nth_overwrite)
  show ?thesis
    unfolding signal_message_def signal_text_def append_assoc [symmetric]
    by (rule start steps triple_seq | (use assms len in \<open>simp add: msg_max_length_def; fail\<close>))+
qed


section \<open>Waking the parent\<close>

text \<open>
  The parent stops itself before it waits. \<open>quiet A m\<close>: \<open>m\<close> wakes it exactly if it ends in an abort,
  and does not end the child with success.
\<close>

named_theorems quiet_intros "steps that wake the parent only before an abort"

definition woken :: "crash_env \<Rightarrow> crash_event list \<Rightarrow> bool" where
  "woken A ev \<longleftrightarrow> Kills (os_getppid A) SIGCONT \<in> set ev"

definition quiet :: "crash_env \<Rightarrow> 'a crash_prog \<Rightarrow> bool" where
  "quiet A m \<longleftrightarrow>
     (\<forall>st. \<not> woken A (events st) \<longrightarrow>
        (case m st of
           (Inr x, st') \<Rightarrow> \<not> woken A (events st')
         | (Inl e, st') \<Rightarrow> woken A (events st') = (e = Aborts) \<and> e \<noteq> Exits_now 0))"

lemma quiet_andThen [quiet_intros]: "quiet A m \<Longrightarrow> (\<And>x. quiet A (f x)) \<Longrightarrow> quiet A (andThen m f)"
  unfolding quiet_def andThen_def by (fastforce split: prod.splits sum.splits)

lemma quiet_ret [quiet_intros]: "quiet A (ret x)"
  by (simp add: quiet_def)

lemma quiet_Pair [quiet_intros]: "quiet A (Pair (Inr x))"
  by (simp add: quiet_def)

lemma quiet_raise [quiet_intros]: "e \<noteq> Aborts \<Longrightarrow> e \<noteq> Exits_now 0 \<Longrightarrow> quiet A (raise e)"
  by (simp add: quiet_def)

lemma quiet_reads [quiet_intros]: "quiet A (reads f)"
  by (simp add: quiet_def)

lemma quiet_if [quiet_intros]: "(b \<Longrightarrow> quiet A m) \<Longrightarrow> (\<not> b \<Longrightarrow> quiet A n) \<Longrightarrow> quiet A (if b then m else n)"
  by simp

lemma quiet_option [quiet_intros]:
  "quiet A m \<Longrightarrow> (\<And>x. quiet A (f x)) \<Longrightarrow> quiet A (case p of None \<Rightarrow> m | Some x \<Rightarrow> f x)"
  by (cases p) simp_all

lemma quiet_prod [quiet_intros]: "(\<And>x y. quiet A (f x y)) \<Longrightarrow> quiet A (case p of (x, y) \<Rightarrow> f x y)"
  by (cases p) simp

lemma quiet_Let [quiet_intros]: "(\<And>x. quiet A (f x)) \<Longrightarrow> quiet A (let x = v in f x)"
  by simp

lemma quiet_only_if [quiet_intros]: "quiet A m \<Longrightarrow> quiet A (only_if b m)"
  by (simp add: only_if_def quiet_ret)

lemma quiet_memory [quiet_intros]:
  "quiet A (peek p)" "quiet A (put p s)" "quiet A (load_str p)" "quiet A (peek_word p)"
  by (simp_all add: quiet_def peek_def put_def load_str_def peek_word_def split: option.split)

lemma quiet_stderr [quiet_intros]: "quiet A (event (ToStderr s))"
  by (simp add: quiet_def event_def woken_def)

lemma quiet_safe_abort [quiet_intros]: "quiet A (safe_abort A)"
  by (simp add: quiet_def safe_abort_def event_def andThen_def woken_def)

lemma quiet_strings [quiet_intros]:
  "quiet A (put_int i s)" "quiet A (source_str src)" "quiet A (strcpy p src)" "quiet A (strcat p src)"
  "quiet A (strstr p s)" "quiet A (write_err wr s)" "quiet A (print2stderr wr p)" "quiet A (drop_last_char p)"
proof -
  show src: "quiet A (source_str src)" for src
    unfolding source_str_def by (cases src) (simp_all add: quiet_intros quiet_ret)
  show cpy: "quiet A (strcpy p src)" for p src
    unfolding strcpy_def by (intro src quiet_intros) simp_all
  show "quiet A (strcat p src)" unfolding strcat_def by (intro cpy quiet_intros)
  show wr: "quiet A (write_err wr s)" for s unfolding write_err_def by (intro quiet_intros) simp_all
  show "quiet A (print2stderr wr p)" unfolding print2stderr_def by (intro wr quiet_intros)
  show "quiet A (put_int i s)" "quiet A (strstr p s)" "quiet A (drop_last_char p)"
    unfolding put_int_def strstr_def drop_last_char_def by (intro quiet_intros; simp)+
qed

lemma quiet_digit_at [quiet_intros]: "quiet A (digit_at i)"
  unfolding digit_at_def by (intro quiet_intros) simp_all

lemma quiet_loops [quiet_intros]: "quiet A (itoa_loop res base i v)" "quiet A (utoa_loop res base' i w)"
  by (induction i arbitrary: v w) (auto intro!: quiet_intros)

lemma quiet_numbers [quiet_intros]: "quiet A (itoa v p b)" "quiet A (utoa w p b')" "quiet A (ptoa w p)"
  unfolding itoa_def utoa_def ptoa_def by (intro quiet_intros; simp)+

lemma quiet_programs [quiet_intros]: "quiet A (addr2line A img addr color p)" "quiet A (nonStripped A f)"
  unfolding addr2line_def nonStripped_def by (intro quiet_intros; simp)+

lemma quiet_message [quiet_intros]: "quiet A (signal_message A d sig p)" "quiet A (function_line A d l p)"
  unfolding signal_message_def function_line_def by (intro quiet_intros; simp)+

lemma quiet_cut [quiet_intros]:
  "quiet A (cut_common_root cwd l)" "quiet A (cut_relative l)" "quiet A (mark_line_number l p)"
  unfolding cut_common_root_def cut_relative_def mark_line_number_def by (intro quiet_intros; simp)+

lemma quiet_print_frame [quiet_intros]: "quiet A (print_frame A d cwd l p)" "quiet A (frame_line A d nm addr p)"
  unfolding print_frame_def frame_line_def by (intro quiet_intros; simp)+

lemma quiet_print_frames [quiet_intros]: "quiet A (print_frames A d nm cwd p is)"
  by (induction "is") (auto intro!: quiet_intros)

lemma quiet_print_stack [quiet_intros]: "quiet A (print_stack A d)"
  unfolding print_stack_def Let_def by (intro quiet_intros; simp)


section \<open>Properties\<close>

text \<open>
  C23. The first line of the report fits in the 128 bytes in front of the buffer for numbers, for every
  signal, thread and process number and with or without colour: \<open>signal_message\<close> writes exactly the
  line described, inside the memory and without copying over itself.
\<close>

theorem signal_message_stays_in_bounds:
  assumes "0 \<le> sig" and "sig < 2 ^ 31" and "0 \<le> os_getppid A" and "os_getppid A < 2 ^ 31"
    and "length (mem st) = kNeededMemory"
  shows "\<exists>st'. signal_message A d sig 0 st = (Inr (), st') \<and>
    cstr (mem st') 0 = Some (signal_text A (s_color_output d) sig) \<and>
    length (signal_text A (s_color_output d) sig) < msg_max_length \<and>
    length (mem st') = kNeededMemory \<and> events st' = events st"
proof -
  have "0 + 160 \<le> kNeededMemory" by (simp add: kNeededMemory_def)
  then obtain st' where "signal_message A d sig 0 st = (Inr (), st')"
    "text_at kNeededMemory 0 (signal_text A (s_color_output d) sig) (events st) st'"
    using triple_signal_message [OF assms(1-4), of 0 kNeededMemory "events st" d] assms(5)
    unfolding triple_def by auto
  moreover have "length (signal_text A (s_color_output d) sig) < msg_max_length"
    using length_signal_name [OF assms(1,2)] length_to_string_int [OF assms(3,4)]
      length_to_string_word [of "os_self A"] length_in_color [of "s_color_output d" "''[31;1m''"]
      length_in_color [of "s_color_output d" "''[33;1m''"] length_in_color [of "s_color_output d" "''[0m''"]
    by (simp add: signal_text_def msg_max_length_def)
  ultimately show ?thesis by (auto simp: text_at_def holds_cstr)
qed

definition demo_crash_env :: crash_env where
  "demo_crash_env =
     \<lparr>os_getpid = 4711, os_getppid = 4242, os_self = 140, os_dup2 = True, os_write = (\<lambda>s. int (length s)),
      os_backtrace = (\<lambda>n. [16, 32, 48]), os_pc = 32, os_exe = Some ''/kms'', os_cwd = Some ''/home/kms'',
      os_dladdr = (\<lambda>_. None), os_pipe = True,
      os_run = (\<lambda>_. Some (''main'' @ [CHR 0x0A] @ ''/home/kms/main.cpp:7'' @ [CHR 0x0A])),
      os_wait = True, os_access = (\<lambda>_. False)\<rparr>"

definition demo_death_handler :: death_handler where
  "demo_death_handler = static_members\<lparr>s_memory := Allocated (replicate kNeededMemory CHR ''x'')\<rparr>"

lemma signal_message_stays_in_bounds_witness:
  "\<exists>st'. signal_message demo_crash_env static_members 11 0
       \<lparr>mem = replicate kNeededMemory CHR ''x'', events = []\<rparr> = (Inr (), st') \<and>
     cstr (mem st') 0 =
       Some (ESC ''[31;1mSegmentation fault'' @ ESC ''[0m (thread '' @ ESC ''[33;1m140'' @ ESC ''[0m, pid '' @
         ESC ''[33;1m4242'' @ ESC ''[0m)'')"
proof -
  let ?st = "\<lparr>mem = replicate kNeededMemory CHR ''x'', events = []\<rparr>"
  have "to_string_nat 140 = ''140''" "to_string_int 4242 = ''4242''"
    by (simp_all add: to_string_int_def digits_in_step digits_in_small digit_char_def)
  then have "signal_text demo_crash_env True 11 =
      ESC ''[31;1mSegmentation fault'' @ ESC ''[0m (thread '' @ ESC ''[33;1m140'' @ ESC ''[0m, pid '' @
      ESC ''[33;1m4242'' @ ESC ''[0m)''"
    by (simp add: signal_text_def demo_crash_env_def signal_name_def in_color_def ESC_def)
  moreover have "os_getppid demo_crash_env = 4242" "s_color_output static_members = True"
    by (simp_all add: demo_crash_env_def static_members_def)
  ultimately show ?thesis
    using signal_message_stays_in_bounds [of 11 demo_crash_env ?st static_members] by auto
qed

text \<open>
  \<open>leaves_number b n r st p k\<close>: the call that ended as \<open>r\<close> has left the number \<open>n\<close> as a string in base \<open>b\<close>
  in the \<open>k\<close> bytes at \<open>p\<close>, and has changed nothing else.
\<close>

definition leaves_number ::
  "nat \<Rightarrow> nat \<Rightarrow> (crash_end + nat) \<times> crash_state \<Rightarrow> crash_state \<Rightarrow> nat \<Rightarrow> nat \<Rightarrow> bool" where
  "leaves_number b n r st p k \<longleftrightarrow>
     (\<exists>q t m'. r = (Inr q, st\<lparr>mem := m'\<rparr>) \<and> cstr m' q = Some t \<and> read_number b 0 t = Some n \<and>
        same_outside p k (mem st) m')"

lemma utoa_leaves:
  assumes "b = 10 \<or> b = 16" and "p + 32 \<le> length (mem st)"
  shows "leaves_number b (unat val) (utoa val p b st) st p 32"
proof -
  have "unat val < 2 ^ 64" using unsigned_less [where ?'a = nat, of val] by simp
  then have v: "unat val < b ^ 30" using assms(1) by auto
  have b: "2 \<le> b" "b \<le> 16" using assms(1) by auto
  obtain q m' where "utoa val p b st = (Inr q, st\<lparr>mem := m'\<rparr>)" "holds m' q (digits_in b (unat val))"
    "same_outside p 32 (mem st) m'"
    by (rule utoa_run [OF b v assms(2)])
  then show ?thesis using read_digits_in [OF b] holds_cstr unfolding leaves_number_def by blast
qed

text \<open>
  C38. The numbers of the crash report can be read back: what \<open>utoa\<close> leaves in memory, in base ten and
  in base sixteen, are digits of that base whose value is the number, over the whole 64 bits; \<open>itoa\<close>
  in base ten does so for every \<open>int\<close> that is not negative, and \<open>ptoa\<close> leaves \<open>0x\<close> and the
  address in base sixteen. Nothing outside of the 32 bytes (64 for an address) has changed.
\<close>

theorem printed_numbers_read_back:
  assumes "p + 64 \<le> length (mem st)"
  shows "(b = 10 \<or> b = 16 \<longrightarrow> leaves_number b (unat val) (utoa val p b st) st p 32) \<and>
    (0 \<le> i \<and> i < 2 ^ 31 \<longrightarrow> leaves_number 10 (nat i) (itoa i p 10 st) st p 32) \<and>
    (\<exists>t m'. ptoa val p st = (Inr p, st\<lparr>mem := m'\<rparr>) \<and> cstr m' p = Some (''0x'' @ t) \<and>
       read_number 16 0 t = Some (unat val) \<and> same_outside p 64 (mem st) m')"
proof (intro conjI impI)
  show "leaves_number b (unat val) (utoa val p b st) st p 32" if "b = 10 \<or> b = 16"
    using utoa_leaves that assms by simp
  show "leaves_number 10 (nat i) (itoa i p 10 st) st p 32" if "0 \<le> i \<and> i < 2 ^ 31"
  proof -
    have "unat (of_int i :: 64 word) = nat i" using uint_of_int64 [of i] that by (simp add: unat_eq_nat_uint)
    then show ?thesis using utoa_leaves [of 10 p st "of_int i"] itoa_utoa [of i p] that assms by simp
  qed
  obtain m' where "ptoa val p st = (Inr p, st\<lparr>mem := m'\<rparr>)" "holds m' p (''0x'' @ digits_in 16 (unat val))"
    "same_outside p 64 (mem st) m'"
    by (rule ptoa_run [OF assms])
  moreover have "read_number 16 0 (digits_in 16 (unat val)) = Some (unat val)" by (rule read_digits_in) simp_all
  ultimately show "\<exists>t m'. ptoa val p st = (Inr p, st\<lparr>mem := m'\<rparr>) \<and> cstr m' p = Some (''0x'' @ t) \<and>
      read_number 16 0 t = Some (unat val) \<and> same_outside p 64 (mem st) m'"
    by (intro exI [of _ "digits_in 16 (unat val)"] exI [of _ m'] conjI holds_cstr)
qed

definition demo_block :: crash_state where
  "demo_block = \<lparr>mem = replicate 64 CHR ''x'', events = []\<rparr>"

lemma demo_block_fits: "0 + 64 \<le> length (mem demo_block)"
  by (simp add: demo_block_def)

lemma printed_numbers_read_back_witness:
  "leaves_number 10 18446744073709551615 (utoa 18446744073709551615 0 10 demo_block) demo_block 0 32 \<and>
   (\<exists>t m'. ptoa 48879 0 demo_block = (Inr 0, demo_block\<lparr>mem := m'\<rparr>) \<and>
      cstr m' 0 = Some (''0x'' @ t) \<and> read_number 16 0 t = Some 48879)"
proof
  have "unat (18446744073709551615 :: 64 word) = 18446744073709551615" by simp
  then show "leaves_number 10 18446744073709551615 (utoa 18446744073709551615 0 10 demo_block) demo_block 0 32"
    using printed_numbers_read_back [OF demo_block_fits, THEN conjunct1, of 10 18446744073709551615] by metis
  have "unat (48879 :: 64 word) = 48879" by simp
  then show "\<exists>t m'. ptoa 48879 0 demo_block = (Inr 0, demo_block\<lparr>mem := m'\<rparr>) \<and>
      cstr m' 0 = Some (''0x'' @ t) \<and> read_number 16 0 t = Some 48879"
    using printed_numbers_read_back [OF demo_block_fits, THEN conjunct2, THEN conjunct2, of 48879] by metis
qed

text \<open>
  C22. The child wakes the process it reports on, if it ends the way it should: with \<open>thread_safe\<close> the
  parent, which has stopped itself, is continued exactly if the child reaches its end or gives up with
  an abort. If it ends in any other way (a write to standard error that fails, a fault), the parent
  stays stopped.
\<close>

theorem child_wakes_parent:
  assumes "SignalHandler A d sig 0 = (e, ev)" and "s_thread_safe d"
  shows "Kills (os_getppid A) SIGCONT \<in> set ev \<longleftrightarrow> e \<in> {Exits_now 0, Aborts}"
proof -
  let ?woken = "\<lambda>st. woken A (events st)"
  let ?finish = "andThen (only_if (s_thread_safe d) (event (Kills (os_getppid A) SIGCONT))) (\<lambda>_. raise (Exits_now 0))"
  let ?X = "\<lambda>e st. ?woken st = (e \<in> {Exits_now 0, Aborts})"
  obtain report :: "unit crash_prog" where report: "quiet A report" "child_branch A d sig = andThen report (\<lambda>_. ?finish)"
  proof
    let ?report = "andThen (andThen (andThen (andThen (andThen
      (only_if (\<not> os_dup2 A) (write_err (os_write A) (''Failed to redirect stdout to stderr'' @ [CHR 0x0A])))
      (\<lambda>_. signal_message A d sig 0)) (\<lambda>_. print2stderr (os_write A) 0))
      (\<lambda>_. write_err (os_write A) (CHR 0x0A # ''Stack trace:'' @ [CHR 0x0A]))) (\<lambda>_. print_stack A d))
      (\<lambda>_. write_err (os_write A) [NUL])"
    show "quiet A ?report" by (intro quiet_intros)
    show "child_branch A d sig = andThen ?report (\<lambda>_. ?finish)" by (simp add: child_branch_def andThen_assoc)
  qed
  have fin: "wp ?finish (\<lambda>_ _. False) ?X st" if "\<not> ?woken st" for st
    using assms(2) that by (simp add: only_if_def event_def andThen_def wp_def woken_def)
  have rep: "wp report (\<lambda>_ st. \<not> ?woken st) (\<lambda>e st. ?woken st = (e = Aborts) \<and> e \<noteq> Exits_now 0)
      \<lparr>mem = usable_memory d, events = []\<rparr>"
    using report(1) [unfolded quiet_def, rule_format, of "\<lparr>mem = usable_memory d, events = []\<rparr>"]
    by (simp add: wp_def woken_def [of A "[]"])
  have "wp (child_branch A d sig) (\<lambda>_ _. False) ?X \<lparr>mem = usable_memory d, events = []\<rparr>"
    unfolding report(2) by (subst wp_andThen, rule wp_mono [OF rep]) (rule fin, assumption, auto)
  then show ?thesis
    using assms(1) unfolding SignalHandler_def by (auto simp: wp_def woken_def split: prod.splits sum.splits)
qed


text \<open>Standard error is closed: the child ends at its first line.\<close>

lemma child_cannot_write:
  assumes "signal_message A d sig 0 st = (Inr (), st')" and "holds (mem st') 0 t"
    and "os_dup2 A" and "os_write A = (\<lambda>_. -1)"
  shows "child_branch A d sig st = (Inl (Exits_now 1), st')"
  using assms by (simp add: child_branch_def only_if_def andThen_def print2stderr_def load_str_run write_err_def)

lemma closed_stderr:
  "SignalHandler (demo_crash_env\<lparr>os_write := \<lambda>_. -1\<rparr>) demo_death_handler 11 0 = (Exits_now 1, [])"
proof -
  let ?A = "demo_crash_env\<lparr>os_write := \<lambda>_. -1\<rparr>" and ?d = demo_death_handler
  let ?st = "\<lparr>mem = usable_memory ?d, events = []\<rparr>"
  have "length (mem ?st) = kNeededMemory" by (simp add: usable_memory_def demo_death_handler_def)
  moreover have "os_getppid ?A = 4242" by (simp add: demo_crash_env_def)
  moreover have "0 + 160 \<le> kNeededMemory" by (simp add: kNeededMemory_def)
  ultimately obtain st' where "signal_message ?A ?d 11 0 ?st = (Inr (), st')"
    "text_at kNeededMemory 0 (signal_text ?A (s_color_output ?d) 11) [] st'"
    using triple_signal_message [of 11 ?A 0 kNeededMemory "[]" ?d, unfolded triple_def, rule_format, of ?st] by auto
  then have "child_branch ?A ?d 11 ?st = (Inl (Exits_now 1), st')" "events st' = []"
    by (auto simp: text_at_def demo_crash_env_def intro: child_cannot_write)
  then show ?thesis by (simp add: SignalHandler_def)
qed

lemma child_wakes_parent_witness:
  "SignalHandler (demo_crash_env\<lparr>os_write := \<lambda>_. -1\<rparr>) demo_death_handler 11 0 = (Exits_now 1, []) \<and>
   (Kills 4242 SIGCONT \<in> set [] \<longleftrightarrow> Exits_now 1 \<in> {Exits_now 0, Aborts})"
  using child_wakes_parent [OF closed_stderr] closed_stderr
  by (simp add: demo_death_handler_def static_members_def demo_crash_env_def)

text \<open>
  When \<open>fork\<close> fails the process takes the branch of the parent: with \<open>thread_safe\<close> it stops itself,
  and there is no child to continue it.
\<close>

theorem failed_fork_stops_process:
  assumes "s_thread_safe d"
  shows "\<exists>e rest. SignalHandler A d sig (-1) = (e, Kills (os_getpid A) SIGSTOP # rest) \<and>
    (\<forall>p. Kills p SIGCONT \<notin> set rest)"
  using assms by (auto simp: SignalHandler_def parent_branch_def andThen_def event_def)

text \<open>The memory is not allocated again after the handler has been destroyed once.\<close>

theorem second_handler_uses_freed_memory:
  assumes "s_memory (statics p) = NoMemory" and "os_dup2 A"
  shows "\<exists>p'. destruct (construct m p) = Inr p' \<and>
    SignalHandler A (statics (construct m' p')) 11 0 = (Fault, [])"
  using assms
  by (auto simp: construct_def destruct_def Let_def SignalHandler_def child_branch_def usable_memory_def
      only_if_def andThen_def signal_message_def strcpy_def source_str_def overlaps_def put_def ESC_def)

text \<open>The trace fits in front of everything else for every depth that can be set.\<close>

lemma frames_count_bounds: "set_frames_count v d = Inr d' \<Longrightarrow> (nat (s_frames_count d') + 2) * 8 \<le> 816"
  by (auto simp: set_frames_count_def split: if_splits)

end
