(* ===== verification/Kms_Logging.thy ===== *)
theory Kms_Logging
  imports C_Strings "HOL-Library.Sublist"
begin

unbundle bit_operations_syntax

text \<open>
  \<open>server/logging.cpp\<close>: messages of GLib are passed on to GStreamer's log, messages of GStreamer to
  rotating files. GStreamer and the log library are seen through what they are called with: a
  message that is passed on is a value, the calls that set the files up are steps on a state. The
  constants of GLib and GStreamer are those of their headers.
\<close>

section \<open>Messages of GLib\<close>

definition G_LOG_FLAG_RECURSION :: "32 word" where "G_LOG_FLAG_RECURSION = 0x1"
definition G_LOG_FLAG_FATAL :: "32 word" where "G_LOG_FLAG_FATAL = 0x2"
definition G_LOG_LEVEL_ERROR :: "32 word" where "G_LOG_LEVEL_ERROR = 0x4"
definition G_LOG_LEVEL_CRITICAL :: "32 word" where "G_LOG_LEVEL_CRITICAL = 0x8"
definition G_LOG_LEVEL_WARNING :: "32 word" where "G_LOG_LEVEL_WARNING = 0x10"
definition G_LOG_LEVEL_MESSAGE :: "32 word" where "G_LOG_LEVEL_MESSAGE = 0x20"
definition G_LOG_LEVEL_INFO :: "32 word" where "G_LOG_LEVEL_INFO = 0x40"
definition G_LOG_LEVEL_DEBUG :: "32 word" where "G_LOG_LEVEL_DEBUG = 0x80"
definition G_LOG_LEVEL_MASK :: "32 word" where
  "G_LOG_LEVEL_MASK = NOT (G_LOG_FLAG_RECURSION OR G_LOG_FLAG_FATAL)"
definition G_LOG_LEVEL_USER_SHIFT :: nat where "G_LOG_LEVEL_USER_SHIFT = 8"

lemmas glib_constants = G_LOG_FLAG_RECURSION_def G_LOG_FLAG_FATAL_def G_LOG_LEVEL_ERROR_def
  G_LOG_LEVEL_CRITICAL_def G_LOG_LEVEL_WARNING_def G_LOG_LEVEL_MESSAGE_def G_LOG_LEVEL_INFO_def
  G_LOG_LEVEL_DEBUG_def G_LOG_LEVEL_MASK_def G_LOG_LEVEL_USER_SHIFT_def

datatype gst_level =
    GST_LEVEL_NONE | GST_LEVEL_ERROR | GST_LEVEL_WARNING | GST_LEVEL_FIXME | GST_LEVEL_INFO
  | GST_LEVEL_DEBUG | GST_LEVEL_LOG | GST_LEVEL_TRACE | GST_LEVEL_MEMDUMP

fun level_value :: "gst_level \<Rightarrow> nat" where
  "level_value GST_LEVEL_NONE = 0"
| "level_value GST_LEVEL_ERROR = 1"
| "level_value GST_LEVEL_WARNING = 2"
| "level_value GST_LEVEL_FIXME = 3"
| "level_value GST_LEVEL_INFO = 4"
| "level_value GST_LEVEL_DEBUG = 5"
| "level_value GST_LEVEL_LOG = 6"
| "level_value GST_LEVEL_TRACE = 7"
| "level_value GST_LEVEL_MEMDUMP = 9"

lemma level_value_inject: "level_value a = level_value b \<Longrightarrow> a = b"
  by (cases a; cases b) simp_all

text \<open>The levels are ordered by their values.\<close>

instantiation gst_level :: linorder
begin

definition less_eq_gst_level :: "gst_level \<Rightarrow> gst_level \<Rightarrow> bool" where
  "less_eq_gst_level a b \<longleftrightarrow> level_value a \<le> level_value b"

definition less_gst_level :: "gst_level \<Rightarrow> gst_level \<Rightarrow> bool" where
  "less_gst_level a b \<longleftrightarrow> level_value a < level_value b"

instance
  by intro_classes
    (auto simp: less_eq_gst_level_def less_gst_level_def intro: level_value_inject)

end

definition g_log_level_to_gst_debug_level :: "32 word \<Rightarrow> gst_level" where
  "g_log_level_to_gst_debug_level log_level =
     (let l = log_level AND G_LOG_LEVEL_MASK
      in if l = G_LOG_LEVEL_ERROR then GST_LEVEL_ERROR
         else if l = G_LOG_LEVEL_CRITICAL then GST_LEVEL_ERROR
         else if l = G_LOG_LEVEL_WARNING then GST_LEVEL_WARNING
         else if l = G_LOG_LEVEL_MESSAGE then GST_LEVEL_FIXME
         else if l = G_LOG_LEVEL_INFO then GST_LEVEL_INFO
         else if l = G_LOG_LEVEL_DEBUG then GST_LEVEL_DEBUG
         else GST_LEVEL_DEBUG)"

definition DEFAULT_LEVELS :: "32 word" where
  "DEFAULT_LEVELS = G_LOG_LEVEL_ERROR OR G_LOG_LEVEL_CRITICAL OR G_LOG_LEVEL_WARNING OR G_LOG_LEVEL_MESSAGE"

definition INFO_LEVELS :: "32 word" where
  "INFO_LEVELS = G_LOG_LEVEL_INFO OR G_LOG_LEVEL_DEBUG"

definition gst_str_null :: "string option \<Rightarrow> string" where
  "gst_str_null s = (case s of None \<Rightarrow> ''(NULL)'' | Some t \<Rightarrow> t)"

text \<open>What is passed on: the level, the domain in the place of the file name and the message.\<close>

definition kms_glib_log_handler ::
  "string option \<Rightarrow> string option \<Rightarrow> 32 word \<Rightarrow> string option \<Rightarrow> (gst_level \<times> string \<times> string) option" where
  "kms_glib_log_handler G_MESSAGES_DEBUG log_domain log_level message =
     (let emit =
            (if log_level AND G_LOG_FLAG_RECURSION \<noteq> 0 then None
             else Some (g_log_level_to_gst_debug_level log_level, gst_str_null log_domain, gst_str_null message))
      in if log_level AND DEFAULT_LEVELS \<noteq> 0 \<or> drop_bit G_LOG_LEVEL_USER_SHIFT log_level \<noteq> 0 then emit
         else
           case G_MESSAGES_DEBUG of None \<Rightarrow> None
           | Some domains \<Rightarrow>
               if log_level AND INFO_LEVELS = 0 then None
               else if domains \<noteq> ''all'' \<and>
                 (case log_domain of None \<Rightarrow> True | Some d \<Rightarrow> \<not> sublist d domains)
               then None else emit)"

section \<open>Messages of GStreamer\<close>

text \<open>What the object says of itself; the pointer as it is printed.\<close>

record gobject =
  is_pad :: bool
  is_gst_object :: bool
  is_gobject :: bool
  gst_name :: "string option"
  gst_parent_name :: "string option" \<comment> \<open>of the parent, if it has one\<close>
  type_name :: string
  pointer_text :: string

definition debug_object :: "gobject option \<Rightarrow> string" where
  "debug_object object =
     (case object of None \<Rightarrow> []
      | Some ob \<Rightarrow>
          (case (is_pad ob, is_gst_object ob, gst_name ob) of
             (True, _, Some nm) \<Rightarrow>
               ''<'' @ (case gst_parent_name ob of None \<Rightarrow> [CHR 0x27, CHR 0x27] | Some p \<Rightarrow> p) @ '':'' @ nm @ ''> ''
           | (_, True, Some nm) \<Rightarrow> ''<'' @ nm @ ''> ''
           | _ \<Rightarrow>
               if is_gobject ob then ''<'' @ type_name ob @ ''@'' @ pointer_text ob @ ''> ''
               else ''<'' @ pointer_text ob @ ''> ''))"

definition expand_string :: "string \<Rightarrow> int \<Rightarrow> string" where
  "expand_string str len = str @ replicate (nat (len - int (length str))) CHR '' ''"

datatype severity_level =
    Sev_error | Sev_warning | Sev_fixme | Sev_info | Sev_debug | Sev_log | Sev_trace | Sev_undefined

fun gst_debug_level_to_severity_level :: "gst_level \<Rightarrow> severity_level" where
  "gst_debug_level_to_severity_level GST_LEVEL_ERROR = Sev_error"
| "gst_debug_level_to_severity_level GST_LEVEL_WARNING = Sev_warning"
| "gst_debug_level_to_severity_level GST_LEVEL_FIXME = Sev_fixme"
| "gst_debug_level_to_severity_level GST_LEVEL_INFO = Sev_info"
| "gst_debug_level_to_severity_level GST_LEVEL_DEBUG = Sev_debug"
| "gst_debug_level_to_severity_level GST_LEVEL_LOG = Sev_log"
| "gst_debug_level_to_severity_level GST_LEVEL_TRACE = Sev_trace"
| "gst_debug_level_to_severity_level _ = Sev_undefined"

record log_record =
  lr_severity :: severity_level
  lr_category :: string
  lr_file_name :: string
  lr_line :: int
  lr_function :: string
  lr_gobject :: string
  lr_message :: string

text \<open>The last component of a path is taken by the file system library, a parameter.\<close>

definition kms_log_function ::
  "(string \<Rightarrow> string) \<Rightarrow> gst_level \<Rightarrow> string \<Rightarrow> gst_level \<Rightarrow> string \<Rightarrow> string \<Rightarrow> int \<Rightarrow> gobject option \<Rightarrow>
   string \<Rightarrow> log_record option" where
  "kms_log_function filename threshold category_name level file_path func_name line object message =
     (if level > threshold then None
      else
        let severity = gst_debug_level_to_severity_level level
        in if severity = Sev_undefined then None
           else Some \<lparr>lr_severity = severity, lr_category = expand_string category_name 25,
             lr_file_name = filename file_path, lr_line = line, lr_function = func_name,
             lr_gobject = debug_object object, lr_message = message\<rparr>)"

fun severity_index :: "severity_level \<Rightarrow> nat" where
  "severity_index Sev_error = 0"
| "severity_index Sev_warning = 1"
| "severity_index Sev_fixme = 2"
| "severity_index Sev_info = 3"
| "severity_index Sev_debug = 4"
| "severity_index Sev_log = 5"
| "severity_index Sev_trace = 6"
| "severity_index Sev_undefined = 7"

definition severity_strs :: "string list" where
  "severity_strs = [''  error'', ''warning'', ''  fixme'', ''   info'', ''  debug'', ''    log'', ''  trace'', ''unknown'']"

definition print_severity :: "severity_level \<Rightarrow> string" where
  "print_severity lvl =
     (if severity_index lvl < length severity_strs then severity_strs ! severity_index lvl
      else to_string_nat (severity_index lvl))"

text \<open>A line of the file; the time and the thread are attributes the library adds.\<close>

definition system_formatter :: "int \<Rightarrow> string \<Rightarrow> string \<Rightarrow> log_record \<Rightarrow> string" where
  "system_formatter pid timestamp thread r =
     timestamp @ '' '' @ to_string_int pid @ '' '' @ thread @ '' '' @ print_severity (lr_severity r) @ '' '' @
     lr_category r @ '' '' @ lr_file_name r @ '':'' @ to_string_int (lr_line r) @ '' '' @
     lr_function r @ ''() '' @ lr_gobject r @ '' '' @ lr_message r"

section \<open>Files\<close>

text \<open>
  The numbers are \<open>int\<close>s; a product that does not fit is undefined. The library's collector gets the
  size all files may have and the space that must stay free.
\<close>

definition int_mult :: "int \<Rightarrow> int \<Rightarrow> int option" where
  "int_mult a b = (if - (2 ^ 31) \<le> a * b \<and> a * b < 2 ^ 31 then Some (a * b) else None)"

definition megabytes :: "int \<Rightarrow> int option" where
  "megabytes n = Option.bind (int_mult n 1024) (\<lambda>k. int_mult k 1024)"

record collector =
  co_target :: string
  co_max_size :: int
  co_min_free_space :: int

definition init_file_collecting :: "string \<Rightarrow> int \<Rightarrow> int \<Rightarrow> collector option" where
  "init_file_collecting path fileSize fileNumber =
     Option.bind (Option.bind (int_mult fileSize fileNumber) megabytes) (\<lambda>max_size.
     Option.bind (megabytes fileSize) (\<lambda>min_free.
     Some \<lparr>co_target = path, co_max_size = max_size, co_min_free_space = min_free\<rparr>))"

datatype log_function = Gst_debug_log_default | Kms_log_function | Other_log_function nat

record file_sink =
  fs_file_name :: string
  fs_rotation_size :: int
  fs_auto_flush :: bool
  fs_channel :: string \<comment> \<open>the filter: records of this channel\<close>
  fs_collector :: collector

record logging_state =
  lg_functions :: "log_function list"
  lg_sink :: "file_sink option" \<comment> \<open>\<open>system_sink\<close>, registered in the core\<close>
  lg_restores :: bool \<comment> \<open>the exception handler is set\<close>

definition remove_log_function :: "log_function \<Rightarrow> logging_state \<Rightarrow> logging_state" where
  "remove_log_function f st = st\<lparr>lg_functions := filter (\<lambda>g. g \<noteq> f) (lg_functions st)\<rparr>"

definition add_log_function :: "log_function \<Rightarrow> logging_state \<Rightarrow> logging_state" where
  "add_log_function f st = st\<lparr>lg_functions := lg_functions st @ [f]\<rparr>"

text \<open>\<open>None\<close>: the sizes overflow.\<close>

definition kms_init_logging_files :: "int \<Rightarrow> string \<Rightarrow> int \<Rightarrow> int \<Rightarrow> logging_state \<Rightarrow> (bool \<times> logging_state) option" where
  "kms_init_logging_files pid path fileSize fileNumber st =
     (let st = add_log_function Kms_log_function (remove_log_function Gst_debug_log_default st)
      in Option.bind (megabytes fileSize) (\<lambda>rotation_size.
         Option.bind (init_file_collecting path fileSize fileNumber) (\<lambda>co.
         Some (True,
           st\<lparr>lg_sink := Some \<lparr>fs_file_name = path @ ''/'' @ ''%Y-%m-%dT%H%M%S.%5N.pid'' @ to_string_int pid @ ''.log'',
                fs_rotation_size = rotation_size, fs_auto_flush = True, fs_channel = ''system'',
                fs_collector = co\<rparr>,
              lg_restores := True\<rparr>))))"

text \<open>The handler of runtime errors of the log library.\<close>

definition ex_handler :: "logging_state \<Rightarrow> logging_state" where
  "ex_handler st = add_log_function Gst_debug_log_default (remove_log_function Kms_log_function st)"


section \<open>Properties\<close>

lemma int_mult_Some: "0 \<le> a \<Longrightarrow> 0 \<le> b \<Longrightarrow> a * b < 2 ^ 31 \<Longrightarrow> int_mult a b = Some (a * b)"
  by (simp add: int_mult_def) (smt (verit) mult_nonneg_nonneg)

lemma megabytes_iff: "0 \<le> n \<Longrightarrow> megabytes n = (if n < 2048 then Some (n * 1048576) else None)"
  by (auto simp: megabytes_def int_mult_def)

lemma megabytes_product:
  assumes "0 < s" and "0 < n"
  shows "Option.bind (int_mult s n) megabytes = (if s * n < 2048 then Some (s * n * 1048576) else None)"
proof (cases "s * n < 2 ^ 31")
  case True
  then show ?thesis using assms by (simp add: int_mult_Some megabytes_iff)
next
  case False
  then show ?thesis by (simp add: int_mult_def)
qed

text \<open>
  C39. The log files can be set up without an overflow exactly if all of them together stay below two
  gigabytes, as the defaults of 100 MB and 10 files do: then the files rotate at the size given, the
  collector keeps at most \<open>fileNumber\<close> of that size, and the messages no longer go to the default
  output. From 2048 MB on the \<open>int\<close> product has no value, although no option is out of its range.
\<close>

theorem log_files_stay_below_two_gigabytes:
  assumes "0 < fileSize" and "0 < fileNumber"
  shows "(case kms_init_logging_files pid path fileSize fileNumber st of
      None \<Rightarrow> 2048 \<le> fileSize * fileNumber
    | Some (ok, st') \<Rightarrow>
        fileSize * fileNumber < 2048 \<and> ok \<and> Gst_debug_log_default \<notin> set (lg_functions st') \<and>
        (\<exists>sink. lg_sink st' = Some sink \<and> fs_rotation_size sink = fileSize * 1048576 \<and>
          co_max_size (fs_collector sink) = fs_rotation_size sink * fileNumber))"
proof -
  have "fileSize \<le> fileSize * fileNumber" using assms by simp
  then have "fileSize * fileNumber < 2048 \<Longrightarrow> fileSize < 2048" by linarith
  then show ?thesis
    using assms megabytes_product [OF assms]
    by (auto simp: kms_init_logging_files_def init_file_collecting_def Let_def megabytes_iff
        add_log_function_def remove_log_function_def split: if_splits)
qed

lemma log_files_stay_below_two_gigabytes_witness:
  "\<exists>st'. kms_init_logging_files 1 ''/var/log'' 100 10
       \<lparr>lg_functions = [Gst_debug_log_default], lg_sink = None, lg_restores = False\<rparr> = Some (True, st') \<and>
     Gst_debug_log_default \<notin> set (lg_functions st') \<and>
     kms_init_logging_files 1 ''/var/log'' 100 21
       \<lparr>lg_functions = [Gst_debug_log_default], lg_sink = None, lg_restores = False\<rparr> = None"
  using log_files_stay_below_two_gigabytes [of 100 10 1 "''/var/log''"
      "\<lparr>lg_functions = [Gst_debug_log_default], lg_sink = None, lg_restores = False\<rparr>"]
    log_files_stay_below_two_gigabytes [of 100 21 1 "''/var/log''"
      "\<lparr>lg_functions = [Gst_debug_log_default], lg_sink = None, lg_restores = False\<rparr>"]
  by (auto split: option.splits)

text \<open>When a file cannot be written, the messages go to the default output again, and only there.\<close>

theorem file_errors_restore_output:
  assumes "kms_init_logging_files pid path s n st = Some (ok, st')"
    and "lg_functions st = [Gst_debug_log_default]"
  shows "lg_functions (ex_handler st') = [Gst_debug_log_default]"
  using assms
  by (auto simp: kms_init_logging_files_def ex_handler_def add_log_function_def remove_log_function_def
      Let_def Option.bind_eq_Some_conv)

text \<open>The columns of a line: severities have seven characters, categories at least 25.\<close>

lemma columns_align: "length (print_severity l) = 7" "25 \<le> length (expand_string c 25)"
  by (cases l; simp add: print_severity_def severity_strs_def) (simp add: expand_string_def)

text \<open>
  An error, a critical error or a warning of GLib is never filtered out, whatever
  \<open>G_MESSAGES_DEBUG\<close> says, and keeps its severity.
\<close>

theorem glib_warnings_are_logged:
  assumes "l \<in> {G_LOG_LEVEL_ERROR, G_LOG_LEVEL_CRITICAL, G_LOG_LEVEL_WARNING}"
  shows "kms_glib_log_handler env domain l message =
    Some (if l = G_LOG_LEVEL_WARNING then GST_LEVEL_WARNING else GST_LEVEL_ERROR,
      gst_str_null domain, gst_str_null message)"
  using assms
  by (auto simp: kms_glib_log_handler_def g_log_level_to_gst_debug_level_def DEFAULT_LEVELS_def glib_constants)

end
