(* ===== verification/Kms_Main.thy ===== *)
theory Kms_Main
  imports Event_Subscription Load_Config Death_Handler Kms_Logging
begin

text \<open>
  \<open>server/main.cpp\<close> with \<open>TransportFactory.cpp\<close>, \<open>WebSocketTransportFactory.cpp\<close>, \<open>modules.cpp\<close> and
  \<open>version.cpp\<close>: the process from its arguments to its end. The option parser, the module manager and
  what happens while the main loop runs are the fields of \<open>main_env\<close>, a parameter; the other parts are
  those of the other theories. \<open>exit\<close> is the exception \<open>Exit\<close>, which nothing catches.
\<close>

section \<open>Transport factories\<close>

type_synonym ('p, 'o, 'n) transport_factory =
  "ptree \<Rightarrow> 'p \<Rightarrow> 'n \<Rightarrow> (exn + unit) \<times> ('p, 'o, 'n) transport"

definition registerFactory ::
  "string \<times> ('p, 'o, 'n) transport_factory \<Rightarrow> (string \<times> ('p, 'o, 'n) transport_factory) list \<Rightarrow>
   (string \<times> ('p, 'o, 'n) transport_factory) list" where
  "registerFactory f factories = AList.update (fst f) (snd f) factories"

definition websocket_factory ::
  "('p, 'o, 'n) ws_env \<Rightarrow> ptree config_env \<Rightarrow> string \<times> ('p, 'o, 'n) transport_factory" where
  "websocket_factory W C = (''websocket'', transport_init W C)"

text \<open>The factories after the static constructor has run.\<close>

definition static_factories ::
  "('p, 'o, 'n) ws_env \<Rightarrow> ptree config_env \<Rightarrow> (string \<times> ('p, 'o, 'n) transport_factory) list" where
  "static_factories W C = registerFactory (websocket_factory W C) []"

text \<open>The node \<open>mediaServer.net\<close>, if there is one, names the interface in its only child.\<close>

definition create_transport ::
  "(string \<times> ('p, 'o, 'n) transport_factory) list \<Rightarrow> ptree option \<Rightarrow> ptree \<Rightarrow> 'p \<Rightarrow> 'n \<Rightarrow>
   exn + ('p, 'o, 'n) transport" where
  "create_transport factories netConfig config proc n =
     (case netConfig of None \<Rightarrow> Inl (PtreeError ''mediaServer.net'')
      | Some net \<Rightarrow>
          if 1 < length (pt_children net) then
            Inl (PtreeError ''Only one network interface can be configured'')
          else
            case pt_children net of [] \<Rightarrow> Inl (PtreeError ''No network interface is configured'')
            | (nm, _) # _ \<Rightarrow>
                (case map_of factories nm of
                   None \<Rightarrow> Inl (PtreeError ''Configured network interface has not been registered'')
                 | Some factory \<Rightarrow>
                     (case factory config proc n of
                        (Inr _, t) \<Rightarrow> Inr t
                      | (Inl (OutOfRange _), _) \<Rightarrow>
                          Inl (PtreeError ''Configured network interface has not been registered'')
                      | (Inl e, _) \<Rightarrow> Inl e)))"

section \<open>Options\<close>

definition DEFAULT_CONFIG_FILE :: string where
  "DEFAULT_CONFIG_FILE = ''/etc/kurento/kurento.conf.json''"

definition ENV_PREFIX :: string where
  "ENV_PREFIX = ''KURENTO_''"

definition DEFAULT_LOG_FILE_SIZE :: int where
  "DEFAULT_LOG_FILE_SIZE = 100"

definition DEFAULT_LOG_FILE_COUNT :: int where
  "DEFAULT_LOG_FILE_COUNT = 10"

text \<open>The values of the options that are given; the first value stored for one is kept.\<close>

record options =
  op_help :: bool
  op_version :: bool
  op_list :: bool
  op_modules_path :: "string option"
  op_conf_file :: "string option"
  op_logs_path :: "string option"
  op_modules_config_path :: "string option"
  op_log_file_size :: "int option"
  op_number_log_files :: "int option"

definition lower :: "char \<Rightarrow> char" where
  "lower c = (if CHR ''A'' \<le> c \<and> c \<le> CHR ''Z'' then char_of (of_char c + 32 :: nat) else c)"

text \<open>The option an environment variable gives the value of; the empty name for none.\<close>

definition env_option_name :: "(string \<Rightarrow> bool) \<Rightarrow> string \<Rightarrow> string" where
  "env_option_name known input =
     (if prefix ENV_PREFIX input then
        let aux = map (\<lambda>c. if c = CHR ''_'' then CHR ''-'' else lower c) (drop (length ENV_PREFIX) input)
        in if \<not> known aux then [] else aux
      else [])"

definition option_names :: "string list" where
  "option_names =
     [''help'', ''version'', ''list'', ''modules-path'', ''conf-file'', ''logs-path'', ''modules-config-path'',
      ''log-file-size'', ''number-log-files'']"

section \<open>The environment and the state of the process\<close>

record ('w, 'o, 'n) main_env =
  me_parse :: "(string \<Rightarrow> string) \<Rightarrow> string + options" \<comment> \<open>arguments and environment; the names by the function\<close>
  me_color_off :: bool
  me_pid :: int
  me_usage :: string \<comment> \<open>the description of the options\<close>
  me_version :: string
  me_modules :: "'w \<Rightarrow> (string \<times> string) list" \<comment> \<open>names and versions\<close>
  me_factories :: "'w \<Rightarrow> string list"
  me_load_modules :: "string \<Rightarrow> 'w \<Rightarrow> 'w" \<comment> \<open>from the directories of a path\<close>
  me_find_net :: "ptree \<Rightarrow> ptree option" \<comment> \<open>the child \<open>mediaServer.net\<close>\<close>
  me_run :: "('w server, 'o, 'n) transport \<Rightarrow> ('w server, 'o, 'n) transport" \<comment> \<open>the main loop\<close>
  me_delete :: "'w \<Rightarrow> 'w" \<comment> \<open>\<open>MediaSet::deleteMediaSet\<close>\<close>

record ('w, 'o, 'n) main_state =
  mn_crash :: crash_process
  mn_logging :: logging_state
  mn_world :: 'w
  mn_net :: 'n
  mn_config :: ptree
  mn_kill_limit :: "rat option" \<comment> \<open>the slot of \<open>killServerOnLowResources\<close>\<close>
  mn_handled :: "string list" \<comment> \<open>the signals with \<open>signal_handler\<close>\<close>
  mn_transport :: "('w server, 'o, 'n) transport option"
  mn_served :: "('w server, 'o, 'n) transport option" \<comment> \<open>what the main loop was entered with\<close>
  mn_out :: string

type_synonym ('w, 'o, 'n, 'a) main_prog = "(('w, 'o, 'n) main_state, exn, 'a) prog"

definition print :: "string \<Rightarrow> ('w, 'o, 'n, unit) main_prog" where
  "print s = modify (\<lambda>st. st\<lparr>mn_out := mn_out st @ s\<rparr>)"

definition line :: "string \<Rightarrow> string" where
  "line s = s @ [CHR 0x0A]"

definition tabbed :: "string \<Rightarrow> string" where
  "tabbed s = CHR 0x09 # s"

definition print_version :: "('w, 'o, 'n) main_env \<Rightarrow> ('w, 'o, 'n, unit) main_prog" where
  "print_version M =
     andThen (print (line (''Kurento Media Server version: '' @ me_version M))) (\<lambda>_.
     andThen (reads (\<lambda>st. me_modules M (mn_world st))) (\<lambda>modules.
     if modules = [] then ret ()
     else
       print (line ''Found modules:'' @
         concat (map (\<lambda>(nm, ver). line (tabbed (CHR 0x27 # nm @ CHR 0x27 # '' version '' @ ver))) modules))))"

text \<open>The server of requests is made outside of the \<open>try\<close> block, the transport inside it.\<close>

definition is_std_exception :: "exn \<Rightarrow> bool" where
  "is_std_exception e =
     (case e of Undefined _ \<Rightarrow> False | StackOverflow \<Rightarrow> False | NullPointer \<Rightarrow> False | Exit _ \<Rightarrow> False | _ \<Rightarrow> True)"

definition createTransportFromConfig ::
  "('w, 'o, 'n) main_env \<Rightarrow> ('w, 'o, 'f, 'h) kms_env \<Rightarrow> ('w server, 'o, 'n) ws_env \<Rightarrow> ptree config_env \<Rightarrow>
   ('w, 'o, 'n, unit) main_prog" where
  "createTransportFromConfig M E W C =
     andThen (reads mn_config) (\<lambda>config.
     andThen (zoom mn_world (\<lambda>w st. st\<lparr>mn_world := w\<rparr>)
       (server_methods_init E C config (me_version M) limits_init)) (\<lambda>serverMethods.
     andThen (reads id) (\<lambda>st.
     case create_transport (static_factories W C) (me_find_net M config) config
         (fst (serverMethods (mn_world st))) (mn_net st) of
       Inr t \<Rightarrow> modify (\<lambda>st. st\<lparr>mn_transport := Some t\<rparr>)
     | Inl e \<Rightarrow> if is_std_exception e then raise (Exit 1) else raise e)))"

text \<open>A call of an operation of the transport.\<close>

definition on_transport ::
  "(('w server, 'o, 'n) transport, exn, unit) prog \<Rightarrow> ('w, 'o, 'n, unit) main_prog" where
  "on_transport m st =
     (case mn_transport st of
        None \<Rightarrow> (Inl NullPointer, st)
      | Some t \<Rightarrow> (case m t of (r, t') \<Rightarrow> (r, st\<lparr>mn_transport := Some t'\<rparr>)))"

section \<open>\<open>main\<close>\<close>

definition init_logs :: "('w, 'o, 'n) main_env \<Rightarrow> options \<Rightarrow> ('w, 'o, 'n, unit) main_prog" where
  "init_logs M op =
     (case op_logs_path op of None \<Rightarrow> ret ()
      | Some path \<Rightarrow>
          andThen (reads mn_logging) (\<lambda>lg.
          case kms_init_logging_files (me_pid M) path (get_or (op_log_file_size op) DEFAULT_LOG_FILE_SIZE)
              (get_or (op_number_log_files op) DEFAULT_LOG_FILE_COUNT) lg of
            None \<Rightarrow> raise (Undefined ''overflow'')
          | Some (_, lg') \<Rightarrow> modify (\<lambda>st. st\<lparr>mn_logging := lg'\<rparr>)))"

text \<open>Both functions are registered without data.\<close>

definition remove_own_functions :: "logging_state \<Rightarrow> logging_state" where
  "remove_own_functions lg = remove_log_function Kms_log_function (remove_log_function Gst_debug_log_default lg)"

text \<open>The module manager is one for the process, part of the world.\<close>

definition loadModules :: "('w, 'o, 'n) main_env \<Rightarrow> string \<Rightarrow> ('w, 'o, 'n, unit) main_prog" where
  "loadModules M path = modify (\<lambda>st. st\<lparr>mn_world := me_load_modules M path (mn_world st)\<rparr>)"

definition run_options :: "('w, 'o, 'n) main_env \<Rightarrow> options \<Rightarrow> ('w, 'o, 'n, unit) main_prog" where
  "run_options M op =
     andThen (init_logs M op) (\<lambda>_.
     andThen (if op_help op then andThen (print (line (me_usage M))) (\<lambda>_. raise (Exit 0)) else ret ()) (\<lambda>_.
     andThen (modify (\<lambda>st. if op_version op \<or> op_list op then st\<lparr>mn_logging := remove_own_functions (mn_logging st)\<rparr> else st)) (\<lambda>_.
     andThen (loadModules M (get_or (op_modules_path op) [])) (\<lambda>_.
     andThen
       (if op_list op then
          andThen (reads (\<lambda>st. me_factories M (mn_world st))) (\<lambda>factories.
          andThen (print (line ''Available factories:'' @ concat (map (\<lambda>f. line (tabbed f)) factories))) (\<lambda>_.
          raise (Exit 0)))
        else ret ()) (\<lambda>_.
     if op_version op then andThen (print_version M) (\<lambda>_. raise (Exit 0)) else ret ())))))"

definition start_crash_handler :: "('w, 'o, 'n) main_env \<Rightarrow> string \<Rightarrow> crash_process \<Rightarrow> crash_process" where
  "start_crash_handler M fresh p =
     (let p = construct fresh p
      in p\<lparr>statics := set_color_output (\<not> me_color_off M) (set_thread_safe True (statics p))\<rparr>)"

definition main ::
  "('w, 'o, 'n) main_env \<Rightarrow> conf_env \<Rightarrow> ('w, 'o, 'f, 'h) kms_env \<Rightarrow> ('w server, 'o, 'n) ws_env \<Rightarrow>
   ptree config_env \<Rightarrow> string \<Rightarrow> ('w, 'o, 'n, int) main_prog" where
  "main M A E W C fresh =
     andThen (modify (\<lambda>st. st\<lparr>mn_crash := start_crash_handler M fresh (mn_crash st)\<rparr>)) (\<lambda>_.
     case me_parse M (env_option_name (\<lambda>nm. nm \<in> set option_names)) of
       Inl _ \<Rightarrow> raise (Exit 1)
     | Inr op \<Rightarrow>
         andThen (run_options M op) (\<lambda>_.
         andThen (modify (\<lambda>st. st\<lparr>mn_handled := [''SIGINT'', ''SIGTERM'', ''SIGPIPE'']\<rparr>)) (\<lambda>_.
         andThen (zoom mn_config (\<lambda>c st. st\<lparr>mn_config := c\<rparr>)
           (loadConfig A (get_or (op_conf_file op) DEFAULT_CONFIG_FILE)
              (get_or (op_modules_config_path op) []))) (\<lambda>_.
         andThen (modify (\<lambda>st. st\<lparr>mn_kill_limit := cf_float C (mn_config st) ''mediaServer.resources.killLimit''\<rparr>)) (\<lambda>_.
         andThen (createTransportFromConfig M E W C) (\<lambda>_.
         andThen (on_transport (transport_start W)) (\<lambda>_.
         andThen (modify (\<lambda>st. st\<lparr>mn_served := mn_transport st, mn_transport := map_option (me_run M) (mn_transport st)\<rparr>)) (\<lambda>_.
         andThen (on_transport (transport_stop W)) (\<lambda>_.
         andThen (on_transport (modify (\<lambda>t. t\<lparr>tr_proc := (tr_proc t)\<lparr>srv_world := me_delete M (srv_world (tr_proc t))\<rparr>\<rparr>))) (\<lambda>_.
         ret 0))))))))))"

section \<open>Signals\<close>

record loop_state =
  lp_terminated :: bool
  lp_quits :: nat \<comment> \<open>calls of \<open>loop->quit\<close>\<close>

definition signal_handler :: "string \<Rightarrow> loop_state \<Rightarrow> loop_state" where
  "signal_handler signo st =
     (if signo = ''SIGINT'' \<or> signo = ''SIGTERM'' then
        (let st = (if \<not> lp_terminated st then st\<lparr>lp_quits := lp_quits st + 1\<rparr> else st)
         in st\<lparr>lp_terminated := True\<rparr>)
      else st)"


section \<open>Properties\<close>

lemma wp_modify [wp_simps]: "wp (modify f) Q X st \<longleftrightarrow> Q () (f st)"
  by (simp add: modify_def wp_def)

lemma wp_print [wp_simps]: "wp (print s) Q X st \<longleftrightarrow> Q () (st\<lparr>mn_out := mn_out st @ s\<rparr>)"
  by (simp add: print_def wp_simps)

text \<open>A server that has not served yet: an empty cache, and tables of connections that agree.\<close>

definition fresh_server :: "('w server, 'o, 'n) transport \<Rightarrow> bool" where
  "fresh_server t \<longleftrightarrow> srv_cache (tr_proc t) = request_cache_init REQUEST_TIMEOUT \<and> maps_inverse t"

lemma run_options_wp:
  "wp (run_options M op)
     (\<lambda>_ st'. mn_served st' = mn_served st \<and> mn_config st' = mn_config st \<and>
        \<not> op_help op \<and> \<not> op_version op \<and> \<not> op_list op)
     (\<lambda>_ st'. mn_served st' = mn_served st) st"
  by (simp add: run_options_def loadModules_def init_logs_def print_version_def wp_simps split: option.split)

lemma start_wp:
  "wp (transport_start W)
     (\<lambda>_ t'. tr_running t' \<and> tr_hasInsecure t' = tr_hasInsecure t \<and> tr_hasSecure t' = tr_hasSecure t \<and>
        (fresh_server t \<longrightarrow> fresh_server t'))
     (\<lambda>_ _. True) t"
  by (auto simp: transport_start_def wp_simps onNet_def start_registrar_def fresh_server_def maps_inverse_def
      intro!: wp_all)

lemma wp_stop_registrar [wp_simps]:
  "wp stop_registrar Q X t \<longleftrightarrow>
     (case tr_registrar t of None \<Rightarrow> Q () t
      | Some r \<Rightarrow> (case registrar_stop r of
          (Inl e, r') \<Rightarrow> X e (t\<lparr>tr_registrar := Some r'\<rparr>)
        | (Inr _, r') \<Rightarrow> Q () (t\<lparr>tr_registrar := Some r'\<rparr>)))"
  by (simp add: wp_def stop_registrar_def split: option.split prod.split sum.split)

lemma stop_wp: "wp (transport_stop W) (\<lambda>_ t'. \<not> tr_running t') (\<lambda>_ _. True) t"
  by (auto simp: transport_stop_def wp_simps onNet_def intro!: wp_all split: option.split prod.split sum.split)


lemma create_transport_websocket:
  assumes "create_transport (static_factories W C) net config p n = Inr t"
  shows "(tr_hasInsecure t \<or> tr_hasSecure t) \<and> tr_proc t = p \<and> maps_inverse t"
proof -
  have init: "transport_init W C config p n = (Inr (), t)"
    using assms
    by (auto simp: create_transport_def static_factories_def registerFactory_def websocket_factory_def
        split: option.splits list.splits prod.splits if_splits sum.splits exn.splits)
  show ?thesis
    using transport_init_run [OF init] transport_init_proc [OF init] by (simp add: fresh_transport_def maps_inverse_def)
qed

lemma wp_server_methods_init:
  "wp (server_methods_init E C config version limits)
     (\<lambda>mk _. \<forall>w. srv_cache (fst (mk w)) = request_cache_init REQUEST_TIMEOUT) (\<lambda>_ _. True) w"
  using server_methods_init_cache [of E C config version limits w]
  by (auto simp: wp_def split: prod.split sum.split)

text \<open>The transport of a process that has been configured with these options.\<close>

definition ready_to_serve ::
  "('w, 'o, 'n) main_env \<Rightarrow> conf_env \<Rightarrow> ptree \<Rightarrow> ('w, 'o, 'n) main_state \<Rightarrow> bool" where
  "ready_to_serve M A config st \<longleftrightarrow>
     (\<exists>op t. me_parse M (env_option_name (\<lambda>nm. nm \<in> set option_names)) = Inr op \<and>
        \<not> op_help op \<and> \<not> op_version op \<and> \<not> op_list op \<and>
        loadConfig A (get_or (op_conf_file op) DEFAULT_CONFIG_FILE) (get_or (op_modules_config_path op) []) config =
          (Inr (), mn_config st) \<and>
        mn_served st = Some t \<and> tr_running t \<and> (tr_hasInsecure t \<or> tr_hasSecure t) \<and> fresh_server t)"

lemma wp_create_transport:
  "wp (createTransportFromConfig M E W C)
     (\<lambda>_ st'. mn_served st' = mn_served st \<and> mn_config st' = mn_config st \<and>
        (\<exists>t. mn_transport st' = Some t \<and> (tr_hasInsecure t \<or> tr_hasSecure t) \<and> fresh_server t))
     (\<lambda>_ st'. mn_served st' = mn_served st) st"
  unfolding createTransportFromConfig_def
  by (auto simp: wp_simps fresh_server_def dest: create_transport_websocket
      intro!: wp_mono [OF wp_server_methods_init] split: sum.split)

lemma wp_on_transport:
  assumes "mn_transport st = Some t" and "wp m (\<lambda>x t'. Q x (st\<lparr>mn_transport := Some t'\<rparr>)) (\<lambda>e t'. X e (st\<lparr>mn_transport := Some t'\<rparr>)) t"
  shows "wp (on_transport m) Q X st"
  using assms by (auto simp: wp_def on_transport_def split: prod.splits sum.splits)


text \<open>From the transport's construction to the end of \<open>main\<close>, which is the part that serves.\<close>

lemma wp_finish:
  assumes "ready_to_serve M A config s" and "mn_transport s = Some t"
  shows "wp (andThen (on_transport (transport_stop W)) (\<lambda>_.
      andThen (on_transport (modify (\<lambda>t. t\<lparr>tr_proc := (tr_proc t)\<lparr>srv_world := me_delete M (srv_world (tr_proc t))\<rparr>\<rparr>))) (\<lambda>_.
      ret 0)))
     (\<lambda>n s'. n = (0 :: int) \<and> ready_to_serve M A config s' \<and> (\<exists>t. mn_transport s' = Some t \<and> \<not> tr_running t))
     (\<lambda>_ s'. (\<exists>y. mn_served s' = Some y) \<longrightarrow> ready_to_serve M A config s') s"
proof -
  have "ready_to_serve M A config (s\<lparr>mn_transport := x\<rparr>)" for x
    using assms(1) by (simp add: ready_to_serve_def)
  then show ?thesis
    unfolding wp_andThen
    by (intro wp_on_transport [OF assms(2)] wp_mono [OF stop_wp])
      (auto simp: wp_simps intro!: wp_on_transport)
qed

lemma wp_serve:
  assumes "me_parse M (env_option_name (\<lambda>nm. nm \<in> set option_names)) = Inr op"
    and "\<not> op_help op" and "\<not> op_version op" and "\<not> op_list op"
    and "loadConfig A (get_or (op_conf_file op) DEFAULT_CONFIG_FILE) (get_or (op_modules_config_path op) []) config =
      (Inr (), mn_config s)"
    and "mn_served s = None"
  shows "wp (andThen (createTransportFromConfig M E W C) (\<lambda>_.
      andThen (on_transport (transport_start W)) (\<lambda>_.
      andThen (modify (\<lambda>st. st\<lparr>mn_served := mn_transport st, mn_transport := map_option (me_run M) (mn_transport st)\<rparr>)) (\<lambda>_.
      andThen (on_transport (transport_stop W)) (\<lambda>_.
      andThen (on_transport (modify (\<lambda>t. t\<lparr>tr_proc := (tr_proc t)\<lparr>srv_world := me_delete M (srv_world (tr_proc t))\<rparr>\<rparr>))) (\<lambda>_.
      ret 0))))))
     (\<lambda>n s'. n = (0 :: int) \<and> ready_to_serve M A config s' \<and> (\<exists>t. mn_transport s' = Some t \<and> \<not> tr_running t))
     (\<lambda>_ s'. (\<exists>y. mn_served s' = Some y) \<longrightarrow> ready_to_serve M A config s') s"
  apply (subst wp_andThen)
  apply (rule wp_mono [OF wp_create_transport])
  subgoal for x s'
    apply (elim conjE exE)
    subgoal for t
      apply (subst wp_andThen)
      apply (rule wp_on_transport, assumption)
      apply (rule wp_mono [OF start_wp])
      subgoal for y t'
        apply (subst wp_andThen, subst wp_modify)
        apply (rule wp_finish)
        using assms by (auto simp: ready_to_serve_def)
      using assms by simp
    done
  using assms by simp

lemma main_wp:
  assumes "mn_served st = None"
  shows "wp (main M A E W C fresh)
     (\<lambda>n s'. n = (0 :: int) \<and> ready_to_serve M A (mn_config st) s' \<and> (\<exists>t. mn_transport s' = Some t \<and> \<not> tr_running t))
     (\<lambda>_ s'. (\<exists>y. mn_served s' = Some y) \<longrightarrow> ready_to_serve M A (mn_config st) s') st"
proof (cases "me_parse M (env_option_name (\<lambda>nm. nm \<in> set option_names))")
  case (Inl msg)
  then show ?thesis using assms by (simp add: main_def wp_simps)
next
  case (Inr op)
  show ?thesis
    unfolding main_def Inr sum.case
    apply (subst wp_andThen, subst wp_modify)
    apply (subst wp_andThen)
    apply (rule wp_mono [OF run_options_wp])
    subgoal for x s
      apply (subst wp_andThen, subst wp_modify)
      apply (subst wp_andThen, subst wp_zoom)
      subgoal premises run
      proof (cases "loadConfig A (get_or (op_conf_file op) DEFAULT_CONFIG_FILE) (get_or (op_modules_config_path op) []) (mn_config st)")
        case (Pair r c)
        then have load: "wp (loadConfig A (get_or (op_conf_file op) DEFAULT_CONFIG_FILE)
              (get_or (op_modules_config_path op) [])) Q X (mn_config st) \<longleftrightarrow>
            (case r of Inl e \<Rightarrow> X e c | Inr x \<Rightarrow> Q x c)" for Q X
          by (rule wp_run)
        show ?thesis
          using run assms Pair
          by (cases r) (auto simp: load wp_andThen [of "modify _"] wp_modify intro!: wp_serve [OF Inr])
      qed
      done
    using assms by simp
qed


text \<open>
  C18. The process serves only what has been set up completely: if the main loop of \<open>main\<close> is entered,
  the options were valid and asked for no list, help or version, the configuration was loaded without
  an error, and the transport has a server that listens and was started, no connection is inconsistent
  and no response is cached. \<open>main\<close> returns only then, with
  0, and with the transport stopped; on every other path the process ends earlier.
\<close>

theorem main_serves_only_when_ready:
  assumes "main M A E W C fresh st = (r, st')" and "mn_served st = None"
  shows "(mn_served st' \<noteq> None \<longrightarrow> ready_to_serve M A (mn_config st) st') \<and>
    (\<forall>n. r = Inr n \<longrightarrow> n = 0 \<and> mn_served st' \<noteq> None \<and> (\<exists>t. mn_transport st' = Some t \<and> \<not> tr_running t))"
  using main_wp [OF assms(2), of M A E W C fresh]
  by (cases r) (auto simp: wp_run [where m = "main M A E W C fresh", OF assms(1)] ready_to_serve_def)

definition demo_tree_config :: "ptree config_env" where
  "demo_tree_config =
     \<lparr>cf_int = (\<lambda>_ _. None), cf_uint = (\<lambda>_ _. None),
      cf_port = (\<lambda>_ p. if p = ''mediaServer.net.websocket.port'' then Some 8888 else None),
      cf_bool = (\<lambda>_ _. None), cf_float = (\<lambda>_ _. None), cf_string = (\<lambda>_ _. None)\<rparr>"

definition demo_main_env :: "(demo_world, string, (bool \<times> nat \<times> string) list) main_env" where
  "demo_main_env =
     \<lparr>me_parse = (\<lambda>_. Inr \<lparr>op_help = False, op_version = False, op_list = False, op_modules_path = None,
        op_conf_file = Some ''etc/kurento.conf.json'', op_logs_path = None,
        op_modules_config_path = Some ''none'', op_log_file_size = None, op_number_log_files = None\<rparr>),
      me_color_off = True, me_pid = 1, me_usage = ''usage'', me_version = ''6.0'', me_modules = (\<lambda>_. []),
      me_factories = (\<lambda>_. []), me_load_modules = (\<lambda>_ w. w),
      me_find_net = (\<lambda>_. Some (PTree [] [(''websocket'', pt_empty)])),
      me_run = (\<lambda>t. t), me_delete = (\<lambda>w. w)\<rparr>"

definition demo_main_state :: "(demo_world, string, (bool \<times> nat \<times> string) list) main_state" where
  "demo_main_state =
     \<lparr>mn_crash = \<lparr>statics = static_members, handled = []\<rparr>,
      mn_logging = \<lparr>lg_functions = [Gst_debug_log_default], lg_sink = None, lg_restores = False\<rparr>,
      mn_world = \<lparr>dw_uuid = 0, dw_calls = []\<rparr>, mn_net = [], mn_config = pt_empty, mn_kill_limit = None,
      mn_handled = [], mn_transport = None, mn_served = None, mn_out = []\<rparr>"

lemma demo_load:
  "\<exists>c. loadConfig demo_conf_env ''etc/kurento.conf.json'' ''none'' pt_empty = (Inr (), c)"
proof -
  have "fst (loadConfig demo_conf_env ''etc/kurento.conf.json'' ''none'' pt_empty) = Inr ()" by code_simp
  then show ?thesis by (metis prod.collapse)
qed

abbreviation demo_kms :: "(demo_world, string, string, string ws_event_handler) kms_env" where
  "demo_kms \<equiv> demo_env_of"

lemma demo_server_init:
  "\<exists>mk w'. server_methods_init demo_kms demo_tree_config config v limits w = (Inr mk, w')"
  by (simp add: server_methods_init_def andThen_def demo_tree_config_def demo_env_def demo_call_def
      get_or_def split: prod.split)

lemma demo_websocket:
  "\<exists>t. create_transport (static_factories demo_server_ws demo_tree_config)
     (Some (PTree [] [(''websocket'', pt_empty)])) config p n = Inr t \<and> tr_registrar t = None"
  by (simp add: create_transport_def static_factories_def registerFactory_def websocket_factory_def
      transport_init_def demo_tree_config_def demo_server_ws_def initWebSocket_def initSecureWebSocket_def
      initRegistrar_def listen_any_def catch_websocket_def onNet_def zoom_def andThen_def handle_def modify_def
      get_or_def split: prod.split)

lemma demo_start:
  "tr_registrar t = None \<Longrightarrow> \<exists>t'. transport_start demo_server_ws t = (Inr (), t') \<and> tr_registrar t' = None"
  by (simp add: transport_start_def andThen_def demo_server_ws_def onNet_def zoom_def modify_def start_registrar_def)

lemma demo_stop: "tr_registrar t = None \<Longrightarrow> \<exists>t'. transport_stop demo_server_ws t = (Inr (), t')"
  by (simp add: transport_stop_def andThen_def demo_server_ws_def onNet_def zoom_def modify_def stop_registrar_def)

lemma demo_main:
  "\<exists>st' t. main demo_main_env demo_conf_env demo_kms demo_server_ws demo_tree_config [] demo_main_state = (Inr 0, st') \<and>
     mn_served st' = Some t"
proof -
  obtain c where c: "loadConfig demo_conf_env ''etc/kurento.conf.json'' ''none'' pt_empty = (Inr (), c)"
    using demo_load by blast
  obtain mk w' where init: "server_methods_init demo_kms demo_tree_config c ''6.0'' limits_init \<lparr>dw_uuid = 0, dw_calls = []\<rparr> = (Inr mk, w')"
    using demo_server_init by blast
  obtain t where t: "create_transport (static_factories demo_server_ws demo_tree_config)
     (Some (PTree [] [(''websocket'', pt_empty)])) c (fst (mk w')) [] = Inr t" "tr_registrar t = None"
    using demo_websocket by blast
  obtain t' where t': "transport_start demo_server_ws t = (Inr (), t')" "tr_registrar t' = None"
    using demo_start [OF t(2)] by blast
  obtain t'' where t'': "transport_stop demo_server_ws t' = (Inr (), t'')" using demo_stop [OF t'(2)] by blast
  show ?thesis
    by (simp add: main_def modify_def andThen_def run_options_def loadModules_def init_logs_def demo_main_env_def demo_main_state_def
        c zoom_def createTransportFromConfig_def init t on_transport_def t' t'' get_or_def)
qed

lemma main_serves_only_when_ready_witness:
  "\<exists>st'. main demo_main_env demo_conf_env demo_kms demo_server_ws demo_tree_config [] demo_main_state = (Inr 0, st') \<and>
     ready_to_serve demo_main_env demo_conf_env pt_empty st' \<and>
     (\<exists>t. mn_transport st' = Some t \<and> \<not> tr_running t)"
proof -
  obtain st' where run: "main demo_main_env demo_conf_env demo_kms demo_server_ws demo_tree_config [] demo_main_state = (Inr 0, st')"
    using demo_main by blast
  have "mn_served demo_main_state = None" "mn_config demo_main_state = pt_empty"
    by (simp_all add: demo_main_state_def)
  then show ?thesis using main_serves_only_when_ready [OF run] run by auto
qed

text \<open>
  However many signals arrive, and in whatever order, the main loop is told to quit once if one of
  them is \<open>SIGINT\<close> or \<open>SIGTERM\<close>, and not at all otherwise.
\<close>

theorem loop_quits_once:
  "lp_quits (fold signal_handler signals \<lparr>lp_terminated = False, lp_quits = 0\<rparr>) =
     (if ''SIGINT'' \<in> set signals \<or> ''SIGTERM'' \<in> set signals then 1 else 0)"
proof -
  have "fold signal_handler ss \<lparr>lp_terminated = True, lp_quits = n\<rparr> = \<lparr>lp_terminated = True, lp_quits = n\<rparr>" for ss n
    by (induction ss) (auto simp: signal_handler_def Let_def)
  then show ?thesis
    by (induction signals) (auto simp: signal_handler_def Let_def)
qed















end
