(* ===== verification/Reply_Format.thy ===== *)
theory Reply_Format
  imports Server_Rpc
begin

text \<open>
  The format of the replies: for each method of the table, the members of its result, in the order of
  the map, and where their values come from. A result of any other form, with a member too many, too
  few or in the place of another, is not one the server sends.
\<close>

section \<open>The format\<close>

inductive reply_format ::
  "('w, 'o, 'f, 'h) kms_env \<Rightarrow> string \<Rightarrow> string \<Rightarrow> json \<Rightarrow> bool"
  for E :: "('w, 'o, 'f, 'h) kms_env" and instanceId :: string where
  connected: "reply_format E instanceId ''connect''
    (JObject [(''serverId'', JString instanceId), (''sessionId'', JString sid)])"
| created: "reply_format E instanceId ''create''
    (JObject [(''sessionId'', JString sid), (''value'', JString (obj_getId E obj))])"
| invoked: "reply_format E instanceId ''invoke'' (JObject [(''sessionId'', JString sid), (''value'', v)])"
| subscribed: "handlerId \<noteq> [] \<Longrightarrow> reply_format E instanceId ''subscribe''
    (JObject [(''sessionId'', JString sid), (''value'', JString handlerId)])"
| acknowledged: "nm \<in> set [''unsubscribe'', ''release'', ''ref'', ''unref'', ''keepAlive''] \<Longrightarrow>
    reply_format E instanceId nm (JObject [(''sessionId'', JString sid)])"
| described: "reply_format E instanceId ''describe''
    (JObject [(''hierarchy'', serializeStrings E (obj_getHierarchy E obj)),
       (''qualifiedType'', JString (obj_getQualifiedType E obj)), (''sessionId'', JString sid),
       (''type'', JString (obj_getType E obj))])"
| transacted: "reply_format E instanceId ''transaction''
    (JObject [(''sessionId'', JString sid), (''value'', JArray vs)])"
| ping_alone: "reply_format E instanceId ''ping'' (JObject [(''value'', JString ''pong'')])"
| ping_session: "reply_format E instanceId ''ping''
    (JObject [(''sessionId'', JString sid), (''value'', JString ''pong'')])"
| session_closed: "reply_format E instanceId ''closeSession'' JNull"

section \<open>The methods\<close>













section \<open>Properties\<close>



end
