(* ===== verification/Crash_Report.thy ===== *)
theory Crash_Report
  imports Death_Handler
begin

text \<open>
  What the frames of a crash report say: the name of the function in brackets, then the location
  in its source, shortened. The shortening is stated as a function on strings, and \<open>print_frame\<close>,
  which moves pointers over the block of memory, writes what that function gives.
\<close>

section \<open>Shortened locations\<close>

text \<open>Without the directories shared with the working directory, whose name ends in a slash.\<close>

definition without_common_root :: "string \<Rightarrow> string \<Rightarrow> string" where
  "without_common_root dir path =
     (let common = longest_common_prefix dir path;
          n = length common - length (takeWhile (\<lambda>c. c \<noteq> CHR ''/'') (rev common))
      in if 1 < n then drop n path else path)"

text \<open>Behind the first \<open>../\<close> and those that follow it at once.\<close>

definition without_relative :: "string \<Rightarrow> string" where
  "without_relative path =
     (case find_sub ''../'' path of None \<Rightarrow> path
      | Some k \<Rightarrow> drop (k + 3 + skip_relative (drop (k + 3) path)) path)"

definition shortened :: "death_handler \<Rightarrow> string \<Rightarrow> string \<Rightarrow> string" where
  "shortened d dir path =
     (let path = (if s_cut_common_path_root d then without_common_root dir path else path)
      in if s_cut_relative_paths d then without_relative path else path)"

section \<open>Steps in memory\<close>

lemma strcat_step:
  assumes "holds (mem st) p s" and "source_str src st = (Inr t, st)" and "NUL \<notin> set t"
    and "length s + length t < n" and "p + n \<le> length (mem st)" and "\<not> overlaps src (p + length s) (Suc (length t))"
  obtains m' where "strcat p src st = (Inr (), st\<lparr>mem := m'\<rparr>)" and "holds m' p (s @ t)"
    and "same_outside p n (mem st) m'"
proof -
  let ?m = "overwrite (mem st) (p + length s) (t @ [NUL])"
  have "strcat p src st = (Inr (), st\<lparr>mem := ?m\<rparr>)" using assms by (intro strcat_run) simp_all
  moreover have "holds ?m p (s @ t)" using assms by (intro holds_put_end) simp_all
  moreover have "same_outside p n (mem st) ?m" using assms by (intro same_outside_overwrite) simp_all
  ultimately show ?thesis by (rule that)
qed

lemma same_outside_length: "same_outside p n m m' \<Longrightarrow> length m' = length m"
  by (simp add: same_outside_def)

lemma holds_length: "holds m p s \<Longrightarrow> p + length s < length m"
  by (simp add: holds_nth)

lemma holds_drop: "holds m p (s @ t) \<Longrightarrow> holds m (p + length s) t"
  by (auto simp: holds_def) (metis append.assoc length_append)

lemma holds_advance:
  assumes "holds m p (v @ w)" and "k \<le> length v"
  shows "holds m (p + k) (drop k v @ w)"
proof -
  have "take k v @ drop k v @ w = v @ w" by (metis append.assoc append_take_drop_id)
  then have "holds m p (take k v @ drop k v @ w)" using assms(1) by (simp only:)
  from holds_drop [OF this] show ?thesis using assms(2) by (simp add: min_absorb2)
qed

lemma holds_truncate:
  "holds m p (s @ t) \<Longrightarrow> holds (overwrite m (p + length s) [NUL]) p s"
  by (auto simp: holds_nth nth_overwrite nth_append)

lemma put_NUL_run: "p < length (mem st) \<Longrightarrow> put p [NUL] st = (Inr (), st\<lparr>mem := overwrite (mem st) p [NUL]\<rparr>)"
  by (simp add: put_def)

text \<open>Writing works.\<close>

definition writes_all :: "crash_env \<Rightarrow> bool" where
  "writes_all A \<longleftrightarrow> (\<forall>s. s \<noteq> [] \<longrightarrow> os_write A s = int (length s))"

lemma print_run:
  assumes "writes_all A" and "holds (mem st) p s" and "s \<noteq> []"
  shows "print2stderr (os_write A) p st = (Inr (), st\<lparr>events := events st @ [ToStderr s]\<rparr>)"
  using assms by (simp add: print2stderr_def andThen_def load_str_run write_err_def writes_all_def event_def)

section \<open>The line of the function\<close>

lemma function_line_run:
  assumes "\<not> s_color_output d" and "\<not> s_append_pid d" and "writes_all A"
    and f: "holds (mem st) line f" and apart: "line + length f < msg" and room: "msg + length f + 4 \<le> length (mem st)"
  obtains m' where "function_line A d line msg st =
      (Inr (), st\<lparr>mem := m', events := events st @ [ToStderr (''['' @ f @ '']'' @ [CHR 0x0A])]\<rparr>)"
    and "same_outside msg (length f + 4) (mem st) m'"
proof -
  let ?n = "length f + 4"
  let ?m0 = "overwrite (mem st) msg [NUL]"
  have h0: "holds ?m0 msg []" "same_outside msg ?n (mem st) ?m0"
    using room holds_put [of msg "[]" "mem st"] by (simp_all add: same_outside_overwrite)
  note len = same_outside_length
  have fits: "msg + ?n \<le> length (mem st)" using room by simp
  obtain m1 where m1: "strcat msg (Lit ''['') (st\<lparr>mem := ?m0\<rparr>) = (Inr (), st\<lparr>mem := m1\<rparr>)"
    "holds m1 msg ''[''" "same_outside msg ?n ?m0 m1"
    by (rule strcat_step [of "st\<lparr>mem := ?m0\<rparr>" msg "[]" "Lit ''[''" "''[''" ?n])
      (use h0 fits in \<open>simp_all add: source_str_def overlaps_def\<close>)
  have s1: "same_outside msg ?n (mem st) m1" by (rule same_outside_trans [OF h0(2) m1(3)])
  have f1: "holds m1 line f" by (rule same_outside_holds [OF s1 f]) (use apart in simp)
  obtain m2 where m2: "strcat msg (At line) (st\<lparr>mem := m1\<rparr>) = (Inr (), st\<lparr>mem := m2\<rparr>)"
    "holds m2 msg (''['' @ f)" "same_outside msg ?n m1 m2"
    by (rule strcat_step [of "st\<lparr>mem := m1\<rparr>" msg "''[''" "At line" f ?n])
      (use m1(2) f1 fits apart len [OF s1] in \<open>simp_all add: source_str_def load_str_run overlaps_def holds_def\<close>)
  have s2: "same_outside msg ?n (mem st) m2" by (rule same_outside_trans [OF s1 m2(3)])
  obtain m3 where m3: "strcat msg (Lit '']'') (st\<lparr>mem := m2\<rparr>) = (Inr (), st\<lparr>mem := m3\<rparr>)"
    "holds m3 msg ((''['' @ f) @ '']'')" "same_outside msg ?n m2 m3"
    by (rule strcat_step [of "st\<lparr>mem := m2\<rparr>" msg "''['' @ f" "Lit '']''" "'']''" ?n])
      (use m2(2) fits len [OF s2] in \<open>simp_all add: source_str_def overlaps_def\<close>)
  have s3: "same_outside msg ?n (mem st) m3" by (rule same_outside_trans [OF s2 m3(3)])
  obtain m4 where m4: "strcat msg (Lit [CHR 0x0A]) (st\<lparr>mem := m3\<rparr>) = (Inr (), st\<lparr>mem := m4\<rparr>)"
    "holds m4 msg (((''['' @ f) @ '']'') @ [CHR 0x0A])" "same_outside msg ?n m3 m4"
    by (rule strcat_step [of "st\<lparr>mem := m3\<rparr>" msg "(''['' @ f) @ '']''" "Lit [CHR 0x0A]" "[CHR 0x0A]" ?n])
      (use m3(2) fits len [OF s3] in \<open>simp_all add: source_str_def overlaps_def\<close>)
  have s4: "same_outside msg ?n (mem st) m4" by (rule same_outside_trans [OF s3 m4(3)])
  have "function_line A d line msg st =
      (Inr (), st\<lparr>mem := m4, events := events st @ [ToStderr (''['' @ f @ '']'' @ [CHR 0x0A])]\<rparr>)"
    using put_NUL_run [of msg st] room m1(1) m2(1) m3(1) m4(1) print_run [OF assms(3), of "st\<lparr>mem := m4\<rparr>" msg] m4(2)
    by (simp add: function_line_def assms(1,2) only_if_def andThen_def)
  then show ?thesis using s4 by (rule that)
qed

section \<open>The location\<close>

abbreviation NL :: char where
  "NL \<equiv> CHR 0x0A"

lemma lcp_nth: "j < length (longest_common_prefix xs ys) \<Longrightarrow> xs ! j = ys ! j"
  by (metis longest_common_prefix_prefix1 longest_common_prefix_prefix2 prefix_def nth_append)

lemma lcp_length:
  "length (longest_common_prefix xs ys) \<le> length xs" "length (longest_common_prefix xs ys) \<le> length ys"
  by (simp_all add: prefix_length_le longest_common_prefix_prefix1 longest_common_prefix_prefix2)

lemma lcp_stops:
  "length (longest_common_prefix xs ys) < length xs \<Longrightarrow> length (longest_common_prefix xs ys) < length ys \<Longrightarrow>
   xs ! length (longest_common_prefix xs ys) \<noteq> ys ! length (longest_common_prefix xs ys)"
  by (induction xs ys rule: longest_common_prefix.induct) auto

lemma lcp_before_end:
  assumes "c \<notin> set xs"
  shows "length (longest_common_prefix xs (ys @ [c])) \<le> length ys"
proof (rule ccontr)
  let ?k = "length ys"
  assume "\<not> ?thesis"
  then have "xs ! ?k = c" "?k < length xs"
    using lcp_nth [of ?k xs "ys @ [c]"] lcp_length(1) [of xs "ys @ [c]"] by simp_all
  then show False using assms nth_mem by blast
qed

lemma common_length_run:
  assumes a: "holds m a dir" and b: "holds m b (u @ [NL])" and "NL \<notin> set dir"
  shows "common_length m a b 0 = Some (length (longest_common_prefix dir (u @ [NL])))"
proof -
  let ?k = "length (longest_common_prefix dir (u @ [NL]))"
  note le = lcp_length(1) [of dir "u @ [NL]"] lcp_before_end [OF assms(3), of u]
  note ma = a [unfolded holds_nth] and mb = b [unfolded holds_nth]
  have same: "m ! (a + j) = m ! (b + j)" if "j < ?k" for j
    using ma mb le that lcp_nth [OF that] by auto
  have "m ! (b + ?k) = (u @ [NL]) ! ?k" and t: "(u @ [NL]) ! ?k \<noteq> NUL"
    using mb le nth_mem [of ?k "u @ [NL]"] by auto
  then have differ: "m ! (a + ?k) \<noteq> m ! (b + ?k)"
    using ma le lcp_stops [of dir "u @ [NL]"] by (cases "?k = length dir") auto
  have "common_length m a b i = Some ?k" if "i \<le> ?k" for i
    using that
  proof (induction "?k - i" arbitrary: i)
    case 0
    then show ?case using differ ma mb le by (subst common_length.simps) auto
  next
    case (Suc n)
    then have "i < ?k" "n = ?k - Suc i" by simp_all
    then show ?case using Suc.hyps(1) [of "Suc i"] same [of i] ma mb le by (subst common_length.simps) auto
  qed
  then show ?thesis by simp
qed

lemma back_to_slash_string:
  "(\<And>j. j < length c \<Longrightarrow> b + j < length m \<and> m ! (b + j) = c ! j) \<Longrightarrow>
   back_to_slash m (b + length c) =
     (if CHR ''/'' \<in> set c then Some (b + (length c - length (takeWhile (\<lambda>x. x \<noteq> CHR ''/'') (rev c))))
      else back_to_slash m b)"
proof (induction c rule: rev_induct)
  case (snoc x c)
  have x: "b + length c < length m" "m ! (b + length c) = x" using snoc.prems [of "length c"] by simp_all
  have "b + j < length m \<and> m ! (b + j) = c ! j" if "j < length c" for j
    using snoc.prems [of j] that by (simp add: nth_append)
  note IH = snoc.IH [OF this]
  show ?case using x IH by simp
qed simp

lemma back_to_slash_some: "q < p \<Longrightarrow> p \<le> length m \<Longrightarrow> m ! q = CHR ''/'' \<Longrightarrow> \<exists>r \<le> p. back_to_slash m p = Some r"
  by (induction p) (auto simp: less_Suc_eq)

lemma cut_common_root_run:
  assumes a: "holds (mem st) cwd dir" and b: "holds (mem st) line (u @ [NL])" and dir: "NL \<notin> set dir" "CHR ''/'' \<in> set dir"
    and apart: "cwd + length dir < line"
  obtains k where "cut_common_root cwd line st = (Inr (line + k), st)" and "k \<le> length u"
    and "without_common_root dir (u @ [NL]) = drop k u @ [NL]"
proof -
  let ?c = "longest_common_prefix dir (u @ [NL])"
  let ?n = "length ?c - length (takeWhile (\<lambda>c. c \<noteq> CHR ''/'') (rev ?c))"
  note len = lcp_before_end [OF dir(1), of u]
  have c: "line + j < length (mem st) \<and> mem st ! (line + j) = ?c ! j" if "j < length ?c" for j
  proof -
    have "?c ! j = (u @ [NL]) ! j"
      using that longest_common_prefix_prefix2 [of dir "u @ [NL]"] by (metis prefix_def nth_append)
    then show ?thesis using b that len by (simp add: holds_nth)
  qed
  obtain j where j: "j < length dir" "dir ! j = CHR ''/''" using dir(2) by (auto simp: in_set_conv_nth)
  obtain r where r: "back_to_slash (mem st) line = Some r" "r \<le> line"
    using back_to_slash_some [of "cwd + j" line "mem st"] a b j apart by (auto simp: holds_nth)
  have none: "?n = 0" if "CHR ''/'' \<notin> set ?c" using that by (subst takeWhile_eq_all_conv [THEN iffD2]) auto
  let ?k = "if 1 < ?n then ?n else 0"
  have "cut_common_root cwd line st = (Inr (line + ?k), st)"
    using common_length_run [OF a b dir(1)] back_to_slash_string [of ?c line "mem st", OF c] r none
    by (auto simp: cut_common_root_def andThen_def)
  moreover have "?k \<le> length u" by (rule le_trans [OF _ len]) simp
  moreover have "without_common_root dir (u @ [NL]) = drop ?k (u @ [NL])"
    by (simp add: without_common_root_def Let_def del: drop_append)
  then have "without_common_root dir (u @ [NL]) = drop ?k u @ [NL]"
    using diff_is_0_eq [THEN iffD2, OF calculation(2)] by (simp only: drop_append drop_0)
  ultimately show ?thesis by (rule that)
qed

lemma find_sub_prefix: "find_sub pat s = Some k \<Longrightarrow> prefix pat (drop k s)"
  by (induction pat s arbitrary: k rule: find_sub.induct) (auto split: if_splits)

lemma prefix_before_end: "prefix pat (v @ [c]) \<Longrightarrow> c \<notin> set pat \<Longrightarrow> prefix pat v"
  by (auto simp: prefix_snoc)

lemma skip_relative_before_end: "skip_relative (v @ [NL]) \<le> length v"
proof (induction v rule: length_induct)
  case (1 v)
  show ?case
  proof (cases "prefix ''../'' (v @ [NL])")
    case True
    then have "prefix ''../'' v" by (rule prefix_before_end) simp
    then obtain w where v: "v = ''../'' @ w" by (auto simp: prefix_def)
    then show ?thesis using 1 [rule_format, of w] by (subst skip_relative.simps) simp
  qed (subst skip_relative.simps, simp)
qed

lemma cut_relative_run:
  assumes "holds (mem st) line (v @ [NL])"
  obtains k where "cut_relative line st = (Inr (line + k), st)" and "k \<le> length v"
    and "without_relative (v @ [NL]) = drop k v @ [NL]"
proof (cases "find_sub ''../'' (v @ [NL])")
  case None
  then show ?thesis
    using that [of 0] assms by (simp add: cut_relative_def without_relative_def andThen_def load_str_run)
next
  case (Some k)
  have "k \<le> length v"
    using find_sub_prefix [OF Some] by (cases "k \<le> length v") simp_all
  then have "prefix ''../'' (drop k v @ [NL])" using find_sub_prefix [OF Some] by simp
  then have "prefix ''../'' (drop k v)" by (rule prefix_before_end) simp
  then have k3: "k + 3 \<le> length v" using prefix_length_le by fastforce
  then have "skip_relative (drop (k + 3) v @ [NL]) \<le> length v - (k + 3)"
    using skip_relative_before_end [of "drop (k + 3) v"] by simp
  then show ?thesis
    using that [of "k + 3 + skip_relative (drop (k + 3) v @ [NL])"] assms Some k3
    by (simp add: cut_relative_def without_relative_def andThen_def load_str_run add.assoc)
qed

lemma shortened_run:
  assumes a: "holds (mem st) cwd dir" and b: "holds (mem st) line (u @ [NL])" and dir: "NL \<notin> set dir" "CHR ''/'' \<in> set dir"
    and apart: "cwd + length dir < line"
  obtains k where "\<And>f :: nat \<Rightarrow> nat crash_prog. andThen (if s_cut_common_path_root d then cut_common_root cwd line else ret line) (\<lambda>line.
      andThen (if s_cut_relative_paths d then cut_relative line else ret line) f) st = f (line + k) st"
    and "k \<le> length u" and "shortened d dir (u @ [NL]) = drop k u @ [NL]"
proof -
  have "\<exists>i \<le> length u. (if s_cut_common_path_root d then cut_common_root cwd line else ret line) st =
      (Inr (line + i), st) \<and>
    (if s_cut_common_path_root d then without_common_root dir (u @ [NL]) else u @ [NL]) = drop i u @ [NL]"
  proof (cases "s_cut_common_path_root d")
    case True
    show ?thesis
      by (rule cut_common_root_run [of st cwd dir line u]) (use True assms in auto)
  qed (auto intro: exI [of _ 0])
  then obtain i where i: "i \<le> length u"
    "(if s_cut_common_path_root d then cut_common_root cwd line else ret line) st = (Inr (line + i), st)"
    "(if s_cut_common_path_root d then without_common_root dir (u @ [NL]) else u @ [NL]) = drop i u @ [NL]"
    by blast
  have loc: "holds (mem st) (line + i) (drop i u @ [NL])" by (rule holds_advance [OF b i(1)])
  have "\<exists>j \<le> length (drop i u). (if s_cut_relative_paths d then cut_relative (line + i) else ret (line + i)) st =
      (Inr (line + i + j), st) \<and>
    (if s_cut_relative_paths d then without_relative (drop i u @ [NL]) else drop i u @ [NL]) = drop j (drop i u) @ [NL]"
  proof (cases "s_cut_relative_paths d")
    case True
    show ?thesis
      by (rule cut_relative_run [of st "line + i" "drop i u"]) (use True loc in auto)
  qed (auto intro: exI [of _ 0])
  then obtain j where j: "j \<le> length (drop i u)"
    "(if s_cut_relative_paths d then cut_relative (line + i) else ret (line + i)) st = (Inr (line + i + j), st)"
    "(if s_cut_relative_paths d then without_relative (drop i u @ [NL]) else drop i u @ [NL]) = drop j (drop i u) @ [NL]"
    by blast
  show ?thesis
  proof (rule that [of "i + j"])
    show "shortened d dir (u @ [NL]) = drop (i + j) u @ [NL]"
      unfolding shortened_def Let_def i(3) using j(3) by (simp add: add.commute)
    show "andThen (if s_cut_common_path_root d then cut_common_root cwd line else ret line) (\<lambda>line.
      andThen (if s_cut_relative_paths d then cut_relative line else ret line) f) st = f (line + (i + j)) st" for f :: "nat \<Rightarrow> nat crash_prog"
      by (simp only: andThen_Inr i(2) j(2) add.assoc)
  qed (use i(1) j(1) in simp)
qed

section \<open>A frame\<close>

lemma find_sub_char: "c \<notin> set f \<Longrightarrow> find_sub [c] (f @ c # t) = Some (length f)"
  by (induction f) auto

lemma print_location_run:
  assumes "\<not> s_append_pid d" and "writes_all A" and h: "holds (mem st) p (v @ [NL])"
  obtains m' where "\<And>x. andThen (drop_last_char p) (\<lambda>_.
       andThen (only_if (s_append_pid d) x) (\<lambda>_.
       andThen (strcat p (Lit [NL])) (\<lambda>_. print2stderr (os_write A) p))) st =
    (Inr (), st\<lparr>mem := m', events := events st @ [ToStderr (v @ [NL])]\<rparr>)"
proof -
  let ?m = "overwrite (mem st) (p + length v) [NUL]"
  have len: "p + length v + 1 < length (mem st)" using holds_length [OF h] by simp
  have drop: "drop_last_char p st = (Inr (), st\<lparr>mem := ?m\<rparr>)"
    using load_str_run [OF h] len by (simp add: drop_last_char_def andThen_def put_NUL_run)
  have h': "holds ?m p v" by (rule holds_truncate [OF h])
  obtain m' where m': "strcat p (Lit [NL]) (st\<lparr>mem := ?m\<rparr>) = (Inr (), st\<lparr>mem := m'\<rparr>)" "holds m' p (v @ [NL])"
    by (rule strcat_step [of "st\<lparr>mem := ?m\<rparr>" p v "Lit [NL]" "[NL]" "length v + 2"])
      (use h' len in \<open>simp_all add: source_str_def overlaps_def\<close>)
  show ?thesis
    using print_run [OF assms(2), of "st\<lparr>mem := m'\<rparr>" p "v @ [NL]"] m'
    by (intro that [of m']) (simp add: assms(1) only_if_def andThen_def drop)
qed

section \<open>Properties\<close>

text \<open>
  C19. A frame of the report says the function and the shortened location: without colours and
  process numbers, from a line \<open>addr2line\<close> has left in memory, the child writes the function's name
  in brackets, and then the location without the directories it shares with the working directory,
  and from behind the first run of \<open>../\<close>, as far as the settings say. Nothing else is written, and
  the work stays within the block if it has four bytes more than the function's name behind the line.
\<close>

theorem frame_shows_shortened_location:
  assumes "\<not> s_color_output d" and "\<not> s_append_pid d" and "writes_all A"
    and "holds (mem st) cwd dir" and "NL \<notin> set dir" and "CHR ''/'' \<in> set dir"
    and "holds (mem st) line (f @ NL # loc @ [NL])" and "NL \<notin> set f" and "cwd + length dir < line"
    and "line + length f + length loc + 2 < memory" and "memory + length f + 4 \<le> length (mem st)"
  shows "\<exists>m'. print_frame A d cwd line memory st = (Inr (), st\<lparr>mem := m', events := events st @
    [ToStderr (''['' @ f @ '']'' @ [NL]), ToStderr (shortened d dir (loc @ [NL]))]\<rparr>)"
proof -
  let ?e = "line + length f"
  let ?m1 = "overwrite (mem st) ?e [NUL]"
  let ?ev = "events st @ [ToStderr (''['' @ f @ '']'' @ [NL])]"
  have end_pos: "strstr line [NL] st = (Inr (Some ?e), st)"
    using load_str_run [OF assms(7)] find_sub_char [OF assms(8)] by (simp add: strstr_def andThen_def)
  have put: "put ?e [NUL] st = (Inr (), st\<lparr>mem := ?m1\<rparr>)"
    using assms(10,11) by (intro put_NUL_run) simp
  have f1: "holds ?m1 line f" by (rule holds_truncate) (rule assms(7))
  have "holds (mem st) (?e + 1) (loc @ [NL])"
    using holds_drop [of "mem st" line "f @ [NL]" "loc @ [NL]"] assms(7) by (simp add: add.assoc)
  then have loc1: "holds ?m1 (?e + 1) (loc @ [NL])"
    by (rule holds_frame) (use assms(10,11) in simp_all)
  have dir1: "holds ?m1 cwd dir"
    by (rule holds_frame [OF assms(4)]) (use assms(9,10,11) in simp_all)
  obtain m2 where m2: "function_line A d line memory (st\<lparr>mem := ?m1\<rparr>) = (Inr (), st\<lparr>mem := m2, events := ?ev\<rparr>)"
    "same_outside memory (length f + 4) ?m1 m2"
    by (rule function_line_run [OF assms(1-3), of "st\<lparr>mem := ?m1\<rparr>" line f memory])
      (use f1 assms(10,11) in simp_all)
  have loc2: "holds m2 (?e + 1) (loc @ [NL])" and dir2: "holds m2 cwd dir"
    using same_outside_holds [OF m2(2)] loc1 dir1 assms(9,10) by simp_all
  let ?st2 = "st\<lparr>mem := m2, events := ?ev\<rparr>"
  obtain k where k: "\<And>f :: nat \<Rightarrow> nat crash_prog. andThen (if s_cut_common_path_root d then cut_common_root cwd (?e + 1) else ret (?e + 1))
      (\<lambda>line. andThen (if s_cut_relative_paths d then cut_relative line else ret line) f) ?st2 = f (?e + 1 + k) ?st2"
    "k \<le> length loc" "shortened d dir (loc @ [NL]) = drop k loc @ [NL]"
    by (rule shortened_run [of ?st2 cwd dir "?e + 1" loc d]) (use loc2 dir2 assms(5,6,9) in auto)
  have loc3: "holds (mem ?st2) (?e + 1 + k) (drop k loc @ [NL])"
    using holds_advance [OF loc2 k(2)] by simp
  obtain m' where m': "\<And>x. andThen (drop_last_char (?e + 1 + k)) (\<lambda>_. andThen (only_if (s_append_pid d) x) (\<lambda>_.
       andThen (strcat (?e + 1 + k) (Lit [NL])) (\<lambda>_. print2stderr (os_write A) (?e + 1 + k)))) ?st2 =
      (Inr (), st\<lparr>mem := m', events := ?ev @ [ToStderr (shortened d dir (loc @ [NL]))]\<rparr>)"
    by (rule print_location_run [OF assms(2,3) loc3]) (simp add: k(3))
  show ?thesis
    by (rule exI [of _ m'], unfold print_frame_def)
      (simp only: andThen_Inr end_pos option.case put Let_def m2(1) k(1) only_if_def [of False]
        assms(1) if_False ret_run m', simp)
qed

definition demo_frame :: crash_state where
  "demo_frame = \<lparr>mem = ''/a/b/'' @ [NUL] @ ''main'' @ [NL] @ ''/a/c/../x.c:7'' @ [NL] @ NUL # replicate 29 NUL, events = []\<rparr>"

lemma frame_shows_shortened_location_witness:
  "\<exists>m'. print_frame demo_crash_env (static_members\<lparr>s_color_output := False\<rparr>)
      0 6 28 demo_frame =
    (Inr (), demo_frame\<lparr>mem := m', events := [ToStderr (''[main]'' @ [NL]), ToStderr (''x.c:7'' @ [NL])]\<rparr>)"
proof -
  have "shortened (static_members\<lparr>s_color_output := False\<rparr>) ''/a/b/'' (''/a/c/../x.c:7'' @ [NL]) = ''x.c:7'' @ [NL]"
    by (simp add: shortened_def static_members_def without_common_root_def without_relative_def
        skip_relative.simps)
  moreover have "holds (mem demo_frame) 0 ''/a/b/''" "holds (mem demo_frame) 6 (''main'' @ NL # ''/a/c/../x.c:7'' @ [NL])"
    by (simp_all add: demo_frame_def holds_def) (rule exI [of _ "''/a/b/'' @ [NUL]"], simp)
  ultimately show ?thesis
    using frame_shows_shortened_location [of "static_members\<lparr>s_color_output := False\<rparr>"
        demo_crash_env demo_frame 0 "''/a/b/''" 6 "''main''" "''/a/c/../x.c:7''" 28]
    by (simp add: static_members_def writes_all_def demo_crash_env_def) (simp add: demo_frame_def)
qed

end
