(* ===== verification/Spec2Isabelle.thy ===== *)
theory Spec2Isabelle
  imports Kms_Main Reply_Format Crash_Report
begin

text \<open>
  Kurento Media Server: a verification library of the server process (\<open>src/server\<close>).

  THE PROGRAM. \<open>main.cpp\<close> reads its options, sets up logging and the crash handler, loads the
  configuration and the modules, constructs \<open>ServerMethods\<close> (the request processor) and a transport
  over it, and runs the GLib main loop until a signal ends it. The transport takes a client's
  message, asks the processor for the response, notes which connection the session is on, and
  sends the response; a thread of its own keeps the connected sessions alive, another announces the
  server to a registrar. The processor hands a request to a JSON-RPC dispatcher with two hooks
  around it, which look up and fill the request cache, and a table of methods that act on the core
  library's media objects. Events of the media objects go back through the transport to the
  connection of the session that subscribed. A cached response is removed by a timer of the main
  loop. If the process crashes, the crash handler writes a report without allocating memory.

  HOW IT IS MODELLED. A C++ function is a program (\<open>Kms_Prelude\<close>): from a state to an exception or
  a value, with the new state. A throw keeps what was written before it, and every exception is a
  constructor of \<open>exn\<close>. A class is a record, its members are the fields; \<open>std::map\<close> is an
  association list with distinct keys. What is not under \<open>src\<close> (the JSON, property tree, websocket
  and log libraries, the media objects, the operating system) is a field of a record that the
  definitions take as a parameter; what is used of it is a named hypothesis of the theorem, and each
  theorem with a hypothesis is followed by one that applies it to concrete functions.

  THE THEORIES, in the order they build on each other.
  \<^item> \<open>Kms_Prelude\<close>: programs, their combinators and weakest preconditions, maps, decimal numbers.
    \<open>Json_Model\<close>: JSON values with the members of an object in order, and the exceptions. \<open>C_Strings\<close>:
    \<open>strtol\<close> with its limits, \<open>find\<close>, \<open>substr\<close>. \<open>Config_Env\<close> and \<open>Server_Env\<close>: the parameters for the configuration and for the libraries
    the processor calls.
  \<^item> \<open>Request_Cache\<close> (\<open>RequestCache.cpp\<close>, \<open>CacheEntry.cpp\<close>): \<open>request_cache\<close> with the entries as objects
    on a heap, \<open>addResponse\<close>, \<open>getCachedResponse\<close>, the destructor, and the two halves of the timer's
    callback, \<open>timer_fired\<close> and \<open>timeout_emit\<close>; \<open>cache_step\<close> is any interleaving of them.
    \<open>Cache_Interface\<close> is what the processor may rely on, interpreted by the cache (\<open>rc\<close>). The lemmas
    show the invariant \<open>cache_inv\<close>, that a response stays until its deadline and not longer, and that
    no callback meets a destroyed entry as long as no response is replaced. \<open>torn_step\<close> also lets a
    response be added under given keys whatever is cached there, as a thread does that was interrupted
    between its lookup and its adding: the invariant stays, and only callbacks for those keys can meet
    a destroyed entry.
  \<^item> \<open>Resource_Manager\<close> (\<open>ResourceManager.cpp\<close>): the limits, read once, the counters, and the check,
    with \<open>float\<close> arithmetic as rounding to 24 bits; for limits below \<open>2\<^sup>2\<^sup>4\<close>, which a float holds, the share
    that is compared is the product up to one half of a thread or file.
  \<^item> \<open>Server_Methods\<close> and \<open>Server_Rpc\<close> (\<open>ServerMethods.cpp\<close>): each RPC method, the hooks \<open>preProcess\<close>
    and \<open>postProcess\<close>, transactions with \<open>injectRefs\<close>, \<open>process\<close> from text to text, the constructor.
    \<open>dispatch\<close> ties the dispatcher to the table that calls it again; \<open>depth\<close> bounds how deep
    transactions may nest, any number is allowed and every theorem holds for all of them, \<open>StackOverflow\<close>
    stands for the bound. \<open>throws\<close> collects what a program can throw, and \<open>method_error\<close> is what can
    leave a method with the conversion of exceptions. \<open>Reply_Format\<close>: the members of each method's
    result, as the relation \<open>reply_format\<close>.
  \<^item> \<open>WebSocket_Transport\<close>, \<open>WebSocket_Registrar\<close> (\<open>transport/websocket\<close>): the handlers of messages,
    connections, subscriptions and events, the keep-alive thread (each round, and the loop for as
    many rounds as are given), construction, start and stop; the registrar's thread as a loop over
    the outcomes of its attempts. \<open>Session_Registry\<close> is the contract of the table of sessions and
    connections, interpreted by the transport (\<open>sr\<close>). \<open>Processor_Interface\<close> is what the transport
    relies on of its processor, interpreted by \<open>ServerMethods\<close> (\<open>sp\<close>).
  \<^item> \<open>Load_Config\<close> (\<open>loadConfig.cpp\<close>): merging of property trees, the files of modules and where
    their settings end up. The recursion over a directory follows the tree that is given, in which an
    error of the file system is an entry; the first one ends the walk as an exception.
  \<^item> \<open>C_Memory\<close>, \<open>Death_Handler\<close> (\<open>death_handler.cpp\<close>): the block of memory allocated beforehand, as
    bytes at addresses, the string functions on it, the settings, and the signal handler with its
    fork. A write outside the block is a \<open>Fault\<close> of the model, so bounds are theorems. Loops over a
    string end with the block, loops over digits after the 30 their buffer has room for, more than a
    64-bit number has in base 10 or 16. \<open>Crash_Report\<close>: what the frames say, against a function on
    strings that shortens a location.
  \<^item> \<open>Kms_Logging\<close> (\<open>logging.cpp\<close>): levels, lines, the setup of the files.
  \<^item> \<open>Handler_Threads\<close>: the handlers of the transport as its service threads run them. \<open>task_step\<close> is
    one section of a handler, from one taking or releasing of the mutex, or one call made without it,
    to the next; the sections are definitions of their own (\<open>session_section\<close> and those after it);
    \<open>pool_step\<close> runs the sections of any number of handlers in any order. The lemmas show
    that the sections run one after the other are the handler (so that nothing is lost by the cut),
    that the two tables of connections agree between any two sections, that what is sent names the
    right server, and that shared event handlers belong to their subscribers.
  \<^item> \<open>Server_Invariants\<close>: \<open>server_step\<close>, the changes of the server's state; the locale
    \<open>server_invariant\<close>, a property that bears them; all methods, transactions and sections of handlers
    keep it. It is interpreted by the runs of the cache (\<open>guarded\<close>) and by what is set once (\<open>once\<close>).
    \<open>kms_step\<close> is a step of the process: a section of a handler over the processor, or a step of the
    server besides. A handler's \<open>postProcess\<close> looks up and adds in one step; the parameter \<open>torn\<close> is the
    set of keys for which other threads come in between, and the adding is then a step of its own. \<open>disturbed_config\<close> lets other threads change the
    server between the calls the dispatcher makes; such a dispatcher meets what is asked of one.
    \<open>Event_Subscription\<close>: the transport's \<open>processSubscription\<close> as the handler of subscriptions the
    processor is given, with the table of event handlers in the world; it meets what is asked of one.
  \<^item> \<open>Kms_Main\<close> (\<open>main.cpp\<close>, \<open>TransportFactory.cpp\<close>, \<open>modules.cpp\<close>, \<open>version.cpp\<close>):
    \<open>main\<close> composed of the models above.
  \<^item> This theory: the properties of the process as a whole.

  WHAT IS SHOWN. Each property stands after a text that states it. The main ones: an answer lasts
  until its deadline whatever happens meanwhile, but for a second reply to the same request that was
  already under way, and a repeated message changes nothing; in every state the process reaches the
  cache is consistent, no callback meets a destroyed entry unless its key is torn, and the
  two tables of connections agree; each method answers in its format, and no \<open>KurentoException\<close> leaves a
  method that converts them; transactions stay in their session, answer in order and
  substitute exactly the results referred to; the server does not serve unless its setup succeeded;
  later settings win; the crash report stays within its memory and its child wakes the process.

  NOT MODELLED. The threads interleave at the sections of \<open>Handler_Threads\<close>. Within a section that
  calls the processor, other threads change the server only where the dispatcher is taken as one they
  disturb, between its calls, and by adding responses under torn keys; the section's own hooks and
  methods are not interrupted. An interrupted \<open>postProcess\<close> is in the model one that finds its response
  cached, or adds it, and whose adding comes again under its torn key; that the response is
  seen in the cache before the interrupted thread adds it is the difference. The halves of a timer's
  callback are steps of their own. That
  \<open>processMessage\<close> looks its connection up without the mutex is a race on \<open>std::map\<close>, which the model
  takes as a read of some state (it is among the findings). A lost wake-up or a deadlock cannot be
  stated, since locks are no part of the state. The
  initialisation of GLib and GStreamer, the TLS context and the socket options, the dump of the
  configuration to the log and the destructors that run at the end of the process are calls of
  libraries only. Tests, the scaffold for new modules
  and packaging are no part of the server.
\<close>

section \<open>The wire and the request cache\<close>







definition demo_repeat_env :: "(demo_world, string, string, string ws_event_handler) kms_env" where
  "demo_repeat_env = demo_env_of\<lparr>parseJson := \<lambda>_. Some demo_request\<rparr>"

definition demo_repeat_transport :: "(demo_world server, string, (bool \<times> nat \<times> string) list) transport" where
  "demo_repeat_transport = demo_server_transport\<lparr>tr_proc := demo_server\<lparr>srv_cache :=
     addResponse (srv_cache demo_server) ''s'' ''1'' demo_response\<rparr>\<rparr>"

lemma demo_handler_acts_through_config: "acts_through_config torn demo_handler"
  unfolding acts_through_config_def
proof (intro allI impI)
  fix I :: "'w server \<Rightarrow> bool" and cfg :: "'w server rpc_config" and req resp :: json
  assume "config_keeps I cfg"
  then have keep: "cfg_pre cfg = Some pre \<Longrightarrow> keeps I (pre q r)" "cfg_post cfg = Some post \<Longrightarrow> keeps I (post q r)"
    "map_of (cfg_methods cfg) m = Some f \<Longrightarrow> keeps I (f q r)" for pre post m f q r
    by (auto simp: config_keeps_def dest: map_of_SomeD)
  show "keeps I (demo_handler cfg req resp)"
    unfolding demo_handler_def
    by (auto simp: keep split: option.split json.split intro!: keeps_andThen keeps_prod keeps_ret)
qed

lemma demo_parameters: "documented_parameters torn demo_handler None demo_server_ws"
  by (simp add: documented_parameters_def demo_handler_acts_through_config subscribes_in_world_def
      demo_server_ws_def world_only_generateUUID)

section \<open>Properties\<close>

text \<open>
  C3. The running server is a guarded request cache: whatever the transport handles (messages on
  any connection with transactions at any depth, connections, subscriptions, events, keep-alives,
  each with any outcome), however the sections of these handlers interleave, and whenever timers fire
  and media objects change in between, the cache has made a run in which a response is added only
  under a key that has none. Each hook of the processor runs without another response being added: no
  key is torn.
\<close>

theorem server_refines_guarded_cache:
  assumes "documented_parameters {} H sub W" and "kms_runs {} E H sub disabled depth W st st'"
  shows "cache_steps True (srv_cache (tr_proc st)) (srv_cache (tr_proc st'))"
  using assms(2,1) by (rule kms_runs_cache [THEN nothing_torn])

definition demo_later :: "(demo_world server, string, (bool \<times> nat \<times> string) list) transport" where
  "demo_later = demo_repeat_transport\<lparr>tr_proc := (tr_proc demo_repeat_transport)
     \<lparr>srv_cache := (srv_cache (tr_proc demo_repeat_transport))\<lparr>rc_now :=
        rc_now (srv_cache (tr_proc demo_repeat_transport)) + 19999\<rparr>\<rparr>\<rparr>"

lemma demo_later_steps: "(server_step torn)\<^sup>*\<^sup>* (tr_proc demo_repeat_transport) (tr_proc demo_later)"
  by (rule r_into_rtranclp, simp add: demo_later_def) (rule server_step.timers, rule main_loop.passes)

lemma demo_later_runs: "kms_runs torn demo_repeat_env H None False depth demo_server_ws demo_repeat_transport demo_later"
  using kms_runs_besides [OF demo_later_steps] by (simp add: demo_later_def)

text \<open>A dispatcher between whose calls time passes.\<close>

definition demo_tick :: "json \<Rightarrow> demo_world server \<Rightarrow> demo_world server" where
  "demo_tick q s = s\<lparr>srv_cache := (srv_cache s)\<lparr>rc_now := rc_now (srv_cache s) + 1\<rparr>\<rparr>"

lemma demo_disturbed_parameters:
  "documented_parameters torn (\<lambda>cfg. demo_handler (disturbed_config demo_tick cfg)) None demo_server_ws"
proof -
  have "(server_step torn)\<^sup>*\<^sup>* s (demo_tick q s)" for q s
    unfolding demo_tick_def by (rule r_into_rtranclp, rule server_step.timers, rule main_loop.passes)
  then have "acts_through_config torn (\<lambda>cfg. demo_handler (disturbed_config demo_tick cfg))"
    by (rule disturbed_dispatcher [OF demo_handler_acts_through_config])
  then show ?thesis
    using demo_parameters
    by (simp add: documented_parameters_def)
qed

theorem server_refines_guarded_cache_witness:
  "cache_steps True (srv_cache (tr_proc demo_repeat_transport)) (srv_cache (tr_proc demo_later))"
  by (rule server_refines_guarded_cache [OF demo_disturbed_parameters demo_later_runs])

text \<open>
  C2. The running server is consistent: in every state the process can reach from where \<open>main\<close>
  enters its main loop (sections of handlers, timers and media objects in any order, whatever the
  configuration was) the cache satisfies its invariant, a session has a connection exactly if the
  connection has that session, and the instance keeps its name and its share of the system's
  resources. All this holds also when other threads come between the lookup of \<open>postProcess\<close> and its
  adding, under any keys, the set \<open>torn\<close>. A timer callback can touch a destroyed cache entry only if it
  is in progress for such a torn key; if no \<open>postProcess\<close> is interrupted there, none does. The code does
  not prevent the interruption, and the race of concurrent replies below shows that the fault then occurs.
\<close>

theorem running_server_is_consistent:
  assumes "main M A E W C fresh m0 = (r, m1)" and "mn_served m0 = None" and "mn_served m1 = Some st0"
    and "documented_parameters torn H sub W" and "kms_runs torn E H sub disabled depth W st0 st"
  shows "cache_inv (srv_cache (tr_proc st)) \<and>
    (conn_of st s = Some h \<longleftrightarrow> sess_of st h = Some s) \<and>
    srv_instanceId (tr_proc st) = srv_instanceId (tr_proc st0) \<and>
    srv_resourceLimitPercent (tr_proc st) = srv_resourceLimitPercent (tr_proc st0) \<and>
    (cache_fault (srv_cache (tr_proc st)) \<longrightarrow>
      (\<exists>a sid rid. (a, sid, rid) \<in> set (rc_firing (srv_cache (tr_proc st))) \<and> (sid, rid) \<in> torn \<and>
        rc_heap (srv_cache (tr_proc st)) a = None))"
proof -
  have "ready_to_serve M A (mn_config m0) m1"
    using main_wp [OF assms(2), of M A E W C fresh] assms(3) wp_run [where m = "main M A E W C fresh", OF assms(1)]
    by (cases r) auto
  then have start: "srv_cache (tr_proc st0) = request_cache_init REQUEST_TIMEOUT" "maps_inverse st0"
    using assms(3) by (auto simp: ready_to_serve_def fresh_server_def)
  then have run: "torn_steps torn (request_cache_init REQUEST_TIMEOUT) (srv_cache (tr_proc st))"
    using kms_runs_cache [OF assms(5,4)] by simp
  have inv: "cache_inv (srv_cache (tr_proc st))" by (rule torn_steps_inv [OF run cache_inv_init])
  note fault = fault_is_torn [OF inv torn_steps_live [OF run cache_inv_init cache_live_init]]
  have "maps_inverse st" by (rule kms_runs_inverse [OF assms(5) start(2)])
  then have "conn_of st s = Some h \<longleftrightarrow> sess_of st h = Some s" by (rule sr.inverse)
  then show ?thesis using inv fault kms_runs_once [OF assms(5,4)] by blast
qed

text \<open>A connection closes; with no key torn, no callback can touch a destroyed entry.\<close>

theorem running_server_is_consistent_witness:
  "\<exists>m1 st0 st.
     main demo_main_env demo_conf_env demo_kms demo_server_ws demo_tree_config [] demo_main_state = (Inr 0, m1) \<and>
     mn_served m1 = Some st0 \<and> closeHandler 3 st0 = (Inr (), st) \<and>
     \<not> cache_fault (srv_cache (tr_proc st)) \<and> srv_instanceId (tr_proc st) = srv_instanceId (tr_proc st0)"
proof -
  obtain m1 st0 where m: "main demo_main_env demo_conf_env demo_kms demo_server_ws demo_tree_config [] demo_main_state =
      (Inr 0, m1)" "mn_served m1 = Some st0"
    using demo_main by blast
  obtain st where st: "closeHandler 3 st0 = (Inr (), st)" by (simp add: closeHandler_def modify_def)
  have run: "kms_runs {} demo_kms demo_handler None False 4 demo_server_ws st0 st"
    by (rule kms_runs_handler, rule ws_step.closed [OF st])
  have "mn_served demo_main_state = None" by (simp add: demo_main_state_def)
  from running_server_is_consistent [OF m(1) this m(2) demo_parameters run]
  show ?thesis using m st by blast
qed





text \<open>
  C4. Two handlers that answer the same request at once defeat the lookup of \<open>postProcess\<close>, which
  takes the cache's lock for the lookup and again for the adding: the lookup of the one fails, the
  other adds its response, that response's timer fires, and when the first then adds its own response
  before the timer's callback has emitted its signal, the callback touches a destroyed entry. The
  other threads and the main loop have done nothing wrong: they add under absent keys only.
\<close>

theorem concurrent_replies_race:
  "let s0 = s\<lparr>srv_cache := request_cache_init t\<rparr> in
     cached_response sid rid s0 = (Inl (CacheException ''Session not cached''), s0) \<and>
     (\<exists>c. cache_steps True (srv_cache (snd (cache_response sid rid other s0))) c \<and>
       cache_fault (srv_cache (snd (cache_response sid rid mine (s0\<lparr>srv_cache := c\<rparr>)))))"
  using replaced_while_firing [of t sid rid other mine]
  by (simp add: cached_response_def cache_response_def getCachedResponse_def request_cache_init_def)

end
